(* ===== verification/Prelude.thy ===== *)
theory Prelude
  imports Main "HOL-Library.Word" "HOL-Library.Monad_Syntax"
begin

text \<open>
  What every component of the development shares: the names of Go's fixed-width types, the two
  slice operations with Go's bounds checks, and the generic facts on options, lists and words that
  the component proofs use.

  Conventions of the whole development.
  \<^item> A Go function that can panic returns an \<open>option\<close>; \<open>None\<close> is the panic. Error results are
    values: \<open>e option\<close> with \<open>None\<close> for Go's \<open>nil\<close>.
  \<^item> \<open>uint64\<close> is \<open>64 word\<close>, so its arithmetic wraps as in Go. \<open>big.Int\<close> is \<open>int\<close>. A Go \<open>int\<close> that
    only ever holds a length or an index is a \<open>nat\<close>; where the code converts between \<open>uint64\<close> and
    \<open>int\<close> the conversion is written out.
  \<^item> \<open>common.Address\<close> and \<open>common.Hash\<close>, Go's \<open>[20]byte\<close> and \<open>[32]byte\<close>, are \<open>160 word\<close> and
    \<open>256 word\<close>: the array read as a big-endian number.
\<close>

type_synonym byte = "8 word"
type_synonym bytes = "8 word list"
type_synonym u64 = "64 word"
type_synonym address = "160 word"
type_synonym hash = "256 word"

named_theorems evm_defs \<open>definitions a component proof unfolds together\<close>

subsection \<open>Options\<close>

lemma bind_SomeE:
  assumes "Option.bind m f = Some y"
  obtains x where "m = Some x" "f x = Some y"
  using assms by (cases m) auto

lemma ex_Some_iff: "(\<exists>y. x = Some y) \<longleftrightarrow> x \<noteq> None"
  by auto

subsection \<open>Slices\<close>

text \<open>
  \<open>xs[a:b]\<close>. Go checks \<open>a \<le> b\<close> and \<open>b \<le> cap xs\<close>; the model panics as soon as \<open>b\<close> passes the
  length, so a run of the model that does not panic never reads past the length of a slice.
\<close>

definition slice :: "'a list \<Rightarrow> nat \<Rightarrow> nat \<Rightarrow> 'a list option" where
  "slice xs a b = (if a \<le> b \<and> b \<le> length xs then Some (take (b - a) (drop a xs)) else None)"

text \<open>\<open>copy(xs[a:b], v)\<close>: the first \<open>min (b - a) (length v)\<close> elements of the window are replaced.\<close>

definition copy_into :: "'a list \<Rightarrow> nat \<Rightarrow> nat \<Rightarrow> 'a list \<Rightarrow> 'a list option" where
  "copy_into xs a b v =
     (if a \<le> b \<and> b \<le> length xs
      then let n = min (b - a) (length v) in Some (take a xs @ take n v @ drop (a + n) xs)
      else None)"

text \<open>
  \<open>make([]byte, n)\<close>. The run-time system panics when \<open>n\<close> is negative or above its address-space limit, which is
  \<open>2 ^ 48\<close> on 64-bit Linux. That the machine may have less memory than that is not modelled.
\<close>

definition maxAlloc :: int where
  "maxAlloc = 2 ^ 48"

definition make_bytes :: "int \<Rightarrow> bytes option" where
  "make_bytes n = (if 0 \<le> n \<and> n \<le> maxAlloc then Some (replicate (nat n) 0) else None)"

lemma make_bytes_Some: "0 \<le> n \<Longrightarrow> n \<le> 2 ^ 48 \<Longrightarrow> make_bytes n = Some (replicate (nat n) 0)"
  by (simp add: make_bytes_def maxAlloc_def)

lemma slice_Some: "a \<le> b \<Longrightarrow> b \<le> length xs \<Longrightarrow> slice xs a b = Some (take (b - a) (drop a xs))"
  by (simp add: slice_def)

lemma slice_length: "slice xs a b = Some ys \<Longrightarrow> length ys = b - a"
  by (auto simp: slice_def split: if_splits)

lemma copy_into_Some_iff: "(\<exists>ys. copy_into xs a b v = Some ys) \<longleftrightarrow> a \<le> b \<and> b \<le> length xs"
  by (simp add: copy_into_def Let_def)

lemma copy_into_length: "copy_into xs a b v = Some ys \<Longrightarrow> length ys = length xs"
  by (auto simp: copy_into_def Let_def split: if_splits)

lemma copy_into_nth:
  assumes "copy_into xs a b v = Some ys" "i < length xs"
  shows "ys ! i = (if a \<le> i \<and> i < a + min (b - a) (length v) then v ! (i - a) else xs ! i)"
proof -
  define n where "n = min (b - a) (length v)"
  from assms have ys: "ys = take a xs @ take n v @ drop (a + n) xs" and b: "a \<le> b" "b \<le> length xs"
    by (auto simp: copy_into_def n_def Let_def split: if_splits)
  have n: "n \<le> length v" "a + n \<le> length xs" using b by (auto simp: n_def)
  show ?thesis unfolding n_def [symmetric] ys using assms(2) n
    by (auto simp: nth_append min_def)
qed

subsection \<open>Words\<close>

lemma unat_add_no_wrap: "unat (a::u64) + unat b < 2 ^ 64 \<Longrightarrow> unat (a + b) = unat a + unat b"
  by (simp add: unat_word_ariths)

lemma unat_sub_no_wrap: "b \<le> (a::u64) \<Longrightarrow> unat (a - b) = unat a - unat b"
  by (rule unat_sub)

lemma unat_mult_no_wrap: "unat (a::u64) * unat b < 2 ^ 64 \<Longrightarrow> unat (a * b) = unat a * unat b"
  by (simp add: unat_word_ariths)

lemma unat_u64_lt: "unat (a::u64) < 2 ^ 64"
  using unsigned_less [of a, where ?'a = nat] by simp

lemma unat_of_nat_u64: "n < 2 ^ 64 \<Longrightarrow> unat (of_nat n :: u64) = n"
  by (simp add: unat_of_nat)

lemma uint_of_int_u64: "0 \<le> n \<Longrightarrow> n < 2 ^ 64 \<Longrightarrow> uint (word_of_int n :: u64) = n"
  by (simp add: uint_word_of_int)

lemma sint_of_int_u64: "0 \<le> n \<Longrightarrow> n < 2 ^ 63 \<Longrightarrow> sint (word_of_int n :: u64) = n"
  by (simp add: signed_take_bit_int_eq_self sint_sbintrunc')

lemma sint_eq_uint_u64: "uint (a::u64) < 2 ^ 63 \<Longrightarrow> sint a = uint a"
  using sint_of_int_u64 [of "uint a"] by simp


lemma unat_byte_lt: "unat (a :: byte) < 256"
  using unsigned_less [of a] by simp

lemma zdiv_less:
  assumes "0 < q" "x < n * q"
  shows "x div q < (n :: int)"
proof -
  have "x div q * q \<le> x"
    using assms pos_mod_sign [of q x] by (simp add: minus_mod_eq_div_mult [symmetric])
  with assms have "x div q * q < n * q" by linarith
  then show ?thesis using assms by (simp add: mult_less_cancel_right_pos)
qed


lemma unat_ucast_byte: "unat (ucast (w :: u64) :: byte) = unat w mod 256"
  by (simp add: unsigned_ucast_eq take_bit_eq_mod)

lemma unat_ucast_u64: "unat (ucast (b :: byte) :: u64) = unat b"
  using unat_byte_lt [of b] by (simp add: unsigned_ucast_eq take_bit_eq_mod)

end
