(* ===== verification/BigMath.thy ===== *)
theory BigMath
  imports Prelude
begin

unbundle bit_operations_syntax

text \<open>
  Go's \<open>math/big\<close> as far as the sources use it, and \<open>src/common/math\<close> on top of it: the word-wise
  loops \<open>ReadBits\<close>, \<open>Byte\<close> and \<open>Exp\<close> of \<open>big.go\<close>, the 256-bit views \<open>U256\<close> and \<open>S256\<close>, and the
  overflow-checked operations of \<open>integer.go\<close>. The lemmas give each loop its closed form.
\<close>

subsection \<open>big.Int\<close>

fun blen :: "nat \<Rightarrow> nat" where
  "blen n = (if n = 0 then 0 else Suc (blen (n div 2)))"

declare blen.simps [simp del]

definition BitLen :: "int \<Rightarrow> nat" where
  "BitLen x = blen (nat \<bar>x\<bar>)"

text \<open>\<open>Uint64\<close> and \<open>Int64\<close> keep the low 64 bits of the magnitude.\<close>

definition Uint64 :: "int \<Rightarrow> u64" where
  "Uint64 x = word_of_int \<bar>x\<bar>"

definition Int64 :: "int \<Rightarrow> int" where
  "Int64 x = sint (if x < 0 then - Uint64 x else Uint64 x)"

definition SetBytes :: "bytes \<Rightarrow> int" where
  "SetBytes bs = foldl (\<lambda>a b. a * 256 + uint b) 0 bs"

text \<open>The \<open>n\<close> low bytes of \<open>x\<close>, most significant first.\<close>

definition be_bytes :: "nat \<Rightarrow> int \<Rightarrow> bytes" where
  "be_bytes n x = map (\<lambda>k. word_of_int (x div 256 ^ k)) (rev [0..<n])"

definition big_Bytes :: "int \<Rightarrow> bytes" where
  "big_Bytes x = be_bytes ((BitLen x + 7) div 8) \<bar>x\<bar>"

fun words_of :: "nat \<Rightarrow> u64 list" where
  "words_of n = (if n = 0 then [] else of_nat n # words_of (n div 2 ^ 64))"

declare words_of.simps [simp del]

definition big_Bits :: "int \<Rightarrow> u64 list" where
  "big_Bits x = words_of (nat \<bar>x\<bar>)"

subsection \<open>common/math/big.go\<close>

definition tt255 :: int where "tt255 = 2 ^ 255"

definition tt256 :: int where "tt256 = 2 ^ 256"

definition tt256m1 :: int where "tt256m1 = tt256 - 1"

definition BigMax :: "int \<Rightarrow> int \<Rightarrow> int" where
  "BigMax x y = (if x < y then y else x)"

definition BigMin :: "int \<Rightarrow> int \<Rightarrow> int" where
  "BigMin x y = (if x > y then y else x)"

definition U256 :: "int \<Rightarrow> int" where
  "U256 x = x AND tt256m1"

definition S256 :: "int \<Rightarrow> int" where
  "S256 x = (if x < tt255 then x else x - tt256)"

definition bigEndianByteAt :: "int \<Rightarrow> nat \<Rightarrow> byte" where
  "bigEndianByteAt x n =
     (let words = big_Bits x; i = n div 8
      in if i \<ge> length words then 0
         else ucast (drop_bit (8 * (n mod 8)) (words ! i)))"

definition Byte :: "int \<Rightarrow> nat \<Rightarrow> nat \<Rightarrow> byte" where
  "Byte x padlength n = (if n \<ge> padlength then 0 else bigEndianByteAt x (padlength - 1 - n))"

text \<open>The inner loop of \<open>ReadBits\<close> takes at most \<open>wordBytes\<close> bytes of one word.\<close>

fun read_word :: "nat \<Rightarrow> u64 \<Rightarrow> nat \<Rightarrow> bytes \<Rightarrow> nat \<times> bytes" where
  "read_word 0 d i buf = (i, buf)"
| "read_word (Suc j) d i buf =
     (if i = 0 then (i, buf)
      else read_word j (drop_bit 8 d) (i - 1) (buf[i - 1 := ucast d]))"

fun read_words :: "u64 list \<Rightarrow> nat \<Rightarrow> bytes \<Rightarrow> bytes" where
  "read_words [] i buf = buf"
| "read_words (d # ds) i buf = (let (i', buf') = read_word 8 d i buf in read_words ds i' buf')"

definition ReadBits :: "int \<Rightarrow> bytes \<Rightarrow> bytes" where
  "ReadBits x buf = read_words (big_Bits x) (length buf) buf"

definition PaddedBigBytes :: "int \<Rightarrow> nat \<Rightarrow> bytes" where
  "PaddedBigBytes x n = (if BitLen x div 8 \<ge> n then big_Bytes x else ReadBits x (replicate n 0))"

text \<open>One word of the exponent in \<open>Exp\<close>: square-and-multiply over its 64 bits.\<close>

fun exp_word :: "nat \<Rightarrow> u64 \<Rightarrow> int \<Rightarrow> int \<Rightarrow> int \<times> int" where
  "exp_word 0 w r b = (r, b)"
| "exp_word (Suc i) w r b =
     exp_word i (drop_bit 1 w) (if w AND 1 = 1 then U256 (r * b) else r) (U256 (b * b))"

fun exp_words :: "u64 list \<Rightarrow> int \<Rightarrow> int \<Rightarrow> int" where
  "exp_words [] r b = r"
| "exp_words (w # ws) r b = (let (r', b') = exp_word 64 w r b in exp_words ws r' b')"

definition Exp :: "int \<Rightarrow> int \<Rightarrow> int" where
  "Exp b e = exp_words (big_Bits e) 1 b"

subsection \<open>common/math/integer.go\<close>

definition MaxUint64 :: u64 where "MaxUint64 = - 1"

definition SafeSub :: "u64 \<Rightarrow> u64 \<Rightarrow> u64 \<times> bool" where
  "SafeSub x y = (x - y, x < y)"

definition SafeAdd :: "u64 \<Rightarrow> u64 \<Rightarrow> u64 \<times> bool" where
  "SafeAdd x y = (x + y, y > MaxUint64 - x)"

definition SafeMul :: "u64 \<Rightarrow> u64 \<Rightarrow> u64 \<times> bool" where
  "SafeMul x y = (if x = 0 \<or> y = 0 then (0, False) else (x * y, y > MaxUint64 div x))"

subsection \<open>common/bytes.go and common/types.go\<close>

definition RightPadBytes :: "bytes \<Rightarrow> int \<Rightarrow> bytes option" where
  "RightPadBytes xs l =
     (if l \<le> int (length xs) then Some xs
      else do { padded \<leftarrow> make_bytes l; copy_into padded 0 (length padded) xs })"

definition LeftPadBytes :: "bytes \<Rightarrow> int \<Rightarrow> bytes option" where
  "LeftPadBytes xs l =
     (if l \<le> int (length xs) then Some xs
      else do { padded \<leftarrow> make_bytes l; copy_into padded (nat l - length xs) (length padded) xs })"

text \<open>\<open>SetBytes\<close> of \<open>Hash\<close> and \<open>Address\<close> crops from the left, then right-aligns.\<close>

definition BytesToHash :: "bytes \<Rightarrow> hash" where
  "BytesToHash b =
     word_of_int (SetBytes (if length b > 32 then drop (length b - 32) b else b))"

definition BytesToAddress :: "bytes \<Rightarrow> address" where
  "BytesToAddress b =
     word_of_int (SetBytes (if length b > 20 then drop (length b - 20) b else b))"

definition BigToHash :: "int \<Rightarrow> hash" where
  "BigToHash b = BytesToHash (big_Bytes b)"

definition BigToAddress :: "int \<Rightarrow> address" where
  "BigToAddress b = BytesToAddress (big_Bytes b)"

definition hash_Bytes :: "hash \<Rightarrow> bytes" where
  "hash_Bytes h = be_bytes 32 (uint h)"

definition addr_Bytes :: "address \<Rightarrow> bytes" where
  "addr_Bytes a = be_bytes 20 (uint a)"

definition hash_Big :: "hash \<Rightarrow> int" where
  "hash_Big h = SetBytes (hash_Bytes h)"

definition addr_Big :: "address \<Rightarrow> int" where
  "addr_Big a = SetBytes (addr_Bytes a)"

subsection \<open>Lengths and byte strings\<close>

lemma blen_le_iff: "blen n \<le> k \<longleftrightarrow> n < 2 ^ k"
proof (induction n arbitrary: k rule: blen.induct)
  case (1 n)
  show ?case
  proof (cases "n = 0 \<or> k = 0")
    case True
    then show ?thesis by (subst blen.simps) auto
  next
    case False
    then obtain k' where k: "k = Suc k'" by (cases k) auto
    have "blen n \<le> k \<longleftrightarrow> blen (n div 2) \<le> k'"
      using False by (simp add: blen.simps [of n] k)
    also have "\<dots> \<longleftrightarrow> n div 2 < 2 ^ k'" using "1" False by simp
    also have "\<dots> \<longleftrightarrow> n < 2 ^ k" by (auto simp: k)
    finally show ?thesis .
  qed
qed

lemma BitLen_le_iff: "BitLen x \<le> k \<longleftrightarrow> \<bar>x\<bar> < 2 ^ k"
  by (simp add: BitLen_def blen_le_iff nat_less_iff)

lemma BitLen_gt_iff: "BitLen x > k \<longleftrightarrow> \<bar>x\<bar> \<ge> 2 ^ k"
  using BitLen_le_iff [of x k] by linarith

lemma BitLen_0_iff [simp]: "BitLen x = 0 \<longleftrightarrow> x = 0"
  using BitLen_le_iff [of x 0] by auto

lemma Uint64_uint: "uint (Uint64 x) = \<bar>x\<bar> mod 2 ^ 64"
  by (simp add: Uint64_def uint_word_of_int)

lemma Uint64_small: "0 \<le> x \<Longrightarrow> x < 2 ^ 64 \<Longrightarrow> uint (Uint64 x) = x"
  by (simp add: Uint64_uint)

lemma Int64_small: "0 \<le> x \<Longrightarrow> x < 2 ^ 63 \<Longrightarrow> Int64 x = x"
  by (simp add: Int64_def Uint64_def sint_of_int_u64)

lemma div_256_pow: "x div 256 ^ k = drop_bit (8 * k) (x :: int)"
  by (simp add: drop_bit_eq_div power_mult)

lemma length_be_bytes [simp]: "length (be_bytes n x) = n"
  by (simp add: be_bytes_def)

lemma be_bytes_Suc: "be_bytes (Suc n) x = word_of_int (x div 256 ^ n) # be_bytes n x"
  by (simp add: be_bytes_def)

lemma be_bytes_0 [simp]: "be_bytes 0 x = []"
  by (simp add: be_bytes_def)

lemma be_bytes_nth: "i < n \<Longrightarrow> be_bytes n x ! i = word_of_int (x div 256 ^ (n - Suc i))"
  by (simp add: be_bytes_def rev_nth)

lemma SetBytes_append1: "SetBytes (bs @ [b]) = SetBytes bs * 256 + uint b"
  by (simp add: SetBytes_def)

lemma SetBytes_Nil [simp]: "SetBytes [] = 0"
  by (simp add: SetBytes_def)

lemma SetBytes_Cons: "SetBytes (b # bs) = uint b * 256 ^ length bs + SetBytes bs"
  by (induction bs rule: rev_induct)
     (simp_all add: SetBytes_def algebra_simps)

lemma SetBytes_bounds: "0 \<le> SetBytes bs \<and> SetBytes bs < 256 ^ length bs"
proof (induction bs)
  case (Cons b bs)
  have "uint b < 256" using uint_bounded [of b] by simp
  then have "uint b * 256 ^ length bs \<le> 255 * 256 ^ length bs" by (intro mult_right_mono) simp_all
  moreover have "0 \<le> uint b * 256 ^ length bs" by simp
  ultimately show ?case using Cons unfolding SetBytes_Cons by (simp only: length_Cons power_Suc) linarith
qed simp

lemma SetBytes_nonneg [simp]: "0 \<le> SetBytes bs"
  using SetBytes_bounds by blast

lemma SetBytes_be_bytes: "SetBytes (be_bytes n x) = x mod 256 ^ n"
proof (induction n)
  case (Suc n)
  have "x mod 256 ^ Suc n = x mod (256 ^ n * 256)" by (simp add: mult.commute)
  also have "\<dots> = 256 ^ n * (x div 256 ^ n mod 256) + x mod 256 ^ n"
    by (simp add: zmod_zmult2_eq)
  finally show ?case using Suc
    by (simp add: be_bytes_Suc SetBytes_Cons uint_word_of_int mult.commute)
qed simp

lemma SetBytes_append: "SetBytes (xs @ ys) = SetBytes xs * 256 ^ length ys + SetBytes ys"
  by (induction xs) (simp_all add: SetBytes_Cons algebra_simps power_add)

lemma SetBytes_replicate_0 [simp]: "SetBytes (replicate n 0) = 0"
  by (induction n) (simp_all add: SetBytes_Cons)

lemma SetBytes_inj: "length xs = length ys \<Longrightarrow> SetBytes xs = SetBytes ys \<Longrightarrow> xs = ys"
proof (induction xs ys rule: list_induct2)
  case (Cons x xs y ys)
  have b: "SetBytes zs div 256 ^ length zs = 0 \<and> SetBytes zs mod 256 ^ length zs = SetBytes zs" for zs
    using SetBytes_bounds [of zs] by simp
  have "(uint x * 256 ^ length xs + SetBytes xs) div 256 ^ length xs
      = (uint y * 256 ^ length xs + SetBytes ys) div 256 ^ length xs"
    using Cons by (simp add: SetBytes_Cons)
  then have "uint x = uint y" using b [of xs] b [of ys] Cons.hyps by simp
  moreover from this have "SetBytes xs = SetBytes ys"
    using Cons by (simp add: SetBytes_Cons)
  ultimately show ?case using Cons.IH by (simp add: word_uint_eq_iff)
qed simp

lemma be_bytes_SetBytes: "be_bytes (length bs) (SetBytes bs) = bs"
  using SetBytes_bounds [of bs] by (intro SetBytes_inj) (simp_all add: SetBytes_be_bytes)

lemma SetBytes_big_Bytes: "SetBytes (big_Bytes x) = \<bar>x\<bar>"
proof -
  have "BitLen x \<le> 8 * ((BitLen x + 7) div 8)" by arith
  then have "\<bar>x\<bar> < 2 ^ (8 * ((BitLen x + 7) div 8))" by (simp add: BitLen_le_iff [symmetric])
  then have "\<bar>x\<bar> < 256 ^ ((BitLen x + 7) div 8)" by (simp add: power_mult)
  then show ?thesis by (simp add: big_Bytes_def SetBytes_be_bytes)
qed

lemma SetBytes_drop_mod: "SetBytes (drop n bs) = SetBytes bs mod 256 ^ (length bs - n)"
proof -
  have "SetBytes bs = SetBytes (take n bs) * 256 ^ (length bs - n) + SetBytes (drop n bs)"
    using SetBytes_append [of "take n bs" "drop n bs"] by simp
  then show ?thesis using SetBytes_bounds [of "drop n bs"] by simp
qed

lemma BytesToHash_eq: "BytesToHash b = word_of_int (SetBytes b)"
proof (cases "length b > 32")
  case True
  have "(word_of_int (SetBytes b mod 256 ^ 32) :: hash) = word_of_int (SetBytes b)"
    by (simp add: word_of_int_eq_iff take_bit_eq_mod)
  with True show ?thesis by (simp add: BytesToHash_def SetBytes_drop_mod)
qed (simp add: BytesToHash_def)

lemma BytesToAddress_eq: "BytesToAddress b = word_of_int (SetBytes b)"
proof (cases "length b > 20")
  case True
  have "(word_of_int (SetBytes b mod 256 ^ 20) :: address) = word_of_int (SetBytes b)"
    by (simp add: word_of_int_eq_iff take_bit_eq_mod)
  with True show ?thesis by (simp add: BytesToAddress_def SetBytes_drop_mod)
qed (simp add: BytesToAddress_def)

lemma BigToHash_eq: "BigToHash b = word_of_int \<bar>b\<bar>"
  by (simp add: BigToHash_def BytesToHash_eq SetBytes_big_Bytes)

lemma BigToAddress_eq: "BigToAddress b = word_of_int \<bar>b\<bar>"
  by (simp add: BigToAddress_def BytesToAddress_eq SetBytes_big_Bytes)

lemma hash_Big_eq: "hash_Big h = uint h"
  using uint_bounded [of h] by (simp add: hash_Big_def hash_Bytes_def SetBytes_be_bytes)

lemma addr_Big_eq: "addr_Big a = uint a"
  using uint_bounded [of a] by (simp add: addr_Big_def addr_Bytes_def SetBytes_be_bytes)

subsection \<open>256-bit views\<close>

lemma U256_mod: "U256 x = x mod 2 ^ 256"
proof -
  have m: "tt256m1 = mask 256" by (simp add: tt256m1_def tt256_def mask_eq_exp_minus_1)
  show ?thesis unfolding U256_def m by (simp only: take_bit_eq_mask [symmetric] take_bit_eq_mod)
qed

lemma U256_bounds [simp]: "0 \<le> U256 x" "U256 x < 2 ^ 256"
  by (simp_all add: U256_mod)

lemma U256_id: "0 \<le> x \<Longrightarrow> x < 2 ^ 256 \<Longrightarrow> U256 x = x"
  by (simp add: U256_mod)

lemma U256_uint: "U256 x = uint (word_of_int x :: 256 word)"
  by (simp add: U256_mod uint_word_of_int)

lemma S256_sint:
  assumes "0 \<le> x" "x < 2 ^ 256"
  shows "S256 x = sint (word_of_int x :: 256 word)"
proof -
  have "sint (word_of_int x :: 256 word) = signed_take_bit 255 x"
    by (simp add: sint_sbintrunc')
  also have "\<dots> = (x + 2 ^ 255) mod 2 ^ 256 - 2 ^ 255"
    by (simp add: signed_take_bit_eq_take_bit_shift take_bit_eq_mod)
  also have "\<dots> = S256 x"
  proof (cases "x < 2 ^ 255")
    case True
    with assms show ?thesis by (simp add: S256_def tt255_def)
  next
    case False
    have "x + 2 ^ 255 = (x - 2 ^ 255) + 1 * 2 ^ 256" by simp
    then have "(x + 2 ^ 255) mod 2 ^ 256 = (x - 2 ^ 255) mod 2 ^ 256"
      by (simp only: mod_mult_self1)
    also have "\<dots> = x - 2 ^ 255" using assms False by simp
    finally show ?thesis using False by (simp add: S256_def tt255_def tt256_def)
  qed
  finally show ?thesis by simp
qed

subsection \<open>The words of a number\<close>

lemma words_of_0 [simp]: "words_of 0 = []"
  by (simp add: words_of.simps)

lemma words_of_pos: "n \<noteq> 0 \<Longrightarrow> words_of n = of_nat n # words_of (n div 2 ^ 64)"
  by (simp add: words_of.simps [of n])

lemma pow64_Suc: "(2::nat) ^ (64 * Suc j) = 2 ^ 64 * 2 ^ (64 * j)"
  by (simp only: power_add [symmetric]) simp

lemma words_of_nth: "i < length (words_of n) \<Longrightarrow> words_of n ! i = of_nat (n div 2 ^ (64 * i))"
proof (induction n arbitrary: i rule: words_of.induct)
  case (1 n)
  show ?case
  proof (cases "n = 0")
    case True
    with "1.prems" show ?thesis by simp
  next
    case False
    with "1.prems" "1.IH" [OF False] show ?thesis
      by (cases i) (simp_all only: words_of_pos [OF False] pow64_Suc div_mult2_eq nth_Cons_0 nth_Cons_Suc
          length_Cons Suc_less_eq mult_0_right power_0 div_by_1)
  qed
qed

lemma words_of_beyond: "length (words_of n) \<le> i \<Longrightarrow> n div 2 ^ (64 * i) = 0"
proof (induction n arbitrary: i rule: words_of.induct)
  case (1 n)
  show ?case
  proof (cases "n = 0")
    case False
    have "Suc (length (words_of (n div 2 ^ 64))) \<le> i"
      using "1.prems" by (simp only: words_of_pos [OF False] length_Cons)
    then obtain j where i: "i = Suc j" and j: "length (words_of (n div 2 ^ 64)) \<le> j"
      by (metis Suc_le_D Suc_le_mono)
    show ?thesis unfolding i pow64_Suc div_mult2_eq using "1.IH" [OF False j] .
  qed simp
qed

lemma word_byte:
  assumes "k < 8"
  shows "ucast (drop_bit (8 * k) (of_nat n :: u64)) = (word_of_int (int n div 256 ^ k) :: byte)"
proof -
  have "int n div 256 ^ k = drop_bit (8 * k) (int n)" by (simp add: drop_bit_eq_div power_mult)
  then show ?thesis using assms
    by (auto intro!: bit_word_eqI simp: bit_simps)
qed


text \<open>Byte \<open>k\<close> of a magnitude, read off its words.\<close>

lemma big_Bits_byte:
  "(if k div 8 < length (big_Bits x)
    then ucast (drop_bit (8 * (k mod 8)) (big_Bits x ! (k div 8))) else 0)
   = (word_of_int (\<bar>x\<bar> div 256 ^ k) :: byte)"
proof -
  define n where "n = nat \<bar>x\<bar>"
  have x: "\<bar>x\<bar> = int n" by (simp add: n_def)
  have k: "(256::int) ^ k = 2 ^ (64 * (k div 8)) * 256 ^ (k mod 8)"
  proof -
    have "(256::int) ^ k = 256 ^ (8 * (k div 8) + k mod 8)" by simp
    also have "\<dots> = (256 ^ 8) ^ (k div 8) * 256 ^ (k mod 8)" by (simp only: power_add power_mult)
    also have "(256 ^ 8 :: int) = 2 ^ 64" by simp
    finally show ?thesis by (simp only: power_mult)
  qed
  have split: "int n div 256 ^ k = int (n div 2 ^ (64 * (k div 8))) div 256 ^ (k mod 8)"
    unfolding k by (simp add: zdiv_int zdiv_zmult2_eq)
  show ?thesis
  proof (cases "k div 8 < length (big_Bits x)")
    case True
    then have "big_Bits x ! (k div 8) = of_nat (n div 2 ^ (64 * (k div 8)))"
      by (simp only: big_Bits_def n_def [symmetric] words_of_nth)
    with True show ?thesis by (simp only: x split word_byte [of "k mod 8"] if_True mod_less_divisor
          zero_less_numeral)
  next
    case False
    then have "n div 2 ^ (64 * (k div 8)) = 0"
      by (simp only: big_Bits_def n_def [symmetric] not_less words_of_beyond)
    with False show ?thesis by (simp only: x split if_False) simp
  qed
qed

lemma bigEndianByteAt_eq: "bigEndianByteAt x n = word_of_int (\<bar>x\<bar> div 256 ^ n)"
  unfolding big_Bits_byte [symmetric] bigEndianByteAt_def Let_def by (simp add: not_less)

lemma Byte_eq:
  assumes "0 \<le> x"
  shows "Byte x n i = (if i < n then be_bytes n x ! i else 0)"
  using assms by (simp add: Byte_def bigEndianByteAt_eq be_bytes_nth)

lemma read_word_spec:
  assumes "i \<le> length buf"
  shows "fst (read_word j d i buf) = i - j"
    and "length (snd (read_word j d i buf)) = length buf"
    and "p < length buf \<Longrightarrow> snd (read_word j d i buf) ! p =
      (if i - j \<le> p \<and> p < i then ucast (drop_bit (8 * (i - 1 - p)) d) else buf ! p)"
  using assms
proof (induction j d i buf rule: read_word.induct)
  case (2 j d i buf)
  { case 1 with "2.IH" show ?case by (cases "i = 0") auto }
  { case 2 with "2.IH" show ?case by (cases "i = 0") auto }
  { case 3
    show ?case
    proof (cases "i = 0")
      case False
      have "8 * (i - 1 - 1 - p) + 8 = 8 * (i - 1 - p)" if "p < i - 1" using that by linarith
      with False 3 "2.IH"(3) show ?thesis
        by (auto simp: drop_bit_drop_bit nth_list_update add.commute)
    qed simp }
qed auto

lemma length_read_words: "i \<le> length buf \<Longrightarrow> length (read_words ws i buf) = length buf"
proof (induction ws arbitrary: i buf)
  case (Cons w ws)
  with read_word_spec(1,2) [OF Cons.prems, where j = 8 and d = w] show ?case
    by (auto split: prod.splits)
qed simp

lemma read_words_nth:
  assumes "i \<le> length buf" "p < length buf"
  shows "read_words ws i buf ! p =
      (if p < i \<and> (i - 1 - p) div 8 < length ws
       then ucast (drop_bit (8 * ((i - 1 - p) mod 8)) (ws ! ((i - 1 - p) div 8))) else buf ! p)"
  using assms
proof (induction ws arbitrary: i buf)
  case (Cons w ws)
  obtain i' buf' where e: "read_word 8 w i buf = (i', buf')" by fastforce
  from read_word_spec [OF Cons.prems(1), where j = 8 and d = w] e Cons.prems(2)
  have i': "i' = i - 8" and l: "length buf' = length buf" and b: "buf' ! p =
        (if i - 8 \<le> p \<and> p < i then ucast (drop_bit (8 * (i - 1 - p)) w) else buf ! p)"
    by auto
  have k: "(i - 1 - p) div 8 = Suc ((i - 8 - 1 - p) div 8) \<and> (i - 1 - p) mod 8 = (i - 8 - 1 - p) mod 8"
    if "p < i - 8"
  proof -
    have "i - 1 - p = 8 + (i - 8 - 1 - p)" using that by linarith
    then show ?thesis by (simp only: div_add_self1 mod_add_self1) simp
  qed
  have s: "(i - 1 - p) div 8 = 0 \<and> (i - 1 - p) mod 8 = i - 1 - p" if "i - 8 \<le> p" "p < i"
  proof -
    have "i - 1 - p < 8" using that by linarith
    then show ?thesis by simp
  qed
  have "read_words (w # ws) i buf ! p = (if p < i - 8 \<and> (i - 8 - 1 - p) div 8 < length ws
     then ucast (drop_bit (8 * ((i - 8 - 1 - p) mod 8)) (ws ! ((i - 8 - 1 - p) div 8))) else buf' ! p)"
    using Cons.IH [of i' buf'] Cons.prems by (simp add: e i' l)
  then show ?case using b k s
    by (cases "p < i - 8"; cases "p < i") (auto simp: not_less)
qed simp

lemma length_ReadBits [simp]: "length (ReadBits x buf) = length buf"
  by (simp add: ReadBits_def length_read_words)

lemma ReadBits_eq: "ReadBits x (replicate n 0) = be_bytes n \<bar>x\<bar>"
proof (rule nth_equalityI)
  fix p assume "p < length (ReadBits x (replicate n 0))"
  then have p: "p < n" by simp
  have "ReadBits x (replicate n 0) ! p = word_of_int (\<bar>x\<bar> div 256 ^ (n - 1 - p))"
    unfolding big_Bits_byte [symmetric] using p
    by (simp add: ReadBits_def read_words_nth)
  then show "ReadBits x (replicate n 0) ! p = be_bytes n \<bar>x\<bar> ! p"
    using p by (simp add: be_bytes_nth)
qed simp

subsection \<open>Square-and-multiply\<close>

lemma U256_mult: "U256 (U256 a * b) = U256 (a * b)" "U256 (a * U256 b) = U256 (a * b)"
  by (simp_all only: U256_mod mod_mult_left_eq mod_mult_right_eq)

lemma U256_idem [simp]: "U256 (U256 x) = U256 x"
  by (simp add: U256_mod)

lemma U256_square_power: "U256 (U256 (b * b) ^ k) = U256 (b ^ (2 * k))"
  by (simp add: U256_mod power_mod power_mult power2_eq_square)

lemma low_bit: "w AND 1 = 1 \<longleftrightarrow> odd (w :: u64)"
  by (simp add: and_one_eq odd_iff_mod_2_eq_one)

lemma odd_unat: "odd (unat w) = odd (w :: u64)"
  by (simp only: bit_0 [symmetric] bit_unsigned_iff) simp

lemma take_bit_64: "take_bit 64 (unat w) = unat (w :: u64)"
  using unat_u64_lt [of w] by (simp only: take_bit_nat_eq_self_iff)

lemma unat_take_bit_Suc:
  "unat (take_bit (Suc i) w) = (if odd w then 1 else 0) + 2 * unat (take_bit i (drop_bit 1 w))"
  for w :: u64
proof -
  have "unat (take_bit (Suc i) w) = take_bit (Suc i) (unat w)" by (simp add: unsigned_take_bit_eq)
  also have "\<dots> = (if odd w then 1 else 0) + 2 * take_bit i (drop_bit 1 (unat w))"
    by (simp add: take_bit_Suc drop_bit_Suc of_bool_def mod_2_eq_odd odd_unat)
  also have "take_bit i (drop_bit 1 (unat w)) = unat (take_bit i (drop_bit 1 w))"
    by (simp add: unsigned_take_bit_eq unsigned_drop_bit_eq take_bit_64)
  finally show ?thesis .
qed

lemma exp_word_spec:
  shows "U256 (fst (exp_word n w r b)) = U256 (r * b ^ unat (take_bit n w))"
    and "U256 (snd (exp_word n w r b)) = U256 (b ^ 2 ^ n)"
    and "U256 r = r \<Longrightarrow> U256 (fst (exp_word n w r b)) = fst (exp_word n w r b)"
proof (induction n w r b rule: exp_word.induct)
  case (2 i w r b)
  let ?k = "unat (take_bit i (drop_bit 1 w))"
  { case 1
    have "U256 (fst (exp_word (Suc i) w r b))
        = U256 ((if odd w then U256 (r * b) else r) * U256 (b * b) ^ ?k)"
      using "2.IH"(1) by (simp add: low_bit)
    also have "\<dots> = U256 ((if odd w then U256 (r * b) else r) * U256 (U256 (b * b) ^ ?k))"
      by (simp only: U256_mult)
    also have "\<dots> = U256 ((if odd w then r * b else r) * b ^ (2 * ?k))"
      by (simp only: U256_square_power U256_mult split: if_splits) simp
    also have "(if odd w then r * b else r) * b ^ (2 * ?k) = r * b ^ unat (take_bit (Suc i) w)"
      by (simp only: unat_take_bit_Suc) (simp add: mult.assoc power_mult)
    finally show ?case . }
  { case 2
    with "2.IH"(2) U256_square_power [of b "2 ^ i"] show ?case by simp }
  { case 3
    with "2.IH"(3) show ?case by (simp add: low_bit) }
qed simp_all


primrec wval :: "u64 list \<Rightarrow> nat" where
  "wval [] = 0"
| "wval (w # ws) = unat w + 2 ^ 64 * wval ws"

lemma wval_words_of: "wval (words_of n) = n"
proof (induction n rule: words_of.induct)
  case (1 n)
  show ?case
  proof (cases "n = 0")
    case False
    have "wval (words_of n) = unat (of_nat n :: u64) + 2 ^ 64 * wval (words_of (n div 2 ^ 64))"
      by (simp only: words_of_pos [OF False] wval.simps)
    also have "\<dots> = n mod 2 ^ 64 + 2 ^ 64 * (n div 2 ^ 64)"
      unfolding "1.IH" [OF False] by (simp add: unat_of_nat)
    finally show ?thesis by (simp only: mod_mult_div_eq)
  qed simp
qed

lemma U256_power: "U256 (U256 a ^ k) = U256 (a ^ k)"
  by (simp add: U256_mod power_mod)

lemma exp_words_spec: "U256 r = r \<Longrightarrow> exp_words ws r b = U256 (r * b ^ wval ws)"
proof (induction ws arbitrary: r b)
  case (Cons w ws)
  define N :: nat where "N = 2 ^ 64"
  obtain r' b' where e: "exp_word 64 w r b = (r', b')" by fastforce
  have tb: "take_bit 64 w = w" by (simp add: take_bit_word_eq_self)
  have r1: "U256 r' = U256 (r * b ^ unat w)"
    using exp_word_spec(1) [where n = 64 and w = w and r = r and b = b] by (simp only: e fst_conv tb)
  have r': "U256 r' = r'"
    using exp_word_spec(3) [where n = 64 and w = w and r = r and b = b] Cons.prems
    by (simp only: e fst_conv)
  have b': "U256 b' = U256 (b ^ N)"
    using exp_word_spec(2) [where n = 64 and w = w and r = r and b = b]
    by (simp only: e snd_conv N_def)
  have "U256 (r' * b' ^ wval ws) = U256 (U256 r' * U256 (U256 b' ^ wval ws))"
    by (simp only: U256_mult U256_power)
  also have "\<dots> = U256 (r * b ^ unat w * (b ^ N) ^ wval ws)"
    unfolding r1 b' by (simp only: U256_mult U256_power)
  finally have "U256 (r' * b' ^ wval ws) = U256 (r * b ^ (unat w + N * wval ws))"
    by (simp only: power_add power_mult mult.assoc)
  then show ?case using Cons.IH [OF r', of b']
    by (simp only: exp_words.simps e Let_def split_conv wval.simps N_def)
qed simp

lemma Exp_eq:
  assumes "0 \<le> e"
  shows "Exp b e = (b ^ nat e) mod 2 ^ 256"
proof -
  have "U256 1 = 1" by (simp add: U256_mod)
  then have "Exp b e = U256 (1 * b ^ wval (words_of (nat \<bar>e\<bar>)))"
    unfolding Exp_def big_Bits_def by (rule exp_words_spec)
  with assms show ?thesis by (simp only: wval_words_of mult_1 U256_mod abs_of_nonneg)
qed

subsection \<open>Overflow checks\<close>

lemma unat_MaxUint64: "unat MaxUint64 = 2 ^ 64 - 1"
  by (simp add: MaxUint64_def unsigned_minus_1_eq_mask mask_eq_exp_minus_1)

lemma SafeAdd_spec:
  "snd (SafeAdd x y) \<longleftrightarrow> 2 ^ 64 \<le> unat x + unat y"
  "\<not> snd (SafeAdd x y) \<Longrightarrow> unat (fst (SafeAdd x y)) = unat x + unat y"
proof -
  have m: "unat (MaxUint64 - x) = 2 ^ 64 - 1 - unat x"
    using unat_u64_lt [of x] by (simp add: unat_sub_if' unat_MaxUint64)
  show s: "snd (SafeAdd x y) \<longleftrightarrow> 2 ^ 64 \<le> unat x + unat y"
    using unat_u64_lt [of x] unat_u64_lt [of y]
    by (simp add: SafeAdd_def word_less_nat_alt m) linarith
  show "\<not> snd (SafeAdd x y) \<Longrightarrow> unat (fst (SafeAdd x y)) = unat x + unat y"
    unfolding s by (simp add: SafeAdd_def unat_add_no_wrap)
qed

lemma SafeMul_spec:
  "snd (SafeMul x y) \<longleftrightarrow> 2 ^ 64 \<le> unat x * unat y"
  "\<not> snd (SafeMul x y) \<Longrightarrow> unat (fst (SafeMul x y)) = unat x * unat y"
proof -
  show s: "snd (SafeMul x y) \<longleftrightarrow> 2 ^ 64 \<le> unat x * unat y"
  proof (cases "x = 0 \<or> y = 0")
    case True
    then show ?thesis by (auto simp: SafeMul_def)
  next
    case False
    then have x: "unat x > 0" by (simp add: unat_gt_0)
    have "snd (SafeMul x y) \<longleftrightarrow> (2 ^ 64 - 1) div unat x < unat y"
      using False by (simp add: SafeMul_def word_less_nat_alt unat_div unat_MaxUint64)
    also have "\<dots> \<longleftrightarrow> 2 ^ 64 - 1 < unat y * unat x"
      using x by (simp only: div_less_iff_less_mult)
    also have "\<dots> \<longleftrightarrow> 2 ^ 64 \<le> unat x * unat y" by (simp add: mult.commute) linarith
    finally show ?thesis .
  qed
  show "\<not> snd (SafeMul x y) \<Longrightarrow> unat (fst (SafeMul x y)) = unat x * unat y"
    unfolding s by (auto simp add: SafeMul_def unat_mult_no_wrap)
qed

lemma PaddedBigBytes_eq:
  assumes "BitLen x div 8 < n"
  shows "PaddedBigBytes x n = be_bytes n \<bar>x\<bar>"
  using assms by (simp add: PaddedBigBytes_def ReadBits_eq)

lemma RightPadBytes_Some: "l \<le> 2 ^ 48 \<Longrightarrow> RightPadBytes xs l = Some (xs @ replicate (nat l - length xs) 0)"
  by (auto simp: RightPadBytes_def make_bytes_Some copy_into_def Let_def min_def)

lemma LeftPadBytes_Some: "l \<le> 2 ^ 48 \<Longrightarrow> LeftPadBytes xs l = Some (replicate (nat l - length xs) 0 @ xs)"
  by (auto simp: LeftPadBytes_def make_bytes_Some copy_into_def Let_def min_def)

lemma RightPadBytes_None: "int (length xs) < l \<Longrightarrow> 2 ^ 48 < l \<Longrightarrow> RightPadBytes xs l = None"
  by (simp add: RightPadBytes_def make_bytes_def maxAlloc_def)

subsection \<open>Properties\<close>

text \<open>C18. \<open>Exp\<close>, the square-and-multiply loop over the words of the exponent, computes the power
  modulo \<open>2 ^ 256\<close>.\<close>

theorem Exp_correct: "0 \<le> e \<Longrightarrow> Exp b e = (b ^ nat e) mod 2 ^ 256"
  by (rule Exp_eq)

theorem Exp_correct_witness: "Exp 7 5 = 16807"
  using Exp_correct [of 5 7] by simp

text \<open>C21. \<open>SafeAdd\<close> and \<open>SafeMul\<close> flag exactly the additions and multiplications that do not fit
  64 bits, and return the exact result otherwise.\<close>

theorem Safe_exact:
  "snd (SafeAdd x y) = (2 ^ 64 \<le> unat x + unat y)
   \<and> snd (SafeMul x y) = (2 ^ 64 \<le> unat x * unat y)
   \<and> (if snd (SafeAdd x y) then True else unat (fst (SafeAdd x y)) = unat x + unat y)
   \<and> (if snd (SafeMul x y) then True else unat (fst (SafeMul x y)) = unat x * unat y)"
  using SafeAdd_spec [of x y] SafeMul_spec [of x y] by simp

text \<open>C19. \<open>PaddedBigBytes\<close> of a number that fits \<open>n\<close> bytes is its \<open>n\<close>-byte big-endian encoding:
  reading it back with \<open>SetBytes\<close> gives the number, and it has exactly \<open>n\<close> bytes. This covers both
  its branches, the one through \<open>big.Int.Bytes\<close> and the one through \<open>ReadBits\<close>.\<close>

theorem PaddedBigBytes_roundtrip:
  assumes "0 \<le> x" "x < 256 ^ n"
  shows "length (PaddedBigBytes x n) = n \<and> SetBytes (PaddedBigBytes x n) = x"
proof (cases "BitLen x div 8 < n")
  case True
  then show ?thesis using assms by (simp add: PaddedBigBytes_eq SetBytes_be_bytes)
next
  case False
  then have "BitLen x div 8 \<ge> n" by simp
  moreover have "BitLen x \<le> 8 * n"
    using assms by (simp add: BitLen_le_iff power_mult)
  ultimately have l: "BitLen x = 8 * n" by linarith
  then have "big_Bytes x = PaddedBigBytes x n" by (simp add: PaddedBigBytes_def)
  moreover have "length (big_Bytes x) = n" "SetBytes (big_Bytes x) = x"
    using assms l by (simp_all add: big_Bytes_def SetBytes_be_bytes)
  ultimately show ?thesis by simp
qed

theorem PaddedBigBytes_roundtrip_witness:
  "length (PaddedBigBytes 258 4) = 4 \<and> SetBytes (PaddedBigBytes 258 4) = 258"
  using PaddedBigBytes_roundtrip [of 258 4] by simp

end
