(* ===== verification/Params.thy ===== *)
theory Params
  imports BigMath
begin

text \<open>
  \<open>src/params\<close>: the protocol constants, the gas tables of the four fork generations, and the chain
  configuration with its fork predicates and its compatibility check. Block numbers are Go
  \<open>*big.Int\<close> and may be \<open>nil\<close>, hence \<open>int option\<close>.
\<close>

named_theorems params \<open>the protocol constants\<close>

subsection \<open>protocol_params.go\<close>

definition GasLimitBoundDivisor :: u64 where [params]: "GasLimitBoundDivisor = 1024"
definition MinGasLimit :: u64 where [params]: "MinGasLimit = 5000"
definition CallValueTransferGas :: u64 where [params]: "CallValueTransferGas = 9000"
definition CallNewAccountGas :: u64 where [params]: "CallNewAccountGas = 25000"
definition TxGas :: u64 where [params]: "TxGas = 21000"
definition TxGasContractCreation :: u64 where [params]: "TxGasContractCreation = 53000"
definition TxDataZeroGas :: u64 where [params]: "TxDataZeroGas = 4"
definition QuadCoeffDiv :: u64 where [params]: "QuadCoeffDiv = 512"
definition LogDataGas :: u64 where [params]: "LogDataGas = 8"
definition CallStipend :: u64 where [params]: "CallStipend = 2300"
definition Sha3Gas :: u64 where [params]: "Sha3Gas = 30"
definition Sha3WordGas :: u64 where [params]: "Sha3WordGas = 6"
definition SstoreSetGas :: u64 where [params]: "SstoreSetGas = 20000"
definition SstoreResetGas :: u64 where [params]: "SstoreResetGas = 5000"
definition SstoreClearGas :: u64 where [params]: "SstoreClearGas = 5000"
definition SstoreRefundGas :: u64 where [params]: "SstoreRefundGas = 15000"
definition NetSstoreNoopGas :: u64 where [params]: "NetSstoreNoopGas = 200"
definition NetSstoreInitGas :: u64 where [params]: "NetSstoreInitGas = 20000"
definition NetSstoreCleanGas :: u64 where [params]: "NetSstoreCleanGas = 5000"
definition NetSstoreDirtyGas :: u64 where [params]: "NetSstoreDirtyGas = 200"
definition NetSstoreClearRefund :: u64 where [params]: "NetSstoreClearRefund = 15000"
definition NetSstoreResetRefund :: u64 where [params]: "NetSstoreResetRefund = 4800"
definition NetSstoreResetClearRefund :: u64 where [params]: "NetSstoreResetClearRefund = 19800"
definition JumpdestGas :: u64 where [params]: "JumpdestGas = 1"
definition CreateDataGas :: u64 where [params]: "CreateDataGas = 200"
definition CallCreateDepth :: nat where [params]: "CallCreateDepth = 1024"
definition LogGas :: u64 where [params]: "LogGas = 375"
definition CopyGas :: u64 where [params]: "CopyGas = 3"
definition StackLimit :: nat where [params]: "StackLimit = 1024"
definition LogTopicGas :: u64 where [params]: "LogTopicGas = 375"
definition CreateGas :: u64 where [params]: "CreateGas = 32000"
definition Create2Gas :: u64 where [params]: "Create2Gas = 32000"
definition SuicideRefundGas :: u64 where [params]: "SuicideRefundGas = 24000"
definition MemoryGas :: u64 where [params]: "MemoryGas = 3"
definition TxDataNonZeroGas :: u64 where [params]: "TxDataNonZeroGas = 68"
definition MaxCodeSize :: nat where [params]: "MaxCodeSize = 24576"
definition EcrecoverGas :: u64 where [params]: "EcrecoverGas = 3000"
definition Sha256BaseGas :: u64 where [params]: "Sha256BaseGas = 60"
definition Sha256PerWordGas :: u64 where [params]: "Sha256PerWordGas = 12"
definition Ripemd160BaseGas :: u64 where [params]: "Ripemd160BaseGas = 600"
definition Ripemd160PerWordGas :: u64 where [params]: "Ripemd160PerWordGas = 120"
definition IdentityBaseGas :: u64 where [params]: "IdentityBaseGas = 15"
definition IdentityPerWordGas :: u64 where [params]: "IdentityPerWordGas = 3"
definition ModExpQuadCoeffDiv :: u64 where [params]: "ModExpQuadCoeffDiv = 20"
definition Bn256AddGas :: u64 where [params]: "Bn256AddGas = 500"
definition Bn256ScalarMulGas :: u64 where [params]: "Bn256ScalarMulGas = 40000"
definition Bn256PairingBaseGas :: u64 where [params]: "Bn256PairingBaseGas = 100000"
definition Bn256PairingPerPointGas :: u64 where [params]: "Bn256PairingPerPointGas = 80000"

subsection \<open>gas_table.go\<close>

record GasTable =
  ExtcodeSize :: u64
  ExtcodeCopy :: u64
  ExtcodeHash :: u64
  gt_Balance :: u64
  SLoad :: u64
  Calls :: u64
  gt_Suicide :: u64
  ExpByte :: u64
  CreateBySuicide :: u64

definition GasTableHomestead :: GasTable where
  "GasTableHomestead = \<lparr>ExtcodeSize = 20, ExtcodeCopy = 20, ExtcodeHash = 0, gt_Balance = 20,
     SLoad = 50, Calls = 40, gt_Suicide = 0, ExpByte = 10, CreateBySuicide = 0\<rparr>"

definition GasTableEIP150 :: GasTable where
  "GasTableEIP150 = \<lparr>ExtcodeSize = 700, ExtcodeCopy = 700, ExtcodeHash = 0, gt_Balance = 400,
     SLoad = 200, Calls = 700, gt_Suicide = 5000, ExpByte = 10, CreateBySuicide = 25000\<rparr>"

definition GasTableEIP158 :: GasTable where
  "GasTableEIP158 = \<lparr>ExtcodeSize = 700, ExtcodeCopy = 700, ExtcodeHash = 0, gt_Balance = 400,
     SLoad = 200, Calls = 700, gt_Suicide = 5000, ExpByte = 50, CreateBySuicide = 25000\<rparr>"

definition GasTableConstantinople :: GasTable where
  "GasTableConstantinople = \<lparr>ExtcodeSize = 700, ExtcodeCopy = 700, ExtcodeHash = 400,
     gt_Balance = 400, SLoad = 200, Calls = 700, gt_Suicide = 5000, ExpByte = 50,
     CreateBySuicide = 25000\<rparr>"

subsection \<open>config.go\<close>

record ChainConfig =
  ChainID :: "int option"
  HomesteadBlock :: "int option"
  DAOForkBlock :: "int option"
  DAOForkSupport :: bool
  EIP150Block :: "int option"
  EIP155Block :: "int option"
  EIP158Block :: "int option"
  ByzantiumBlock :: "int option"
  ConstantinopleBlock :: "int option"
  EWASMBlock :: "int option"

definition isForked :: "int option \<Rightarrow> int option \<Rightarrow> bool" where
  "isForked s head = (case s of None \<Rightarrow> False
     | Some b \<Rightarrow> (case head of None \<Rightarrow> False | Some h \<Rightarrow> b \<le> h))"

definition IsHomestead :: "ChainConfig \<Rightarrow> int option \<Rightarrow> bool" where
  "IsHomestead c num = isForked (HomesteadBlock c) num"

definition IsDAOFork :: "ChainConfig \<Rightarrow> int option \<Rightarrow> bool" where
  "IsDAOFork c num = isForked (DAOForkBlock c) num"

definition IsEIP150 :: "ChainConfig \<Rightarrow> int option \<Rightarrow> bool" where
  "IsEIP150 c num = isForked (EIP150Block c) num"

definition IsEIP155 :: "ChainConfig \<Rightarrow> int option \<Rightarrow> bool" where
  "IsEIP155 c num = isForked (EIP155Block c) num"

definition IsEIP158 :: "ChainConfig \<Rightarrow> int option \<Rightarrow> bool" where
  "IsEIP158 c num = isForked (EIP158Block c) num"

definition IsByzantium :: "ChainConfig \<Rightarrow> int option \<Rightarrow> bool" where
  "IsByzantium c num = isForked (ByzantiumBlock c) num"

definition IsConstantinople :: "ChainConfig \<Rightarrow> int option \<Rightarrow> bool" where
  "IsConstantinople c num = isForked (ConstantinopleBlock c) num"

definition IsEWASM :: "ChainConfig \<Rightarrow> int option \<Rightarrow> bool" where
  "IsEWASM c num = isForked (EWASMBlock c) num"

definition config_GasTable :: "ChainConfig \<Rightarrow> int option \<Rightarrow> GasTable" where
  "config_GasTable c num =
     (if num = None then GasTableHomestead
      else if IsConstantinople c num then GasTableConstantinople
      else if IsEIP158 c num then GasTableEIP158
      else if IsEIP150 c num then GasTableEIP150
      else GasTableHomestead)"

definition configNumEqual :: "int option \<Rightarrow> int option \<Rightarrow> bool" where
  "configNumEqual x y = (case x of None \<Rightarrow> y = None
     | Some a \<Rightarrow> (case y of None \<Rightarrow> False | Some b \<Rightarrow> a = b))"

definition isForkIncompatible :: "int option \<Rightarrow> int option \<Rightarrow> int option \<Rightarrow> bool" where
  "isForkIncompatible s1 s2 head =
     ((isForked s1 head \<or> isForked s2 head) \<and> \<not> configNumEqual s1 s2)"

record ConfigCompatError =
  What :: string
  StoredConfig :: "int option"
  NewConfig :: "int option"
  RewindTo :: u64

definition newCompatError :: "string \<Rightarrow> int option \<Rightarrow> int option \<Rightarrow> ConfigCompatError" where
  "newCompatError what storedblock newblock =
     (let rew = (case storedblock of None \<Rightarrow> newblock
        | Some s \<Rightarrow> (case newblock of None \<Rightarrow> storedblock
            | Some n \<Rightarrow> if s < n then storedblock else newblock));
          to = (case rew of None \<Rightarrow> 0 | Some r \<Rightarrow> if r > 0 then Uint64 r - 1 else 0)
      in \<lparr>What = what, StoredConfig = storedblock, NewConfig = newblock, RewindTo = to\<rparr>)"

definition checkCompatible ::
  "ChainConfig \<Rightarrow> ChainConfig \<Rightarrow> int option \<Rightarrow> ConfigCompatError option" where
  "checkCompatible c newcfg head =
     (if isForkIncompatible (HomesteadBlock c) (HomesteadBlock newcfg) head
      then Some (newCompatError ''Homestead fork block'' (HomesteadBlock c) (HomesteadBlock newcfg))
      else if isForkIncompatible (DAOForkBlock c) (DAOForkBlock newcfg) head
      then Some (newCompatError ''DAO fork block'' (DAOForkBlock c) (DAOForkBlock newcfg))
      else if IsDAOFork c head \<and> DAOForkSupport c \<noteq> DAOForkSupport newcfg
      then Some (newCompatError ''DAO fork support flag'' (DAOForkBlock c) (DAOForkBlock newcfg))
      else if isForkIncompatible (EIP150Block c) (EIP150Block newcfg) head
      then Some (newCompatError ''EIP150 fork block'' (EIP150Block c) (EIP150Block newcfg))
      else if isForkIncompatible (EIP155Block c) (EIP155Block newcfg) head
      then Some (newCompatError ''EIP155 fork block'' (EIP155Block c) (EIP155Block newcfg))
      else if isForkIncompatible (EIP158Block c) (EIP158Block newcfg) head
      then Some (newCompatError ''EIP158 fork block'' (EIP158Block c) (EIP158Block newcfg))
      else if IsEIP158 c head \<and> \<not> configNumEqual (ChainID c) (ChainID newcfg)
      then Some (newCompatError ''EIP158 chain ID'' (EIP158Block c) (EIP158Block newcfg))
      else if isForkIncompatible (ByzantiumBlock c) (ByzantiumBlock newcfg) head
      then Some (newCompatError ''Byzantium fork block'' (ByzantiumBlock c) (ByzantiumBlock newcfg))
      else if isForkIncompatible (ConstantinopleBlock c) (ConstantinopleBlock newcfg) head
      then Some (newCompatError ''Constantinople fork block'' (ConstantinopleBlock c) (ConstantinopleBlock newcfg))
      else if isForkIncompatible (EWASMBlock c) (EWASMBlock newcfg) head
      then Some (newCompatError ''ewasm fork block'' (EWASMBlock c) (EWASMBlock newcfg))
      else None)"

lemma newCompatError_RewindTo:
  assumes "err = newCompatError w s1 s2" "isForked s1 (Some h) \<or> isForked s2 (Some h)"
  shows "RewindTo err = 0 \<or> uint (RewindTo err) < h"
proof -
  have low: "uint (Uint64 r - 1) < h" if r: "0 < r" "r \<le> h" for r
  proof -
    have "uint (Uint64 r - 1) = (r - 1) mod 2 ^ 64"
      using r(1) by (simp add: uint_word_ariths Uint64_uint mod_diff_left_eq)
    also have "\<dots> \<le> r - 1" using r(1) by (intro zmod_le_nonneg_dividend) simp
    finally show ?thesis using r(2) by linarith
  qed
  show ?thesis using assms low
    by (auto simp: newCompatError_def isForked_def Let_def split: option.splits)
qed

lemma if_SomeE:
  assumes "(if c then Some a else q) = Some e"
  obtains "c" "e = a" | "\<not> c" "q = Some e"
  using assms by (auto split: if_splits)

lemma checkCompatible_RewindTo:
  assumes "checkCompatible c n (Some h) = Some err"
  shows "RewindTo err = 0 \<or> uint (RewindTo err) < h"
  using assms unfolding checkCompatible_def isForkIncompatible_def IsDAOFork_def IsEIP158_def
  by (elim if_SomeE)
     ((erule newCompatError_RewindTo, elim conjE, (assumption | (rule disjI1, assumption)))+, simp)

text \<open>
  The loop of \<open>CheckCompatible\<close> rewinds the head until the configurations agree or the rewind
  target repeats. It ends because the head gets smaller, and at head 0 the target repeats.
\<close>

function check_loop ::
  "ChainConfig \<Rightarrow> ChainConfig \<Rightarrow> int \<Rightarrow> ConfigCompatError option \<Rightarrow> ConfigCompatError option" where
  "check_loop c newcfg bhead lasterr =
     (case checkCompatible c newcfg (Some bhead) of
        None \<Rightarrow> lasterr
      | Some err \<Rightarrow>
          (if map_option RewindTo lasterr = Some (RewindTo err) then lasterr
           else check_loop c newcfg (uint (RewindTo err)) (Some err)))"
  by pat_completeness auto
termination
proof (relation "measure (\<lambda>(c, n, b, l). 2 * nat b + (if map_option (uint \<circ> RewindTo) l = Some b then 0 else 1))")
  fix c n :: ChainConfig and b :: int and l :: "ConfigCompatError option" and err
  assume e: "checkCompatible c n (Some b) = Some err" "map_option RewindTo l \<noteq> Some (RewindTo err)"
  define x where "x = uint (RewindTo err)"
  have x: "x = 0 \<or> x < b" using checkCompatible_RewindTo [OF e(1)] by (auto simp: x_def)
  have x0: "0 \<le> x" by (simp add: x_def)
  have ne: "x \<noteq> b \<and> 0 \<le> b" if "map_option (uint \<circ> RewindTo) l = Some b"
    using that e(2) by (auto simp: x_def word_uint_eq_iff)
  have "2 * nat x < 2 * nat b + (if map_option (uint \<circ> RewindTo) l = Some b then 0 else 1)"
  proof (cases "map_option (uint \<circ> RewindTo) l = Some b")
    case True
    from ne [OF True] x x0 have "nat x < nat b" by linarith
    with True show ?thesis by (simp only: if_True)
  next
    case False
    from x x0 have "nat x \<le> nat b" by linarith
    then show ?thesis by (simp only: False if_False)
  qed
  then show "((c, n, uint (RewindTo err), Some err), c, n, b, l)
    \<in> measure (\<lambda>(c, n, b, l). 2 * nat b + (if map_option (uint \<circ> RewindTo) l = Some b then 0 else 1))"
    by (simp add: x_def)
qed simp

declare check_loop.simps [simp del]

definition CheckCompatible ::
  "ChainConfig \<Rightarrow> ChainConfig \<Rightarrow> u64 \<Rightarrow> ConfigCompatError option" where
  "CheckCompatible c newcfg height = check_loop c newcfg (uint height) None"

record Rules =
  r_ChainID :: int
  r_IsHomestead :: bool
  r_IsEIP150 :: bool
  r_IsEIP155 :: bool
  r_IsEIP158 :: bool
  r_IsByzantium :: bool
  r_IsConstantinople :: bool

definition config_Rules :: "ChainConfig \<Rightarrow> int option \<Rightarrow> Rules" where
  "config_Rules c num =
     \<lparr>r_ChainID = (case ChainID c of None \<Rightarrow> 0 | Some i \<Rightarrow> i),
      r_IsHomestead = IsHomestead c num, r_IsEIP150 = IsEIP150 c num,
      r_IsEIP155 = IsEIP155 c num, r_IsEIP158 = IsEIP158 c num,
      r_IsByzantium = IsByzantium c num, r_IsConstantinople = IsConstantinople c num\<rparr>"

subsection \<open>Rewinding makes configurations compatible\<close>

lemma check_loop_steps:
  "checkCompatible c n (Some b) = None \<Longrightarrow> check_loop c n b l = l"
  "checkCompatible c n (Some b) = Some err \<Longrightarrow> map_option RewindTo l = Some (RewindTo err) \<Longrightarrow>
     check_loop c n b l = l"
  "checkCompatible c n (Some b) = Some err \<Longrightarrow> map_option RewindTo l \<noteq> Some (RewindTo err) \<Longrightarrow>
     check_loop c n b l = check_loop c n (uint (RewindTo err)) (Some err)"
  by (simp_all only: check_loop.simps [of c n b l] option.case if_True if_False refl)

lemma check_loop_not_None: "l \<noteq> None \<Longrightarrow> check_loop c n b l \<noteq> None"
proof (induction c n b l rule: check_loop.induct)
  case (1 c n b l)
  show ?case
  proof (cases "checkCompatible c n (Some b)")
    case None
    from check_loop_steps(1) [OF None] "1.prems" show ?thesis by (simp only: not_False_eq_True)
  next
    case (Some err)
    show ?thesis
    proof (cases "map_option RewindTo l = Some (RewindTo err)")
      case True
      from check_loop_steps(2) [OF Some True] "1.prems" show ?thesis by (simp only: not_False_eq_True)
    next
      case False
      from check_loop_steps(3) [OF Some False] "1.IH" [OF Some False] show ?thesis
        by (simp only: option.distinct not_False_eq_True)
    qed
  qed
qed

lemma check_loop_None: "check_loop c n b None = None \<longleftrightarrow> checkCompatible c n (Some b) = None"
proof (cases "checkCompatible c n (Some b)")
  case None
  then show ?thesis by (simp only: check_loop_steps(1))
next
  case (Some err)
  then have "check_loop c n b None = check_loop c n (uint (RewindTo err)) (Some err)"
    by (intro check_loop_steps(3)) simp_all
  with Some check_loop_not_None [of "Some err"] show ?thesis by simp
qed

lemma check_loop_Some:
  assumes "check_loop c n b l = Some e" "\<forall>x. l = Some x \<longrightarrow> uint (RewindTo x) = b"
  shows "RewindTo e = 0 \<or> checkCompatible c n (Some (uint (RewindTo e))) = None"
  using assms
proof (induction c n b l rule: check_loop.induct)
  case (1 c n b l)
  show ?case
  proof (cases "checkCompatible c n (Some b)")
    case None
    from "1.prems"(1) have "l = Some e" by (simp only: check_loop_steps(1) [OF None])
    then have "uint (RewindTo e) = b" using "1.prems"(2) by blast
    with None show ?thesis by (simp only: simp_thms)
  next
    case (Some err)
    show ?thesis
    proof (cases "map_option RewindTo l = Some (RewindTo err)")
      case True
      from "1.prems"(1) have "l = Some e" by (simp only: check_loop_steps(2) [OF Some True])
      then have "RewindTo e = RewindTo err" "uint (RewindTo e) = b" using True "1.prems"(2) by simp_all
      with checkCompatible_RewindTo [OF Some] show ?thesis by (metis less_irrefl)
    next
      case False
      from "1.prems"(1) have "check_loop c n (uint (RewindTo err)) (Some err) = Some e"
        by (simp only: check_loop_steps(3) [OF Some False])
      from "1.IH" [OF Some False this] show ?thesis by simp
    qed
  qed
qed

lemma check_loop_less:
  assumes "check_loop c n b l = Some e"
  shows "l = Some e \<or> RewindTo e = 0 \<or> uint (RewindTo e) < b"
  using assms
proof (induction c n b l rule: check_loop.induct)
  case (1 c n b l)
  show ?case
  proof (cases "checkCompatible c n (Some b)")
    case None
    from "1.prems" show ?thesis by (simp only: check_loop_steps(1) [OF None] simp_thms)
  next
    case (Some err)
    note low = checkCompatible_RewindTo [OF Some]
    show ?thesis
    proof (cases "map_option RewindTo l = Some (RewindTo err)")
      case True
      from "1.prems" show ?thesis by (simp only: check_loop_steps(2) [OF Some True] simp_thms)
    next
      case False
      with "1.prems" have "check_loop c n (uint (RewindTo err)) (Some err) = Some e"
        by (simp only: check_loop_steps(3) [OF Some False])
      from "1.IH" [OF Some False this]
      consider "err = e" | "RewindTo e = 0" | "uint (RewindTo e) < uint (RewindTo err)" by auto
      then show ?thesis
      proof cases
        case 3
        then have "RewindTo err \<noteq> 0" by (auto simp: not_less)
        with low 3 show ?thesis by linarith
      qed (use low in auto)
    qed
  qed
qed

subsection \<open>Properties\<close>

text \<open>C13. \<open>CheckCompatible\<close> always returns. It reports nothing exactly when the configurations are
  compatible at the given height, and otherwise the rewind target it reports is below that height
  (or the genesis block) and a height at which the two configurations are compatible (or the
  genesis block).\<close>

theorem CheckCompatible_rewind:
  "case CheckCompatible c n h of
     None \<Rightarrow> checkCompatible c n (Some (uint h)) = None
   | Some e \<Rightarrow> checkCompatible c n (Some (uint h)) \<noteq> None
       \<and> (RewindTo e = 0 \<or> RewindTo e < h)
       \<and> (RewindTo e = 0 \<or> checkCompatible c n (Some (uint (RewindTo e))) = None)"
proof (cases "CheckCompatible c n h")
  case None
  then have "checkCompatible c n (Some (uint h)) = None"
    unfolding CheckCompatible_def check_loop_None .
  then show ?thesis by (simp only: None option.case)
next
  case (Some e)
  then have l: "check_loop c n (uint h) None = Some e" by (simp add: CheckCompatible_def)
  have "checkCompatible c n (Some (uint h)) \<noteq> None"
    unfolding check_loop_None [symmetric] l by simp
  moreover have "RewindTo e = 0 \<or> RewindTo e < h"
    using check_loop_less [OF l] by (simp add: word_less_def)
  moreover have "RewindTo e = 0 \<or> checkCompatible c n (Some (uint (RewindTo e))) = None"
    using check_loop_Some [OF l] by simp
  ultimately show ?thesis by (simp only: Some option.case simp_thms)
qed

end
