(* ===== verification/Rlp.thy ===== *)
theory Rlp
  imports BigMath
begin

unbundle bit_operations_syntax

text \<open>
  \<open>src/lib/rlp\<close>: the byte-string side of the encoder (\<open>encode.go\<close>: \<open>intsize\<close>, \<open>putint\<close>,
  \<open>headsize\<close>, \<open>encodeStringHeader\<close>, \<open>encodeString\<close>) and the whole of \<open>raw.go\<close>, the zero-copy
  splitter that the state database uses to read storage slots. The lemmas show that the splitter
  never slices out of range, whatever the input, and that it inverts the encoder.
\<close>

datatype rlp_error = ErrUnexpectedEOF | ErrCanonSize | ErrValueTooLarge
  | ErrExpectedString | ErrExpectedList

datatype Kind = KByte | KString | KList

subsection \<open>encode.go\<close>

function intsize_loop :: "u64 \<Rightarrow> nat \<Rightarrow> nat" where
  "intsize_loop i n =
     (let i' = drop_bit 8 i in if i' = 0 then n else intsize_loop i' (n + 1))"
  by pat_completeness auto
termination
proof (relation "measure (unat \<circ> fst)")
  fix i :: u64 and n :: nat and x
  assume x: "x = drop_bit 8 i" "x \<noteq> 0"
  then have "i \<noteq> 0" by auto
  then have "unat i div 256 < unat i" by (simp add: unat_gt_0)
  then show "((x, n + 1), i, n) \<in> measure (unat \<circ> fst)"
    unfolding x by (simp add: drop_bit_eq_div unat_div)
qed simp

definition intsize :: "u64 \<Rightarrow> nat" where
  "intsize i = intsize_loop i 1"

text \<open>\<open>putint\<close> writes the shifts \<open>byte(i >> 8k)\<close> for the \<open>k\<close> its switch selects.\<close>

definition putint :: "u64 \<Rightarrow> bytes" where
  "putint i =
     (let n = (if i < 2 ^ 8 then 1 else if i < 2 ^ 16 then 2 else if i < 2 ^ 24 then 3
               else if i < 2 ^ 32 then 4 else if i < 2 ^ 40 then 5 else if i < 2 ^ 48 then 6
               else if i < 2 ^ 56 then 7 else 8)
      in map (\<lambda>k. ucast (drop_bit (8 * k) i)) (rev [0..<n]))"

definition headsize :: "u64 \<Rightarrow> nat" where
  "headsize sz = (if sz < 56 then 1 else 1 + intsize sz)"

definition puthead :: "byte \<Rightarrow> byte \<Rightarrow> u64 \<Rightarrow> bytes" where
  "puthead smalltag largetag sz =
     (if sz < 56 then [smalltag + ucast sz]
      else let s = putint sz in (largetag + of_nat (length s)) # s)"

definition encodeStringHeader :: "nat \<Rightarrow> bytes" where
  "encodeStringHeader sz =
     (if sz < 56 then [0x80 + of_nat sz]
      else let s = putint (of_nat sz) in (0xB7 + of_nat (length s)) # s)"

definition encodeString :: "bytes \<Rightarrow> bytes" where
  "encodeString b =
     (if length b = 1 \<and> b ! 0 \<le> 0x7F then b else encodeStringHeader (length b) @ b)"

subsection \<open>raw.go\<close>

text \<open>The eight cases of \<open>readSize\<close> are this fold, written out for each length.\<close>

definition be64 :: "bytes \<Rightarrow> u64" where
  "be64 bs = foldl (\<lambda>s b. push_bit 8 s OR ucast b) 0 bs"

definition readSize :: "bytes \<Rightarrow> byte \<Rightarrow> rlp_error + u64" where
  "readSize b slen =
     (if unat slen > length b then Inl ErrUnexpectedEOF
      else let s = (if slen \<le> 8 then be64 (take (unat slen) b) else 0)
           in if s < 56 \<or> b ! 0 = 0 then Inl ErrCanonSize else Inr s)"

definition readKind :: "bytes \<Rightarrow> rlp_error + (Kind \<times> u64 \<times> u64)" where
  "readKind buf =
     (if length buf = 0 then Inl ErrUnexpectedEOF
      else let b = buf ! 0;
               r = (if b < 0x80 then Inr (KByte, 0, 1)
                    else if b < 0xB8 then
                      (let cs = ucast (b - 0x80)
                       in if cs = 1 \<and> length buf > 1 \<and> buf ! 1 < 128 then Inl ErrCanonSize
                          else Inr (KString, 1, cs))
                    else if b < 0xC0 then
                      map_sum id (\<lambda>cs. (KString, ucast (b - 0xB7) + 1, cs)) (readSize (tl buf) (b - 0xB7))
                    else if b < 0xF8 then Inr (KList, 1, ucast (b - 0xC0))
                    else map_sum id (\<lambda>cs. (KList, ucast (b - 0xF7) + 1, cs)) (readSize (tl buf) (b - 0xF7)))
           in case r of Inl e \<Rightarrow> Inl e
              | Inr (k, tagsize, contentsize) \<Rightarrow>
                  if contentsize > of_nat (length buf) - tagsize then Inl ErrValueTooLarge
                  else Inr (k, tagsize, contentsize))"

definition Split :: "bytes \<Rightarrow> (rlp_error + (Kind \<times> bytes \<times> bytes)) option" where
  "Split b =
     (case readKind b of
        Inl e \<Rightarrow> Some (Inl e)
      | Inr (k, ts, cs) \<Rightarrow> do {
          content \<leftarrow> slice b (unat ts) (unat (ts + cs));
          rest \<leftarrow> slice b (unat (ts + cs)) (length b);
          Some (Inr (k, content, rest)) })"

definition SplitString :: "bytes \<Rightarrow> (rlp_error + (bytes \<times> bytes)) option" where
  "SplitString b = do {
     r \<leftarrow> Split b;
     Some (case r of Inl e \<Rightarrow> Inl e
       | Inr (k, content, rest) \<Rightarrow> if k = KList then Inl ErrExpectedString else Inr (content, rest)) }"

definition SplitList :: "bytes \<Rightarrow> (rlp_error + (bytes \<times> bytes)) option" where
  "SplitList b = do {
     r \<leftarrow> Split b;
     Some (case r of Inl e \<Rightarrow> Inl e
       | Inr (k, content, rest) \<Rightarrow> if k \<noteq> KList then Inl ErrExpectedList else Inr (content, rest)) }"

partial_function (option) CountValues_loop :: "bytes \<Rightarrow> nat \<Rightarrow> (rlp_error + nat) option" where
  "CountValues_loop b i =
     (if length b = 0 then Some (Inr i)
      else case readKind b of
             Inl e \<Rightarrow> Some (Inl e)
           | Inr (k, tagsize, sz) \<Rightarrow>
               do { b' \<leftarrow> slice b (unat (tagsize + sz)) (length b); CountValues_loop b' (i + 1) })"

definition CountValues :: "bytes \<Rightarrow> (rlp_error + nat) option" where
  "CountValues b = CountValues_loop b 0"

subsection \<open>Sizes\<close>

lemma be64_snoc: "be64 (bs @ [b]) = be64 bs * 256 + ucast b"
proof -
  have "push_bit 8 (be64 bs) AND (ucast b :: u64) = 0"
    using bit_imp_le_length [of b] by (fastforce intro!: bit_word_eqI simp: bit_simps)
  then have "push_bit 8 (be64 bs) OR ucast b = push_bit 8 (be64 bs) + (ucast b :: u64)"
    by (simp add: disjunctive_add_eq_or)
  then show ?thesis by (simp add: be64_def push_bit_eq_mult)
qed

lemma be64_eq: "be64 bs = word_of_int (SetBytes bs)"
proof (induction bs rule: rev_induct)
  case Nil
  show ?case by (simp add: be64_def)
next
  case (snoc b bs)
  then show ?case by (simp add: be64_snoc SetBytes_append1)
qed

lemma putint_be_bytes:
  obtains n where "putint i = be_bytes n (uint i)" "0 < n" "n \<le> 8" "uint i < 256 ^ n"
    "n = 1 \<or> 256 ^ (n - 1) \<le> uint i"
proof -
  have byte: "(ucast (drop_bit (8 * k) i) :: byte) = word_of_int (uint i div 256 ^ k)" for k
    by (rule bit_word_eqI) (simp add: bit_simps div_256_pow)
  define n :: nat where "n = (if i < 2 ^ 8 then 1 else if i < 2 ^ 16 then 2 else if i < 2 ^ 24 then 3
               else if i < 2 ^ 32 then 4 else if i < 2 ^ 40 then 5 else if i < 2 ^ 48 then 6
               else if i < 2 ^ 56 then 7 else 8)"
  have "putint i = be_bytes n (uint i)"
    unfolding putint_def n_def [symmetric] by (simp add: be_bytes_def byte Let_def)
  moreover have "0 < n" "n \<le> 8" by (simp_all add: n_def)
  moreover have "uint i < 256 ^ n"
    using uint_bounded [of i] by (simp add: n_def word_less_def)
  moreover have "n = 1 \<or> 256 ^ (n - 1) \<le> uint i"
    by (simp add: n_def word_less_def not_less)
  ultimately show ?thesis by (rule that)
qed


lemma intsize_loop_eq:
  "256 ^ m \<le> uint i \<Longrightarrow> uint i < 256 ^ Suc m \<Longrightarrow> intsize_loop i n = n + m"
proof (induction m arbitrary: i n)
  case 0
  then have "drop_bit 8 i = 0"
    by (simp add: drop_bit_eq_div word_uint_eq_iff uint_div)
  then show ?case by (subst intsize_loop.simps) simp
next
  case (Suc m)
  have u: "uint (drop_bit 8 i) = uint i div 256"
    by (simp add: drop_bit_eq_div uint_div)
  have "256 ^ m \<le> uint (drop_bit 8 i)" "uint (drop_bit 8 i) < 256 ^ Suc m"
    using Suc.prems unfolding u by auto
  from Suc.IH [OF this] have "intsize_loop (drop_bit 8 i) (n + 1) = n + Suc m" by simp
  moreover have "drop_bit 8 i \<noteq> 0"
    using \<open>256 ^ m \<le> uint (drop_bit 8 i)\<close> by (metis not_one_le_zero one_le_power one_le_numeral order_trans uint_0_eq zero_neq_one)
  ultimately show ?case by (subst intsize_loop.simps) simp
qed

text \<open>The size that the encoder reserves is the size that it writes.\<close>

lemma intsize_putint: "intsize i = length (putint i)"
proof -
  obtain n where n: "putint i = be_bytes n (uint i)" "0 < n" "uint i < 256 ^ n"
    "n = 1 \<or> 256 ^ (n - 1) \<le> uint i"
    by (rule putint_be_bytes)
  show ?thesis
  proof (cases "n = 1")
    case True
    then have "drop_bit 8 i = 0"
      using n by (simp add: drop_bit_eq_div word_uint_eq_iff uint_div)
    then show ?thesis using n True by (simp add: intsize_def)
  next
    case False
    then show ?thesis
      using n intsize_loop_eq [of "n - 1" i 1] by (simp add: intsize_def)
  qed
qed

lemma length_puthead: "length (puthead s l n) = headsize n"
  by (simp add: puthead_def headsize_def intsize_putint Let_def)

lemma readSize_putint:
  assumes "56 \<le> s"
  shows "readSize (putint s @ rest) (of_nat (length (putint s))) = Inr s"
proof -
  obtain n where n: "putint s = be_bytes n (uint s)" "0 < n" "n \<le> 8" "uint s < 256 ^ n"
    "n = 1 \<or> 256 ^ (n - 1) \<le> uint s"
    by (rule putint_be_bytes)
  have u: "unat (of_nat n :: byte) = n" using n by (simp add: unat_of_nat)
  have b: "be64 (be_bytes n (uint s)) = s"
    using n by (simp add: be64_eq SetBytes_be_bytes)
  have "be_bytes n (uint s) ! 0 = word_of_int (uint s div 256 ^ (n - 1))"
    using n by (simp add: be_bytes_def rev_nth)
  moreover have "uint s div 256 ^ (n - 1) < 256"
    using n by (intro zdiv_less) (simp_all add: power_eq_if)
  moreover have "0 < uint s div 256 ^ (n - 1)"
    using n assms by (auto simp: pos_imp_zdiv_pos_iff word_le_def)
  ultimately have "be_bytes n (uint s) ! 0 \<noteq> 0"
    by (simp add: word_uint_eq_iff uint_word_of_int)
  then show ?thesis
    using n assms u b by (simp add: readSize_def nth_append word_le_nat_alt not_less)
qed


subsection \<open>The splitter stays inside its input\<close>

lemma readSize_Inr:
  "readSize b l = Inr s \<Longrightarrow> unat l \<le> length b \<and> 56 \<le> s"
  by (auto simp: readSize_def Let_def split: if_splits)

lemma readSize_tag:
  assumes "map_sum id (\<lambda>cs. (K, ucast l + 1 :: u64, cs)) (readSize (tl b) l) = Inr (k, ts, cs)" "b \<noteq> []" "length b < 2 ^ 64"
  shows "0 < unat ts \<and> unat ts \<le> length b"
proof (cases "readSize (tl b) l")
  case (Inr s)
  then have "unat l < length b" "ts = ucast l + 1"
    using assms readSize_Inr [OF Inr] by (cases b; auto)+
  then show ?thesis
    using assms(3) by (simp add: unat_word_ariths unat_ucast_u64 Suc_le_eq)
qed (use assms in simp)

lemma readKind_bounds:
  assumes len: "length b < 2 ^ 64" and r: "readKind b = Inr (k, ts, cs)"
  shows "unat (ts + cs) = unat ts + unat cs" "unat ts + unat cs \<le> length b" "0 < unat ts + unat cs"
proof -
  have ne: "b \<noteq> []" using r by (auto simp: readKind_def)
  then have one: "ts = 1 \<Longrightarrow> unat ts \<le> length b" by (cases b) simp_all
  have cs: "cs \<le> of_nat (length b) - ts"
    using r ne
    by (simp add: readKind_def Let_def linorder_not_less del: word_less_1 split: if_splits sum.splits prod.splits)
  have ts: "ts = 0 \<and> cs = 1 \<or> 0 < unat ts \<and> unat ts \<le> length b"
    using r ne len one
    by (auto simp: readKind_def Let_def dest: readSize_tag split: if_splits sum.splits prod.splits)
  then have "unat cs \<le> length b - unat ts"
    using len cs by (auto simp: word_le_nat_alt unat_sub unat_of_nat_u64)
  then show "unat (ts + cs) = unat ts + unat cs" "unat ts + unat cs \<le> length b" "0 < unat ts + unat cs"
    using ts len by (auto simp: unat_add_no_wrap)
qed

lemma readKind_tag:
  assumes "readKind b = Inr (k, ts, cs)"
  shows "unat ts \<le> 9"
proof -
  have 1: "unat (ucast (x - 0xB7) + 1 :: u64) \<le> 9" if "\<not> x < 0xB8" "x < 0xC0" for x :: byte
  proof -
    have "unat (x - 0xB7) \<le> 8" using that by unat_arith
    then show ?thesis by (simp add: unat_word_ariths unat_ucast_u64)
  qed
  have 2: "unat (ucast (x - 0xF7) + 1 :: u64) \<le> 9" if "\<not> x < 0xF8" for x :: byte
  proof -
    have "unat (x - 0xF7) \<le> 8" using that unat_byte_lt [of x] by unat_arith
    then show ?thesis by (simp add: unat_word_ariths unat_ucast_u64)
  qed
  have m: "ts' = t" if "map_sum id (\<lambda>cs. (K, t, cs)) z = Inr (k', ts', cs')" for K t z k' ts' cs'
    using that by (cases z) auto
  show ?thesis using assms 1 2
    by (auto simp: readKind_def Let_def dest!: m split: if_splits sum.splits prod.splits)
qed

lemma Split_readKind:
  assumes "length b < 2 ^ 64"
  shows "Split b = Some (case readKind b of Inl e \<Rightarrow> Inl e
     | Inr (k, ts, cs) \<Rightarrow>
         Inr (k, take (unat cs) (drop (unat ts) b), drop (unat ts + unat cs) b))"
proof (cases "readKind b")
  case (Inr r)
  obtain k ts cs where r: "r = (k, ts, cs)" by (cases r)
  show ?thesis
    using readKind_bounds [OF assms Inr [unfolded r]] Inr r by (simp add: Split_def slice_Some)
qed (simp add: Split_def)

lemma CountValues_loop_total:
  "length b < 2 ^ 64 \<Longrightarrow> \<exists>r. CountValues_loop b i = Some r"
proof (induction "length b" arbitrary: b i rule: less_induct)
  case less
  show ?case
  proof (cases "b = []")
    case True
    then show ?thesis by (simp add: CountValues_loop.simps)
  next
    case False
    show ?thesis
    proof (cases "readKind b")
      case (Inl e)
      then show ?thesis by (simp add: CountValues_loop.simps)
    next
      case (Inr r)
      obtain k ts cs where r: "r = (k, ts, cs)" by (cases r)
      note bd = readKind_bounds [OF less.prems Inr [unfolded r]]
      then have "\<exists>r. CountValues_loop (drop (unat ts + unat cs) b) (i + 1) = Some r"
        using False less.prems by (intro less.hyps) (auto simp: less_le_trans)
      then show ?thesis
        using Inr r bd False by (simp add: CountValues_loop.simps [of b] slice_Some)
    qed
  qed
qed

subsection \<open>Round trips\<close>


lemma length_putint: "0 < length (putint s)" "length (putint s) \<le> 8"
  by (rule putint_be_bytes [of s]; simp)+

text \<open>
  The two headers the encoder writes, for strings (tags \<open>0x80\<close> and \<open>0xB7\<close>) and for lists (tags
  \<open>0xC0\<close> and \<open>0xF7\<close>), are read back as the size they were written for.
\<close>


lemma encodeStringHeader_puthead: "n < 2 ^ 64 \<Longrightarrow> encodeStringHeader n = puthead 0x80 0xB7 (of_nat n)"
  by (simp add: encodeStringHeader_def puthead_def word_less_nat_alt unat_of_nat_u64 Let_def word_unat_eq_iff
      unat_word_ariths unat_ucast_byte unat_ucast_u64 unat_of_nat)

lemma readKind_puthead:
  assumes tag: "(s, l, k) = (0x80, 0xB7, KString) \<or> (s, l, k) = (0xC0, 0xF7, KList)"
    and len: "length c + 9 + length rest < 2 ^ 64"
    and canon: "k = KString \<Longrightarrow> length c = 1 \<Longrightarrow> \<not> c ! 0 < 128"
  shows "readKind (puthead s l (of_nat (length c)) @ c @ rest)
       = Inr (k, of_nat (headsize (of_nat (length c))), of_nat (length c))"
proof -
  define n :: u64 where "n = of_nat (length c)"
  have n: "unat n = length c" using len by (simp add: n_def unat_of_nat_u64)
  have "unat (of_nat (length c) + of_nat (length rest) :: u64) = length c + length rest"
    using len by (simp add: unat_word_ariths unat_of_nat)
  then have fits: "\<not> of_nat (length c) + of_nat (length rest) < n"
    using n by (simp add: word_less_nat_alt)
  show ?thesis
  proof (cases "n < 56")
    case True
    define t :: byte where "t = s + ucast n"
    have t: "unat t = unat s + unat n" "t - s = ucast n"
      using True tag by (auto simp: t_def unat_word_ariths unat_ucast_byte unat_ucast_u64 word_less_nat_alt)
    have "ucast (ucast n :: byte) = n"
      using True by (simp add: word_unat_eq_iff unat_ucast_byte unat_ucast_u64 word_less_nat_alt)
    moreover have "puthead s l n = [t]" "headsize n = 1"
      using True by (simp_all add: puthead_def t_def headsize_def)
    moreover have "\<not> t < 0x80" "t < 0xB8 \<longleftrightarrow> k = KString" "\<not> (t < 0xC0 \<and> k = KList)" "t < 0xF8"
      using True t tag by (auto simp: word_less_nat_alt)
    moreover have "n = 1 \<longleftrightarrow> length c = 1" using n by (simp add: word_unat_eq_iff)
    ultimately show ?thesis
      using fits t tag canon by (auto simp: readKind_def n_def [symmetric] nth_append)
  next
    case False
    define h where "h = length (putint n)"
    define t :: byte where "t = l + of_nat h"
    have h: "0 < h" "h \<le> 8" using length_putint [of n] by (simp_all add: h_def)
    have t: "unat t = unat l + h" "t - l = of_nat h" "ucast (of_nat h :: byte) = (of_nat h :: u64)"
      using h tag by (auto simp: t_def unat_word_ariths unat_of_nat word_unat_eq_iff unat_ucast_byte unat_ucast_u64)
    have "puthead s l n = t # putint n" "headsize n = Suc h"
      using False by (simp_all add: puthead_def t_def headsize_def h_def Let_def intsize_putint)
    moreover have "\<not> t < 0x80" "\<not> t < 0xB8" "t < 0xC0 \<longleftrightarrow> k = KString" "t < 0xF8 \<longleftrightarrow> k = KString"
      using t h tag by (auto simp: word_less_nat_alt)
    moreover have "readSize (putint n @ c @ rest) (of_nat h) = Inr n"
      using False readSize_putint [of n] by (simp add: h_def not_less)
    ultimately show ?thesis
      using fits h t tag by (auto simp: readKind_def n_def [symmetric] h_def [symmetric] add.commute add.left_commute)
  qed
qed


text \<open>What the encoder writes, the splitter reads back, and it leaves what follows alone.\<close>

lemma Split_puthead:
  assumes "(s, l, k) = (0x80, 0xB7, KString) \<or> (s, l, k) = (0xC0, 0xF7, KList)"
    and len: "length c + 9 + length rest < 2 ^ 64"
    and "k = KString \<Longrightarrow> length c = 1 \<Longrightarrow> \<not> c ! 0 < 128"
  shows "Split (puthead s l (of_nat (length c)) @ c @ rest) = Some (Inr (k, c, rest))"
proof -
  define n :: u64 where "n = of_nat (length c)"
  define h where "h = puthead s l n"
  have "length h \<le> 9"
    using length_putint [of n] by (simp add: h_def length_puthead headsize_def intsize_putint)
  moreover have "readKind (h @ c @ rest) = Inr (k, of_nat (length h), of_nat (length c))"
    unfolding h_def n_def length_puthead by (rule readKind_puthead [OF assms])
  ultimately have "Split (h @ c @ rest) = Some (Inr (k, c, rest))"
    using len by (simp add: Split_readKind unat_of_nat_u64)
  then show ?thesis by (simp add: h_def n_def)
qed

lemma Split_encodeString:
  assumes "length b + 9 + length rest < 2 ^ 64"
  shows "Split (encodeString b @ rest) =
    Some (Inr (if length b = 1 \<and> b ! 0 \<le> 0x7F then KByte else KString, b, rest))"
proof (cases "length b = 1 \<and> b ! 0 \<le> 0x7F")
  case True
  then obtain x where b: "b = [x]" "x \<le> 0x7F" by (auto simp: length_Suc_conv)
  then have "x < 0x80" by (simp add: word_less_nat_alt word_le_nat_alt)
  moreover have "unat (1 + of_nat (length rest) :: u64) = 1 + length rest"
    using assms by (simp add: unat_word_ariths unat_of_nat)
  then have "\<not> 1 + of_nat (length rest) < (1 :: u64)" by (simp add: word_less_nat_alt)
  ultimately have "readKind (x # rest) = Inr (KByte, 0, 1)" by (simp add: readKind_def)
  then show ?thesis using assms b by (simp add: encodeString_def Split_readKind)
next
  case False
  have "\<not> b ! 0 < 128" if "length b = 1"
    using that False by (simp add: word_less_nat_alt word_le_nat_alt)
  then show ?thesis
    using assms False Split_puthead [where s = "0x80" and l = "0xB7" and k = KString and c = b and rest = rest]
    by (auto simp: encodeString_def encodeStringHeader_puthead)
qed

text \<open>\<open>CountValues\<close> counts the values of a sequence of encoded strings.\<close>

lemma CountValues_loop_step:
  assumes "Split b = Some (Inr (k, c, rest))" "b \<noteq> []" "length b < 2 ^ 64"
  shows "CountValues_loop b i = CountValues_loop rest (i + 1)"
proof -
  obtain ts cs where r: "readKind b = Inr (k, ts, cs)" "rest = drop (unat ts + unat cs) b"
    using assms(1) by (auto simp: Split_readKind [OF assms(3)] split: sum.splits)
  show ?thesis
    using readKind_bounds [OF assms(3) r(1)] r assms(2) by (simp add: CountValues_loop.simps [of b] slice_Some)
qed

lemma encodeString_not_Nil: "encodeString b \<noteq> []"
  by (auto simp: encodeString_def encodeStringHeader_def Let_def)

lemma length_encodeString: "length b < 2 ^ 64 \<Longrightarrow> length b \<le> length (encodeString b)"
  by (auto simp: encodeString_def)

lemma length_encodeString_le: "length (encodeString b) \<le> length b + 9"
  using length_putint by (auto simp: encodeString_def encodeStringHeader_def Let_def)

lemma CountValues_loop_encode:
  assumes "(\<Sum>b\<leftarrow>bs. length b + 9) < 2 ^ 64"
  shows "CountValues_loop (concat (map encodeString bs)) i = Some (Inr (i + length bs))"
  using assms
proof (induction bs arbitrary: i)
  case Nil
  show ?case by (simp add: CountValues_loop.simps)
next
  case (Cons b bs)
  define rest where "rest = concat (map encodeString bs)"
  have "length rest \<le> (\<Sum>b\<leftarrow>bs. length b + 9)"
    unfolding rest_def length_concat map_map
    by (rule sum_list_mono) (simp add: length_encodeString_le)
  then have len: "length b + 9 + length rest < 2 ^ 64" using Cons.prems by simp
  have "length (encodeString b @ rest) < 2 ^ 64"
    using len length_encodeString_le [of b] by simp
  then have "CountValues_loop (encodeString b @ rest) i = CountValues_loop rest (i + 1)"
    by (intro CountValues_loop_step [OF Split_encodeString [OF len]]) (simp_all add: encodeString_not_Nil)
  then show ?case using Cons by (simp add: rest_def)
qed

subsection \<open>Properties\<close>

text \<open>C12. \<open>Split\<close> never slices out of range, whatever bytes it is given: it returns an error, or it
  cuts the input into a tag of at most nine bytes, a content and a strictly shorter rest.\<close>

theorem Split_total:
  assumes "length b < 2 ^ 64"
  shows "case Split b of None \<Rightarrow> False
     | Some (Inl e) \<Rightarrow> True
     | Some (Inr (k, c, rest)) \<Rightarrow> (\<exists>tag. b = tag @ c @ rest \<and> length tag \<le> 9) \<and> length rest < length b"
proof (cases "readKind b")
  case (Inl e)
  then show ?thesis using assms by (simp add: Split_readKind)
next
  case (Inr r)
  obtain k ts cs where r: "r = (k, ts, cs)" by (cases r)
  note bd = readKind_bounds [OF assms Inr [unfolded r]]
  have "b = take (unat ts) b @ take (unat cs) (drop (unat ts) b) @ drop (unat ts + unat cs) b"
    by (metis append_take_drop_id drop_drop add.commute)
  moreover have "unat ts \<le> 9" using readKind_tag [OF Inr [unfolded r]] .
  ultimately have "\<exists>tag. b = tag @ take (unat cs) (drop (unat ts) b) @ drop (unat ts + unat cs) b \<and> length tag \<le> 9"
    by (metis length_take min.coboundedI2)
  moreover have "length b - (unat ts + unat cs) < length b" using bd by linarith
  ultimately show ?thesis using assms Inr r by (simp add: Split_readKind)
qed

theorem Split_total_witness:
  "case Split [0x83, 1, 2, 3, 9] of None \<Rightarrow> False
     | Some (Inl e) \<Rightarrow> True
     | Some (Inr (k, c, rest)) \<Rightarrow>
         (\<exists>tag. [0x83, 1, 2, 3, 9] = tag @ c @ rest \<and> length tag \<le> 9) \<and> length rest < length [0x83, 1, 2, 3, 9 :: byte]"
  by (rule Split_total) simp

text \<open>C11. Round trip of byte strings: splitting what \<open>encodeString\<close> wrote, followed by any bytes,
  returns the string, its kind, and those bytes untouched.\<close>

theorem Split_encodeString_roundtrip:
  assumes "length b + 9 + length rest < 2 ^ 64"
  shows "Split (encodeString b @ rest) =
    Some (Inr (if length b = 1 \<and> b ! 0 \<le> 0x7F then KByte else KString, b, rest))"
  by (rule Split_encodeString [OF assms])

theorem Split_encodeString_roundtrip_witness:
  "Split (encodeString [1, 2, 3] @ [4]) = Some (Inr (KString, [1, 2, 3], [4]))"
  using Split_encodeString_roundtrip [of "[1, 2, 3]" "[4]"] by simp

text \<open>C20. \<open>CountValues\<close> returns on every input, and on a sequence of encoded byte strings it
  returns how many there are.\<close>

theorem CountValues_correct:
  "(length b < 2 ^ 64 \<longrightarrow> (\<exists>r. CountValues b = Some r))
   \<and> ((\<Sum>b\<leftarrow>bs. length b + 9) < 2 ^ 64 \<longrightarrow>
        CountValues (concat (map encodeString bs)) = Some (Inr (length bs)))"
  using CountValues_loop_total [of b 0] CountValues_loop_encode [of bs 0] by (simp add: CountValues_def)

theorem CountValues_correct_witness:
  "(\<exists>r. CountValues [0xc0] = Some r)
   \<and> CountValues (concat (map encodeString [[1, 2], [], [3]])) = Some (Inr 3)"
  using CountValues_correct [of "[0xc0]" "[[1, 2], [], [3]]"] by simp

end
