(* ===== verification/State.thy ===== *)
theory State
  imports Rlp
begin

text \<open>
  \<open>src/kernel/state\<close>: the account database under the virtual machine. \<open>state_object.go\<close> (one
  account with its storage caches), \<open>journal.go\<close> (the undo log) and \<open>statedb.go\<close> (the database, its
  getters and setters, snapshots and \<open>Finalise\<close>).

  The \<open>Database\<close> and \<open>Trie\<close> interfaces of \<open>database.go\<close>, Keccak-256 and the reflective RLP codec of
  the \<open>Account\<close> struct are the record \<open>host\<close>, over an abstract type \<open>'t\<close> of tries. A \<open>*stateObject\<close>
  is reached only through \<open>stateObjects\<close> under its own address, so a method that changes the object
  writes it back there; an object held by a journal entry is no longer in the map and is a value.
  Errors of the database are strings. \<open>None\<close> is a panic.
\<close>

subsection \<open>The host: tries, code, hashing\<close>

record Account =
  acc_Nonce :: u64
  acc_Balance :: int
  acc_Root :: hash
  acc_CodeHash :: bytes

text \<open>The \<open>Account\<close> value before \<open>newObject\<close> has replaced its \<open>nil\<close> fields.\<close>

record AccountData =
  ad_Nonce :: u64
  ad_Balance :: "int option"
  ad_Root :: hash
  ad_CodeHash :: "bytes option"

record 't host =
  keccak256 :: "bytes \<Rightarrow> hash"
  TryGet :: "'t \<Rightarrow> bytes \<Rightarrow> bytes \<times> string option"
  TryUpdate :: "'t \<Rightarrow> bytes \<Rightarrow> bytes \<Rightarrow> 't \<times> string option"
  TryDelete :: "'t \<Rightarrow> bytes \<Rightarrow> 't \<times> string option"
  trie_Hash :: "'t \<Rightarrow> hash"
  OpenTrie :: "hash \<Rightarrow> string + 't"
  OpenStorageTrie :: "hash \<Rightarrow> hash \<Rightarrow> string + 't"
  CopyTrie :: "'t \<Rightarrow> 't"
  ContractCode :: "hash \<Rightarrow> hash \<Rightarrow> bytes option \<times> string option"
  ContractCodeSize :: "hash \<Rightarrow> hash \<Rightarrow> int \<times> string option"
  DecodeAccount :: "bytes \<Rightarrow> AccountData option"
  EncodeAccount :: "Account \<Rightarrow> string + bytes"

definition emptyCodeHash :: "'t host \<Rightarrow> bytes" where
  "emptyCodeHash h = hash_Bytes (keccak256 h [])"

subsection \<open>state_object.go\<close>

type_synonym Storage = "hash \<rightharpoonup> hash"

record 't stateObject =
  so_address :: address
  so_addrHash :: hash
  so_data :: Account
  so_dbErr :: "string option"
  so_trie :: "'t option"
  so_code :: "bytes option"
  originStorage :: Storage
  dirtyStorage :: Storage
  dirtyCode :: bool
  suicided :: bool
  deleted :: bool

definition so_empty :: "'t host \<Rightarrow> 't stateObject \<Rightarrow> bool" where
  "so_empty h s \<longleftrightarrow> acc_Nonce (so_data s) = 0 \<and> acc_Balance (so_data s) = 0
     \<and> acc_CodeHash (so_data s) = emptyCodeHash h"

definition newObject :: "'t host \<Rightarrow> address \<Rightarrow> AccountData \<Rightarrow> 't stateObject" where
  "newObject h addr d =
     \<lparr>so_address = addr, so_addrHash = keccak256 h (addr_Bytes addr),
      so_data = \<lparr>acc_Nonce = ad_Nonce d,
                 acc_Balance = (case ad_Balance d of None \<Rightarrow> 0 | Some b \<Rightarrow> b),
                 acc_Root = ad_Root d,
                 acc_CodeHash = (case ad_CodeHash d of None \<Rightarrow> emptyCodeHash h | Some c \<Rightarrow> c)\<rparr>,
      so_dbErr = None, so_trie = None, so_code = None,
      originStorage = Map.empty, dirtyStorage = Map.empty,
      dirtyCode = False, suicided = False, deleted = False\<rparr>"

definition so_setError :: "string option \<Rightarrow> 't stateObject \<Rightarrow> 't stateObject" where
  "so_setError err s = (if so_dbErr s = None then s\<lparr>so_dbErr := err\<rparr> else s)"

definition markSuicided :: "'t stateObject \<Rightarrow> 't stateObject" where
  "markSuicided s = s\<lparr>suicided := True\<rparr>"

text \<open>\<open>getTrie\<close> leaves the trie \<open>nil\<close> only when the empty trie cannot be opened either.\<close>

definition getTrie :: "'t host \<Rightarrow> 't stateObject \<Rightarrow> 't option \<times> 't stateObject" where
  "getTrie h c =
     (case so_trie c of
        Some t \<Rightarrow> (Some t, c)
      | None \<Rightarrow>
          (let c' = (case OpenStorageTrie h (so_addrHash c) (acc_Root (so_data c)) of
                       Inr t \<Rightarrow> c\<lparr>so_trie := Some t\<rparr>
                     | Inl err \<Rightarrow>
                         so_setError (Some (''can't create storage trie: '' @ err))
                           (c\<lparr>so_trie := (case OpenStorageTrie h (so_addrHash c) 0 of
                                            Inr t \<Rightarrow> Some t | Inl _ \<Rightarrow> None)\<rparr>))
           in (so_trie c', c')))"

definition rlp_message :: "rlp_error \<Rightarrow> string" where
  "rlp_message e = (case e of
      ErrUnexpectedEOF \<Rightarrow> ''unexpected EOF''
    | ErrCanonSize \<Rightarrow> ''rlp: non-canonical size information''
    | ErrValueTooLarge \<Rightarrow> ''rlp: value size exceeds available input length''
    | ErrExpectedString \<Rightarrow> ''rlp: expected String or Byte''
    | ErrExpectedList \<Rightarrow> ''rlp: expected List'')"

definition so_GetCommittedState ::
  "'t host \<Rightarrow> 't stateObject \<Rightarrow> hash \<Rightarrow> (hash \<times> 't stateObject) option" where
  "so_GetCommittedState h self key =
     (case originStorage self key of
        Some v \<Rightarrow> Some (v, self)
      | None \<Rightarrow>
          (case getTrie h self of
             (None, _) \<Rightarrow> None
           | (Some t, self') \<Rightarrow>
               (case TryGet h t (hash_Bytes key) of
                  (enc, Some err) \<Rightarrow> Some (0, so_setError (Some err) self')
                | (enc, None) \<Rightarrow>
                    (if length enc > 0 then do {
                       r \<leftarrow> Split enc;
                       let (v, self'') = (case r of
                           Inl e \<Rightarrow> (BytesToHash [], so_setError (Some (rlp_message e)) self')
                         | Inr (_, content, _) \<Rightarrow> (BytesToHash content, self'));
                       Some (v, self''\<lparr>originStorage := (originStorage self'')(key \<mapsto> v)\<rparr>) }
                     else Some (0, self'\<lparr>originStorage := (originStorage self')(key \<mapsto> 0)\<rparr>)))))"

definition so_GetState ::
  "'t host \<Rightarrow> 't stateObject \<Rightarrow> hash \<Rightarrow> (hash \<times> 't stateObject) option" where
  "so_GetState h self key =
     (case dirtyStorage self key of
        Some v \<Rightarrow> Some (v, self)
      | None \<Rightarrow> so_GetCommittedState h self key)"

definition setState :: "hash \<Rightarrow> hash \<Rightarrow> 't stateObject \<Rightarrow> 't stateObject" where
  "setState key v self = self\<lparr>dirtyStorage := (dirtyStorage self)(key \<mapsto> v)\<rparr>"

definition setBalance :: "int \<Rightarrow> 't stateObject \<Rightarrow> 't stateObject" where
  "setBalance amount self = self\<lparr>so_data := (so_data self)\<lparr>acc_Balance := amount\<rparr>\<rparr>"

definition setNonce :: "u64 \<Rightarrow> 't stateObject \<Rightarrow> 't stateObject" where
  "setNonce nonce self = self\<lparr>so_data := (so_data self)\<lparr>acc_Nonce := nonce\<rparr>\<rparr>"

definition setCode :: "hash \<Rightarrow> bytes option \<Rightarrow> 't stateObject \<Rightarrow> 't stateObject" where
  "setCode codeHash code self =
     self\<lparr>so_code := code, so_data := (so_data self)\<lparr>acc_CodeHash := hash_Bytes codeHash\<rparr>,
          dirtyCode := True\<rparr>"

definition so_Code :: "'t host \<Rightarrow> 't stateObject \<Rightarrow> bytes option \<times> 't stateObject" where
  "so_Code h self =
     (if so_code self \<noteq> None then (so_code self, self)
      else if acc_CodeHash (so_data self) = emptyCodeHash h then (None, self)
      else let (code, err) = ContractCode h (so_addrHash self) (BytesToHash (acc_CodeHash (so_data self)));
               self' = (if err \<noteq> None then so_setError (Some (''can't load code hash: '' @ the err)) self else self)
           in (code, self'\<lparr>so_code := code\<rparr>))"

text \<open>
  The storage trie is written slot by slot in the order \<open>ks\<close> in which Go's \<open>range\<close> enumerates the
  dirty slots.
\<close>

fun updateTrie_slots ::
  "'t host \<Rightarrow> hash list \<Rightarrow> 't \<Rightarrow> 't stateObject \<Rightarrow> 't \<times> 't stateObject" where
  "updateTrie_slots h [] tr self = (tr, self)"
| "updateTrie_slots h (key # ks) tr self =
     (case dirtyStorage self key of
        None \<Rightarrow> updateTrie_slots h ks tr self
      | Some v \<Rightarrow>
          (let self1 = self\<lparr>dirtyStorage := (dirtyStorage self)(key := None)\<rparr>
           in if v = (case originStorage self1 key of None \<Rightarrow> 0 | Some o' \<Rightarrow> o')
              then updateTrie_slots h ks tr self1
              else
                let self2 = self1\<lparr>originStorage := (originStorage self1)(key \<mapsto> v)\<rparr>;
                    (tr', err) = (if v = 0 then TryDelete h tr (hash_Bytes key)
                                  else TryUpdate h tr (hash_Bytes key)
                                         (encodeString (dropWhile (\<lambda>b. b = 0) (hash_Bytes v))))
                in updateTrie_slots h ks tr' (so_setError err self2)))"

definition updateTrie :: "'t host \<Rightarrow> hash list \<Rightarrow> 't stateObject \<Rightarrow> ('t \<times> 't stateObject) option" where
  "updateTrie h ks self =
     (case getTrie h self of
        (None, _) \<Rightarrow> None
      | (Some tr, self') \<Rightarrow>
          (let (tr', self'') = updateTrie_slots h ks tr self'
           in Some (tr', self''\<lparr>so_trie := Some tr'\<rparr>)))"

definition updateRoot :: "'t host \<Rightarrow> hash list \<Rightarrow> 't stateObject \<Rightarrow> 't stateObject option" where
  "updateRoot h ks self = do {
     (tr, self') \<leftarrow> updateTrie h ks self;
     Some (self'\<lparr>so_data := (so_data self')\<lparr>acc_Root := trie_Hash h tr\<rparr>\<rparr>) }"

definition deepCopy :: "'t host \<Rightarrow> 't stateObject \<Rightarrow> 't stateObject" where
  "deepCopy h self =
     (newObject h (so_address self)
        \<lparr>ad_Nonce = acc_Nonce (so_data self), ad_Balance = Some (acc_Balance (so_data self)),
         ad_Root = acc_Root (so_data self), ad_CodeHash = Some (acc_CodeHash (so_data self))\<rparr>)
     \<lparr>so_trie := map_option (CopyTrie h) (so_trie self), so_code := so_code self,
      dirtyStorage := dirtyStorage self, originStorage := originStorage self,
      suicided := suicided self, dirtyCode := dirtyCode self, deleted := deleted self\<rparr>"

subsection \<open>journal.go\<close>

datatype 't journalEntry =
    createObjectChange address
  | resetObjectChange "'t stateObject"
  | suicideChange address bool int
  | balanceChange address int
  | nonceChange address u64
  | storageChange address hash hash
  | codeChange address "bytes option" bytes
  | refundChange u64
  | addLogChange hash
  | addPreimageChange hash
  | touchChange address bool bool

fun dirtied :: "'t journalEntry \<Rightarrow> address option" where
  "dirtied (createObjectChange a) = Some a"
| "dirtied (resetObjectChange prev) = None"
| "dirtied (suicideChange a prev prevbalance) = Some a"
| "dirtied (balanceChange a prev) = Some a"
| "dirtied (nonceChange a prev) = Some a"
| "dirtied (storageChange a key prevalue) = Some a"
| "dirtied (codeChange a prevcode prevhash) = Some a"
| "dirtied (refundChange prev) = None"
| "dirtied (addLogChange txhash) = None"
| "dirtied (addPreimageChange hsh) = None"
| "dirtied (touchChange a prev prevDirty) = Some a"

record 't journal =
  entries :: "'t journalEntry list"
  dirties :: "address \<rightharpoonup> int"

definition newJournal :: "'t journal" where
  "newJournal = \<lparr>entries = [], dirties = Map.empty\<rparr>"

definition dirty_count :: "(address \<rightharpoonup> int) \<Rightarrow> address \<Rightarrow> int" where
  "dirty_count d a = (case d a of None \<Rightarrow> 0 | Some n \<Rightarrow> n)"

definition journal_append :: "'t journalEntry \<Rightarrow> 't journal \<Rightarrow> 't journal" where
  "journal_append entry j =
     (let j' = j\<lparr>entries := entries j @ [entry]\<rparr>
      in case dirtied entry of
           None \<Rightarrow> j'
         | Some a \<Rightarrow> j'\<lparr>dirties := (dirties j')(a \<mapsto> dirty_count (dirties j') a + 1)\<rparr>)"

definition journal_dirty :: "address \<Rightarrow> 't journal \<Rightarrow> 't journal" where
  "journal_dirty a j = j\<lparr>dirties := (dirties j)(a \<mapsto> dirty_count (dirties j) a + 1)\<rparr>"

definition ripemd :: address where "ripemd = 3"

subsection \<open>statedb.go\<close>

record Log =
  log_Address :: address
  log_Topics :: "hash list"
  log_Data :: bytes
  log_BlockNumber :: u64
  log_TxHash :: hash
  log_TxIndex :: u64
  log_BlockHash :: hash
  log_Index :: u64
  log_Removed :: bool

record revision =
  rev_id :: nat
  journalIndex :: nat

record 't StateDB =
  sdb_db :: "'t host"
  sdb_trie :: 't
  stateObjects :: "address \<rightharpoonup> 't stateObject"
  stateObjectsDirty :: "address set"
  sdb_dbErr :: "string option"
  refund :: u64
  thash :: hash
  bhash :: hash
  txIndex :: int
  logs :: "hash \<rightharpoonup> Log list"
  logSize :: u64
  preimages :: "hash \<rightharpoonup> bytes"
  sdb_journal :: "'t journal"
  validRevisions :: "revision list"
  nextRevisionId :: nat

definition New :: "hash \<Rightarrow> 't host \<Rightarrow> string + 't StateDB" where
  "New root h =
     (case OpenTrie h root of
        Inl err \<Rightarrow> Inl err
      | Inr tr \<Rightarrow> Inr
          \<lparr>sdb_db = h, sdb_trie = tr, stateObjects = Map.empty, stateObjectsDirty = {},
           sdb_dbErr = None, refund = 0, thash = 0, bhash = 0, txIndex = 0, logs = Map.empty,
           logSize = 0, preimages = Map.empty, sdb_journal = newJournal, validRevisions = [],
           nextRevisionId = 0\<rparr>)"

definition sdb_setError :: "string option \<Rightarrow> 't StateDB \<Rightarrow> 't StateDB" where
  "sdb_setError err s = (if sdb_dbErr s = None then s\<lparr>sdb_dbErr := err\<rparr> else s)"

definition add_entry :: "'t journalEntry \<Rightarrow> 't StateDB \<Rightarrow> 't StateDB" where
  "add_entry entry s = s\<lparr>sdb_journal := journal_append entry (sdb_journal s)\<rparr>"

definition clearJournalAndRefund :: "'t StateDB \<Rightarrow> 't StateDB" where
  "clearJournalAndRefund s = s\<lparr>sdb_journal := newJournal, validRevisions := [], refund := 0\<rparr>"

definition Reset :: "hash \<Rightarrow> 't StateDB \<Rightarrow> string option \<times> 't StateDB" where
  "Reset root s =
     (case OpenTrie (sdb_db s) root of
        Inl err \<Rightarrow> (Some err, s)
      | Inr tr \<Rightarrow> (None, clearJournalAndRefund
          (s\<lparr>sdb_trie := tr, stateObjects := Map.empty, stateObjectsDirty := {}, thash := 0, bhash := 0,
             txIndex := 0, logs := Map.empty, logSize := 0, preimages := Map.empty\<rparr>)))"

definition log_list :: "(hash \<rightharpoonup> Log list) \<Rightarrow> hash \<Rightarrow> Log list" where
  "log_list l h = (case l h of None \<Rightarrow> [] | Some xs \<Rightarrow> xs)"

definition AddLog :: "Log \<Rightarrow> 't StateDB \<Rightarrow> 't StateDB" where
  "AddLog log s =
     (let s1 = add_entry (addLogChange (thash s)) s;
          log1 = log\<lparr>log_TxHash := thash s1, log_BlockHash := bhash s1,
                     log_TxIndex := of_int (txIndex s1), log_Index := logSize s1\<rparr>
      in s1\<lparr>logs := (logs s1)(thash s1 \<mapsto> log_list (logs s1) (thash s1) @ [log1]),
            logSize := logSize s1 + 1\<rparr>)"

definition GetLogs :: "'t StateDB \<Rightarrow> hash \<Rightarrow> Log list" where
  "GetLogs s h = log_list (logs s) h"

definition AddPreimage :: "hash \<Rightarrow> bytes \<Rightarrow> 't StateDB \<Rightarrow> 't StateDB" where
  "AddPreimage hsh preimage s =
     (if preimages s hsh = None
      then let s1 = add_entry (addPreimageChange hsh) s
           in s1\<lparr>preimages := (preimages s1)(hsh \<mapsto> preimage)\<rparr>
      else s)"

definition AddRefund :: "u64 \<Rightarrow> 't StateDB \<Rightarrow> 't StateDB" where
  "AddRefund gas s = (let s1 = add_entry (refundChange (refund s)) s in s1\<lparr>refund := refund s1 + gas\<rparr>)"

definition SubRefund :: "u64 \<Rightarrow> 't StateDB \<Rightarrow> 't StateDB option" where
  "SubRefund gas s =
     (let s1 = add_entry (refundChange (refund s)) s
      in if gas > refund s1 then None else Some (s1\<lparr>refund := refund s1 - gas\<rparr>))"

definition GetRefund :: "'t StateDB \<Rightarrow> u64" where
  "GetRefund s = refund s"

definition setStateObject :: "'t stateObject \<Rightarrow> 't StateDB \<Rightarrow> 't StateDB" where
  "setStateObject obj s = s\<lparr>stateObjects := (stateObjects s)(so_address obj \<mapsto> obj)\<rparr>"

definition getStateObject :: "address \<Rightarrow> 't StateDB \<Rightarrow> 't stateObject option \<times> 't StateDB" where
  "getStateObject addr s =
     (case stateObjects s addr of
        Some obj \<Rightarrow> (if deleted obj then None else Some obj, s)
      | None \<Rightarrow>
          (let (enc, err) = TryGet (sdb_db s) (sdb_trie s) (addr_Bytes addr)
           in if length enc = 0 then (None, sdb_setError err s)
              else case DecodeAccount (sdb_db s) enc of
                     None \<Rightarrow> (None, s)
                   | Some d \<Rightarrow>
                       (let obj = newObject (sdb_db s) addr d in (Some obj, setStateObject obj s))))"

definition Exist :: "address \<Rightarrow> 't StateDB \<Rightarrow> bool \<times> 't StateDB" where
  "Exist addr s = (let (obj, s1) = getStateObject addr s in (obj \<noteq> None, s1))"

definition Empty :: "address \<Rightarrow> 't StateDB \<Rightarrow> bool \<times> 't StateDB" where
  "Empty addr s =
     (let (obj, s1) = getStateObject addr s
      in (case obj of None \<Rightarrow> True | Some o' \<Rightarrow> so_empty (sdb_db s) o', s1))"

definition GetBalance :: "address \<Rightarrow> 't StateDB \<Rightarrow> int \<times> 't StateDB" where
  "GetBalance addr s =
     (let (obj, s1) = getStateObject addr s
      in (case obj of None \<Rightarrow> 0 | Some o' \<Rightarrow> acc_Balance (so_data o'), s1))"

definition GetNonce :: "address \<Rightarrow> 't StateDB \<Rightarrow> u64 \<times> 't StateDB" where
  "GetNonce addr s =
     (let (obj, s1) = getStateObject addr s
      in (case obj of None \<Rightarrow> 0 | Some o' \<Rightarrow> acc_Nonce (so_data o'), s1))"

definition GetCode :: "address \<Rightarrow> 't StateDB \<Rightarrow> bytes option \<times> 't StateDB" where
  "GetCode addr s =
     (let (obj, s1) = getStateObject addr s
      in case obj of None \<Rightarrow> (None, s1)
         | Some o' \<Rightarrow> (let (c, o1) = so_Code (sdb_db s1) o' in (c, setStateObject o1 s1)))"

definition GetCodeSize :: "address \<Rightarrow> 't StateDB \<Rightarrow> int \<times> 't StateDB" where
  "GetCodeSize addr s =
     (let (obj, s1) = getStateObject addr s
      in case obj of None \<Rightarrow> (0, s1)
         | Some o' \<Rightarrow>
             (case so_code o' of
                Some c \<Rightarrow> (int (length c), s1)
              | None \<Rightarrow>
                  (let (n, err) = ContractCodeSize (sdb_db s1) (so_addrHash o') (BytesToHash (acc_CodeHash (so_data o')))
                   in (n, if err \<noteq> None then sdb_setError err s1 else s1))))"

definition GetCodeHash :: "address \<Rightarrow> 't StateDB \<Rightarrow> hash \<times> 't StateDB" where
  "GetCodeHash addr s =
     (let (obj, s1) = getStateObject addr s
      in (case obj of None \<Rightarrow> 0 | Some o' \<Rightarrow> BytesToHash (acc_CodeHash (so_data o')), s1))"

definition GetState :: "address \<Rightarrow> hash \<Rightarrow> 't StateDB \<Rightarrow> (hash \<times> 't StateDB) option" where
  "GetState addr key s =
     (let (obj, s1) = getStateObject addr s
      in case obj of None \<Rightarrow> Some (0, s1)
         | Some o' \<Rightarrow> do { (v, o1) \<leftarrow> so_GetState (sdb_db s1) o' key; Some (v, setStateObject o1 s1) })"

definition GetCommittedState :: "address \<Rightarrow> hash \<Rightarrow> 't StateDB \<Rightarrow> (hash \<times> 't StateDB) option" where
  "GetCommittedState addr key s =
     (let (obj, s1) = getStateObject addr s
      in case obj of None \<Rightarrow> Some (0, s1)
         | Some o' \<Rightarrow> do { (v, o1) \<leftarrow> so_GetCommittedState (sdb_db s1) o' key; Some (v, setStateObject o1 s1) })"

definition HasSuicided :: "address \<Rightarrow> 't StateDB \<Rightarrow> bool \<times> 't StateDB" where
  "HasSuicided addr s =
     (let (obj, s1) = getStateObject addr s
      in (case obj of None \<Rightarrow> False | Some o' \<Rightarrow> suicided o', s1))"

definition createObject ::
  "address \<Rightarrow> 't StateDB \<Rightarrow> 't stateObject \<times> 't stateObject option \<times> 't StateDB" where
  "createObject addr s =
     (let (prev, s1) = getStateObject addr s;
          newobj = setNonce 0 (newObject (sdb_db s1) addr
                     \<lparr>ad_Nonce = 0, ad_Balance = None, ad_Root = 0, ad_CodeHash = None\<rparr>);
          s2 = (case prev of
                  None \<Rightarrow> add_entry (createObjectChange addr) s1
                | Some p \<Rightarrow> add_entry (resetObjectChange p) s1)
      in (newobj, prev, setStateObject newobj s2))"

definition GetOrNewStateObject :: "address \<Rightarrow> 't StateDB \<Rightarrow> 't stateObject \<times> 't StateDB" where
  "GetOrNewStateObject addr s =
     (let (obj, s1) = getStateObject addr s
      in case obj of
           Some o' \<Rightarrow> if deleted o' then (let (n, _, s2) = createObject addr s1 in (n, s2)) else (o', s1)
         | None \<Rightarrow> (let (n, _, s2) = createObject addr s1 in (n, s2)))"

definition CreateAccount :: "address \<Rightarrow> 't StateDB \<Rightarrow> 't StateDB" where
  "CreateAccount addr s =
     (let (new, prev, s1) = createObject addr s
      in case prev of None \<Rightarrow> s1
         | Some p \<Rightarrow> setStateObject (setBalance (acc_Balance (so_data p)) new) s1)"

subsection \<open>The journaled methods of a state object\<close>

definition touch :: "'t stateObject \<Rightarrow> 't StateDB \<Rightarrow> 't StateDB" where
  "touch c s =
     (let s1 = add_entry (touchChange (so_address c) False False) s
      in if so_address c = ripemd then s1\<lparr>sdb_journal := journal_dirty (so_address c) (sdb_journal s1)\<rparr> else s1)"

definition so_SetBalance :: "int \<Rightarrow> 't stateObject \<Rightarrow> 't StateDB \<Rightarrow> 't StateDB" where
  "so_SetBalance amount self s =
     setStateObject (setBalance amount self)
       (add_entry (balanceChange (so_address self) (acc_Balance (so_data self))) s)"

definition so_AddBalance :: "int \<Rightarrow> 't stateObject \<Rightarrow> 't StateDB \<Rightarrow> 't StateDB" where
  "so_AddBalance amount c s =
     (if amount = 0 then (if so_empty (sdb_db s) c then touch c s else s)
      else so_SetBalance (acc_Balance (so_data c) + amount) c s)"

definition so_SubBalance :: "int \<Rightarrow> 't stateObject \<Rightarrow> 't StateDB \<Rightarrow> 't StateDB" where
  "so_SubBalance amount c s =
     (if amount = 0 then s else so_SetBalance (acc_Balance (so_data c) - amount) c s)"

definition so_SetNonce :: "u64 \<Rightarrow> 't stateObject \<Rightarrow> 't StateDB \<Rightarrow> 't StateDB" where
  "so_SetNonce nonce self s =
     setStateObject (setNonce nonce self)
       (add_entry (nonceChange (so_address self) (acc_Nonce (so_data self))) s)"

definition so_SetCode :: "hash \<Rightarrow> bytes option \<Rightarrow> 't stateObject \<Rightarrow> 't StateDB \<Rightarrow> 't StateDB" where
  "so_SetCode codeHash code self s =
     (let (prevcode, self1) = so_Code (sdb_db s) self
      in setStateObject (setCode codeHash code self1)
           (add_entry (codeChange (so_address self1) prevcode (acc_CodeHash (so_data self1))) s))"

definition so_SetState :: "hash \<Rightarrow> hash \<Rightarrow> 't stateObject \<Rightarrow> 't StateDB \<Rightarrow> 't StateDB option" where
  "so_SetState key v self s = do {
     (prev, self1) \<leftarrow> so_GetState (sdb_db s) self key;
     Some (if prev = v then setStateObject self1 s
           else setStateObject (setState key v self1)
                  (add_entry (storageChange (so_address self1) key prev) s)) }"

definition AddBalance :: "address \<Rightarrow> int \<Rightarrow> 't StateDB \<Rightarrow> 't StateDB" where
  "AddBalance addr amount s = (let (obj, s1) = GetOrNewStateObject addr s in so_AddBalance amount obj s1)"

definition SubBalance :: "address \<Rightarrow> int \<Rightarrow> 't StateDB \<Rightarrow> 't StateDB" where
  "SubBalance addr amount s = (let (obj, s1) = GetOrNewStateObject addr s in so_SubBalance amount obj s1)"

definition SetBalance :: "address \<Rightarrow> int \<Rightarrow> 't StateDB \<Rightarrow> 't StateDB" where
  "SetBalance addr amount s = (let (obj, s1) = GetOrNewStateObject addr s in so_SetBalance amount obj s1)"

definition SetNonce :: "address \<Rightarrow> u64 \<Rightarrow> 't StateDB \<Rightarrow> 't StateDB" where
  "SetNonce addr nonce s = (let (obj, s1) = GetOrNewStateObject addr s in so_SetNonce nonce obj s1)"

definition SetCode :: "address \<Rightarrow> bytes option \<Rightarrow> 't StateDB \<Rightarrow> 't StateDB" where
  "SetCode addr code s =
     (let (obj, s1) = GetOrNewStateObject addr s
      in so_SetCode (keccak256 (sdb_db s1) (case code of None \<Rightarrow> [] | Some c \<Rightarrow> c)) code obj s1)"

definition SetState :: "address \<Rightarrow> hash \<Rightarrow> hash \<Rightarrow> 't StateDB \<Rightarrow> 't StateDB option" where
  "SetState addr key v s = (let (obj, s1) = GetOrNewStateObject addr s in so_SetState key v obj s1)"

definition Suicide :: "address \<Rightarrow> 't StateDB \<Rightarrow> bool \<times> 't StateDB" where
  "Suicide addr s =
     (let (obj, s1) = getStateObject addr s
      in case obj of
           None \<Rightarrow> (False, s1)
         | Some o' \<Rightarrow>
             (True, setStateObject (setBalance 0 (markSuicided o'))
                      (add_entry (suicideChange addr (suicided o') (acc_Balance (so_data o'))) s1)))"

subsection \<open>Undoing journal entries\<close>

definition update_object ::
  "address \<Rightarrow> ('t stateObject \<Rightarrow> 't stateObject) \<Rightarrow> 't StateDB \<Rightarrow> 't StateDB option" where
  "update_object addr f s =
     (let (obj, s1) = getStateObject addr s
      in case obj of None \<Rightarrow> None | Some o' \<Rightarrow> Some (setStateObject (f o') s1))"

fun entry_revert :: "'t journalEntry \<Rightarrow> 't StateDB \<Rightarrow> 't StateDB option" where
  "entry_revert (createObjectChange a) s =
     Some (s\<lparr>stateObjects := (stateObjects s)(a := None), stateObjectsDirty := stateObjectsDirty s - {a}\<rparr>)"
| "entry_revert (resetObjectChange prev) s = Some (setStateObject prev s)"
| "entry_revert (suicideChange a prev prevbalance) s =
     (let (obj, s1) = getStateObject a s
      in case obj of None \<Rightarrow> Some s1
         | Some o' \<Rightarrow> Some (setStateObject (setBalance prevbalance (o'\<lparr>suicided := prev\<rparr>)) s1))"
| "entry_revert (touchChange a prev prevDirty) s = Some s"
| "entry_revert (balanceChange a prev) s = update_object a (setBalance prev) s"
| "entry_revert (nonceChange a prev) s = update_object a (setNonce prev) s"
| "entry_revert (codeChange a prevcode prevhash) s =
     update_object a (setCode (BytesToHash prevhash) prevcode) s"
| "entry_revert (storageChange a key prevalue) s = update_object a (setState key prevalue) s"
| "entry_revert (refundChange prev) s = Some (s\<lparr>refund := prev\<rparr>)"
| "entry_revert (addLogChange txhash) s =
     (let ls = log_list (logs s) txhash
      in if length ls = 1 then Some (s\<lparr>logs := (logs s)(txhash := None), logSize := logSize s - 1\<rparr>)
         else if ls = [] then None
         else Some (s\<lparr>logs := (logs s)(txhash \<mapsto> butlast ls), logSize := logSize s - 1\<rparr>))"
| "entry_revert (addPreimageChange hsh) s = Some (s\<lparr>preimages := (preimages s)(hsh := None)\<rparr>)"

definition undirty :: "address option \<Rightarrow> (address \<rightharpoonup> int) \<Rightarrow> (address \<rightharpoonup> int)" where
  "undirty a d =
     (case a of None \<Rightarrow> d
      | Some a' \<Rightarrow> (let n = dirty_count d a' - 1 in if n = 0 then d(a' := None) else d(a' \<mapsto> n)))"

text \<open>The loop of \<open>journal.revert\<close>, from the last entry down; \<open>es\<close> are the entries, last first.\<close>

fun revert_entries :: "'t journalEntry list \<Rightarrow> 't StateDB \<Rightarrow> 't StateDB option" where
  "revert_entries [] s = Some s"
| "revert_entries (e # es) s = do {
     s1 \<leftarrow> entry_revert e s;
     revert_entries es
       (s1\<lparr>sdb_journal := (sdb_journal s1)\<lparr>dirties := undirty (dirtied e) (dirties (sdb_journal s1))\<rparr>\<rparr>) }"

definition journal_revert :: "nat \<Rightarrow> 't StateDB \<Rightarrow> 't StateDB option" where
  "journal_revert snapshot s =
     (if snapshot > length (entries (sdb_journal s)) then None
      else do {
        s1 \<leftarrow> revert_entries (rev (drop snapshot (entries (sdb_journal s)))) s;
        Some (s1\<lparr>sdb_journal := (sdb_journal s1)\<lparr>entries := take snapshot (entries (sdb_journal s1))\<rparr>\<rparr>) })"

definition Snapshot :: "'t StateDB \<Rightarrow> nat \<times> 't StateDB" where
  "Snapshot s =
     (let i = nextRevisionId s
      in (i, s\<lparr>nextRevisionId := nextRevisionId s + 1,
               validRevisions := validRevisions s @
                 [\<lparr>rev_id = i, journalIndex = length (entries (sdb_journal s))\<rparr>]\<rparr>))"

text \<open>\<open>sort.Search\<close>: the smallest index in \<open>[i, j)\<close> at which \<open>f\<close> holds, by bisection.\<close>

function sort_search :: "(nat \<Rightarrow> bool) \<Rightarrow> nat \<Rightarrow> nat \<Rightarrow> nat" where
  "sort_search f i j =
     (if i < j then
        (let h = (i + j) div 2 in if \<not> f h then sort_search f (h + 1) j else sort_search f i h)
      else i)"
  by pat_completeness auto
termination by (relation "measure (\<lambda>(f, i, j). j - i)") auto

definition RevertToSnapshot :: "nat \<Rightarrow> 't StateDB \<Rightarrow> 't StateDB option" where
  "RevertToSnapshot revid s =
     (let rs = validRevisions s;
          idx = sort_search (\<lambda>i. revid \<le> rev_id (rs ! i)) 0 (length rs)
      in if idx = length rs \<or> rev_id (rs ! idx) \<noteq> revid then None
         else do {
           s1 \<leftarrow> journal_revert (journalIndex (rs ! idx)) s;
           Some (s1\<lparr>validRevisions := take idx (validRevisions s1)\<rparr>) })"

subsection \<open>The end of a transaction\<close>

definition updateStateObject :: "'t stateObject \<Rightarrow> 't StateDB \<Rightarrow> 't StateDB option" where
  "updateStateObject obj s =
     (case EncodeAccount (sdb_db s) (so_data obj) of
        Inl err \<Rightarrow> None
      | Inr d \<Rightarrow>
          (let (tr, err) = TryUpdate (sdb_db s) (sdb_trie s) (addr_Bytes (so_address obj)) d
           in Some (sdb_setError err (s\<lparr>sdb_trie := tr\<rparr>))))"

definition deleteStateObject :: "'t stateObject \<Rightarrow> 't StateDB \<Rightarrow> 't StateDB" where
  "deleteStateObject obj s =
     (let s1 = setStateObject (obj\<lparr>deleted := True\<rparr>) s;
          (tr, err) = TryDelete (sdb_db s1) (sdb_trie s1) (addr_Bytes (so_address obj))
      in sdb_setError err (s1\<lparr>sdb_trie := tr\<rparr>))"

text \<open>
  \<open>Finalise\<close> ranges over the dirty addresses, and \<open>updateRoot\<close> over the dirty slots of each, in an
  order Go does not fix: \<open>as\<close> and \<open>ks\<close> are the orders taken.
\<close>

definition finalise_object ::
  "bool \<Rightarrow> (address \<Rightarrow> hash list) \<Rightarrow> address \<Rightarrow> 't StateDB \<Rightarrow> 't StateDB option" where
  "finalise_object deleteEmptyObjects ks addr s =
     (case stateObjects s addr of
        None \<Rightarrow> Some s
      | Some obj \<Rightarrow> do {
          s1 \<leftarrow> (if suicided obj \<or> (deleteEmptyObjects \<and> so_empty (sdb_db s) obj)
                then Some (deleteStateObject obj s)
                else do {
                  obj1 \<leftarrow> updateRoot (sdb_db s) (ks addr) obj;
                  updateStateObject obj1 (setStateObject obj1 s) });
          Some (s1\<lparr>stateObjectsDirty := insert addr (stateObjectsDirty s1)\<rparr>) })"

fun finalise_loop ::
  "bool \<Rightarrow> (address \<Rightarrow> hash list) \<Rightarrow> address list \<Rightarrow> 't StateDB \<Rightarrow> 't StateDB option" where
  "finalise_loop d ks [] s = Some s"
| "finalise_loop d ks (a # as) s = do { s1 \<leftarrow> finalise_object d ks a s; finalise_loop d ks as s1 }"

definition Finalise ::
  "bool \<Rightarrow> address list \<Rightarrow> (address \<Rightarrow> hash list) \<Rightarrow> 't StateDB \<Rightarrow> 't StateDB option" where
  "Finalise d as ks s = do { s1 \<leftarrow> finalise_loop d ks as s; Some (clearJournalAndRefund s1) }"

definition IntermediateRoot ::
  "bool \<Rightarrow> address list \<Rightarrow> (address \<Rightarrow> hash list) \<Rightarrow> 't StateDB \<Rightarrow> (hash \<times> 't StateDB) option" where
  "IntermediateRoot d as ks s = do { s1 \<leftarrow> Finalise d as ks s; Some (trie_Hash (sdb_db s1) (sdb_trie s1), s1) }"

definition Prepare :: "hash \<Rightarrow> hash \<Rightarrow> int \<Rightarrow> 't StateDB \<Rightarrow> 't StateDB" where
  "Prepare th bh ti s = s\<lparr>thash := th, bhash := bh, txIndex := ti\<rparr>"

definition Copy :: "'t StateDB \<Rightarrow> 't StateDB option" where
  "Copy self =
     (if \<exists>a\<in>stateObjectsDirty self. stateObjects self a = None then None
      else let dirty = (\<lambda>a. dirties (sdb_journal self) a \<noteq> None \<or> a \<in> stateObjectsDirty self);
               objs = (\<lambda>a. if dirty a then map_option (deepCopy (sdb_db self)) (stateObjects self a) else None)
           in Some \<lparr>sdb_db = sdb_db self, sdb_trie = CopyTrie (sdb_db self) (sdb_trie self),
                    stateObjects = objs, stateObjectsDirty = dom objs, sdb_dbErr = None,
                    refund = refund self, thash = 0, bhash = 0, txIndex = 0, logs = logs self,
                    logSize = logSize self, preimages = preimages self, sdb_journal = newJournal,
                    validRevisions = [], nextRevisionId = 0\<rparr>)"

end
