(* ===== verification/State_View.thy ===== *)
theory State_View
  imports State
begin

text \<open>
  The abstract specification of the account database: a \<open>world\<close> maps an address to what the getters
  of \<open>statedb.go\<close> report of it, next to the refund counter, the logs and the preimages. The caches
  of \<open>StateDB\<close> (loaded objects, opened tries, fetched slots and code) are invisible in it. Every
  operation of the database is shown to implement its abstract counterpart, and every journal entry
  to undo the operation that wrote it, which gives the snapshot theorem: reverting to a snapshot
  restores the world of the moment the snapshot was taken.
\<close>

declare option.case_cong [cong] sum.case_cong [cong]

subsection \<open>What an object shows\<close>

record 't acct =
  v_nonce :: u64
  v_balance :: int
  v_root :: hash
  v_codehash :: bytes
  v_code :: "bytes option"
  v_suicided :: bool
  v_trie :: "'t option"
  v_state :: "hash \<Rightarrow> hash option"
  v_committed :: "hash \<Rightarrow> hash option"

definition strie :: "'t host \<Rightarrow> 't stateObject \<Rightarrow> 't option" where
  "strie h c = fst (getTrie h c)"

definition slot :: "'t host \<Rightarrow> 't option \<Rightarrow> hash \<Rightarrow> hash option" where
  "slot h tr key =
     (case tr of None \<Rightarrow> None
      | Some t \<Rightarrow>
          (case TryGet h t (hash_Bytes key) of
             (enc, Some err) \<Rightarrow> Some 0
           | (enc, None) \<Rightarrow>
               (if enc = [] then Some 0
                else map_option (case_sum (\<lambda>e. 0) (\<lambda>(k, content, rest). BytesToHash content)) (Split enc))))"

definition committed :: "'t host \<Rightarrow> 't stateObject \<Rightarrow> hash \<Rightarrow> hash option" where
  "committed h c key =
     (case originStorage c key of Some v \<Rightarrow> Some v | None \<Rightarrow> slot h (strie h c) key)"

definition current :: "'t host \<Rightarrow> 't stateObject \<Rightarrow> hash \<Rightarrow> hash option" where
  "current h c key = (case dirtyStorage c key of Some v \<Rightarrow> Some v | None \<Rightarrow> committed h c key)"

definition code_of :: "'t host \<Rightarrow> 't stateObject \<Rightarrow> bytes option" where
  "code_of h c = fst (so_Code h c)"

definition oview :: "'t host \<Rightarrow> 't stateObject \<Rightarrow> 't acct" where
  "oview h c =
     \<lparr>v_nonce = acc_Nonce (so_data c), v_balance = acc_Balance (so_data c), v_root = acc_Root (so_data c),
      v_codehash = acc_CodeHash (so_data c), v_code = code_of h c, v_suicided = suicided c,
      v_trie = strie h c, v_state = current h c, v_committed = committed h c\<rparr>"

lemma oview_sel [simp]:
  "v_nonce (oview h c) = acc_Nonce (so_data c)"
  "v_balance (oview h c) = acc_Balance (so_data c)"
  "v_root (oview h c) = acc_Root (so_data c)"
  "v_codehash (oview h c) = acc_CodeHash (so_data c)"
  "v_code (oview h c) = code_of h c"
  "v_suicided (oview h c) = suicided c"
  "v_trie (oview h c) = strie h c"
  "v_state (oview h c) = current h c"
  "v_committed (oview h c) = committed h c"
  by (simp_all add: oview_def)

text \<open>Two objects that only differ in their caches.\<close>

definition same_obj :: "'t host \<Rightarrow> 't stateObject \<Rightarrow> 't stateObject \<Rightarrow> bool" where
  "same_obj h c c' \<longleftrightarrow> oview h c' = oview h c \<and> so_address c' = so_address c
     \<and> so_addrHash c' = so_addrHash c \<and> deleted c' = deleted c"

lemma same_obj_refl [simp]: "same_obj h c c"
  by (simp add: same_obj_def)

lemma same_obj_trans: "same_obj h a b \<Longrightarrow> same_obj h b c \<Longrightarrow> same_obj h a c"
  by (simp add: same_obj_def)

lemma so_setError_sel [simp]:
  "so_address (so_setError e c) = so_address c" "so_addrHash (so_setError e c) = so_addrHash c"
  "so_data (so_setError e c) = so_data c" "so_trie (so_setError e c) = so_trie c"
  "so_code (so_setError e c) = so_code c" "originStorage (so_setError e c) = originStorage c"
  "dirtyStorage (so_setError e c) = dirtyStorage c" "dirtyCode (so_setError e c) = dirtyCode c"
  "suicided (so_setError e c) = suicided c" "deleted (so_setError e c) = deleted c"
  by (simp_all add: so_setError_def)

lemma strie_eq:
  "strie h c = (case so_trie c of Some t \<Rightarrow> Some t
     | None \<Rightarrow> (case OpenStorageTrie h (so_addrHash c) (acc_Root (so_data c)) of
                 Inr t \<Rightarrow> Some t
               | Inl _ \<Rightarrow> (case OpenStorageTrie h (so_addrHash c) 0 of Inr t \<Rightarrow> Some t | Inl _ \<Rightarrow> None)))"
  by (simp add: strie_def getTrie_def Let_def split: option.splits sum.splits)

lemma code_of_eq:
  "code_of h c = (if so_code c \<noteq> None then so_code c
     else if acc_CodeHash (so_data c) = emptyCodeHash h then None
     else fst (ContractCode h (so_addrHash c) (BytesToHash (acc_CodeHash (so_data c)))))"
  by (simp add: code_of_def so_Code_def Let_def split: prod.splits)

lemmas oview_unfold = oview_def current_def committed_def strie_eq code_of_eq fun_eq_iff

lemma getTrie_snd [simp]:
  "so_address (snd (getTrie h c)) = so_address c" "so_addrHash (snd (getTrie h c)) = so_addrHash c"
  "so_data (snd (getTrie h c)) = so_data c" "so_code (snd (getTrie h c)) = so_code c"
  "originStorage (snd (getTrie h c)) = originStorage c" "dirtyStorage (snd (getTrie h c)) = dirtyStorage c"
  "dirtyCode (snd (getTrie h c)) = dirtyCode c" "suicided (snd (getTrie h c)) = suicided c"
  "deleted (snd (getTrie h c)) = deleted c" "so_trie (snd (getTrie h c)) = strie h c"
  by (simp_all add: getTrie_def strie_def Let_def split: option.splits sum.splits)

lemma strie_cached:
  "so_trie c' = strie h c \<Longrightarrow> so_addrHash c' = so_addrHash c \<Longrightarrow> so_data c' = so_data c \<Longrightarrow>
   strie h c' = strie h c"
  by (auto simp: strie_eq split: option.splits sum.splits)

lemma same_obj_getTrie: "same_obj h c (snd (getTrie h c))"
proof -
  have t: "strie h (snd (getTrie h c)) = strie h c" by (rule strie_cached) simp_all
  show ?thesis
    by (simp add: same_obj_def oview_def current_def committed_def code_of_eq t fun_eq_iff)
qed

lemma same_obj_setError: "same_obj h c (so_setError e c)"
  by (simp add: same_obj_def oview_unfold)

lemma same_obj_origin:
  assumes "committed h c k = Some w"
  shows "same_obj h c (c\<lparr>originStorage := (originStorage c)(k \<mapsto> w)\<rparr>)"
proof -
  have "strie h (c\<lparr>originStorage := (originStorage c)(k \<mapsto> w)\<rparr>) = strie h c"
    by (simp add: strie_eq)
  then have "committed h (c\<lparr>originStorage := (originStorage c)(k \<mapsto> w)\<rparr>) = committed h c"
    using assms by (auto simp: committed_def fun_eq_iff split: option.splits)
  then show ?thesis
    by (simp add: same_obj_def oview_def current_def [abs_def] strie_eq code_of_eq)
qed

lemma same_obj_committed: "same_obj h c c' \<Longrightarrow> committed h c' = committed h c"
  unfolding same_obj_def using oview_sel(9) [of h c] oview_sel(9) [of h c'] by simp

lemma same_obj_current: "same_obj h c c' \<Longrightarrow> current h c' = current h c"
  unfolding same_obj_def using oview_sel(8) [of h c] oview_sel(8) [of h c'] by simp

text \<open>The storage getters of an object return what the object shows, and change only its caches.\<close>


lemma so_GetCommittedState_view:
  "case so_GetCommittedState h c k of
     None \<Rightarrow> committed h c k = None
   | Some (v, c') \<Rightarrow> committed h c k = Some v \<and> same_obj h c c'"
proof (cases "originStorage c k")
  case (Some v)
  then show ?thesis by (simp add: so_GetCommittedState_def committed_def)
next
  case miss: None
  obtain tr c1 where g: "getTrie h c = (tr, c1)" by fastforce
  have tr: "strie h c = tr" using g by (simp add: strie_def)
  have same: "same_obj h c c1" using same_obj_getTrie [of h c] g by simp
  have cm: "committed h c k = slot h tr k" by (simp add: committed_def miss tr)
  have cache: "same_obj h c (so_setError e c1 \<lparr>originStorage := (originStorage c1)(k \<mapsto> w)\<rparr>)"
    if w: "committed h c k = Some w" for e w
  proof -
    have s1: "same_obj h c (so_setError e c1)" by (rule same_obj_trans [OF same same_obj_setError])
    then have "committed h (so_setError e c1) k = Some w" using w by (simp add: same_obj_committed)
    from same_obj_trans [OF s1 same_obj_origin [OF this]] show ?thesis by simp
  qed
  show ?thesis
  proof (cases tr)
    case None
    then show ?thesis by (simp add: so_GetCommittedState_def miss g cm slot_def)
  next
    case (Some t)
    obtain enc err where e: "TryGet h t (hash_Bytes k) = (enc, err)" by fastforce
    consider "err \<noteq> None" | "err = None" "enc = []" | "err = None" "enc \<noteq> []" by blast
    then show ?thesis
    proof cases
      case 1
      then show ?thesis using same_obj_trans [OF same same_obj_setError]
        by (auto simp: so_GetCommittedState_def miss g cm slot_def Some e)
    next
      case 2
      then have "committed h c k = Some 0" by (simp add: cm slot_def Some e)
      with same_obj_trans [OF same same_obj_origin [of h c1 k 0]] 2 show ?thesis
        by (simp add: so_GetCommittedState_def miss g Some e same_obj_committed [OF same])
    next
      case 3
      show ?thesis
      proof (cases "Split enc")
        case None
        with 3 show ?thesis by (simp add: so_GetCommittedState_def miss g cm slot_def Some e)
      next
        case (Some r)
        note r = this
        show ?thesis
        proof (cases r)
          case (Inl x)
          then have "committed h c k = Some 0" using 3 r by (simp add: cm slot_def \<open>tr = Some t\<close> e)
          with cache [of 0 "Some (rlp_message x)"] 3 r Inl show ?thesis
            by (simp add: so_GetCommittedState_def miss g \<open>tr = Some t\<close> e BytesToHash_eq)
        next
          case (Inr y)
          obtain kd content rest where y: "y = (kd, content, rest)" by (cases y)
          then have "committed h c k = Some (BytesToHash content)"
            using 3 r Inr by (simp add: cm slot_def \<open>tr = Some t\<close> e)
          with same_obj_trans [OF same same_obj_origin [of h c1 k "BytesToHash content"]] 3 r Inr y show ?thesis
            by (simp add: so_GetCommittedState_def miss g \<open>tr = Some t\<close> e same_obj_committed [OF same])
        qed
      qed
    qed
  qed
qed

lemma so_GetState_view:
  "case so_GetState h c k of
     None \<Rightarrow> current h c k = None
   | Some (v, c') \<Rightarrow> current h c k = Some v \<and> same_obj h c c'"
proof (cases "dirtyStorage c k")
  case None
  then show ?thesis using so_GetCommittedState_view [of h c k] by (simp add: so_GetState_def current_def)
next
  case (Some v)
  then show ?thesis by (simp add: so_GetState_def current_def)
qed

lemma so_Code_snd [simp]:
  "so_address (snd (so_Code h c)) = so_address c" "so_addrHash (snd (so_Code h c)) = so_addrHash c"
  "so_data (snd (so_Code h c)) = so_data c" "so_trie (snd (so_Code h c)) = so_trie c"
  "originStorage (snd (so_Code h c)) = originStorage c" "dirtyStorage (snd (so_Code h c)) = dirtyStorage c"
  "suicided (snd (so_Code h c)) = suicided c" "deleted (snd (so_Code h c)) = deleted c"
  by (simp_all add: so_Code_def Let_def split: prod.splits)

lemma so_Code_view: "same_obj h c (snd (so_Code h c))"
proof -
  have "so_code (snd (so_Code h c)) = code_of h c"
    by (simp add: so_Code_def code_of_eq Let_def split: prod.splits)
  then have "code_of h (snd (so_Code h c)) = code_of h c"
    by (auto simp: code_of_eq [of h "snd (so_Code h c)"] code_of_eq [of h c])
  then show ?thesis
    by (simp add: same_obj_def oview_def current_def committed_def strie_eq fun_eq_iff
       )
qed

subsection \<open>The world\<close>

record 't world =
  accounts :: "address \<Rightarrow> 't acct option"
  w_refund :: u64
  w_logs :: "hash \<rightharpoonup> Log list"
  w_logSize :: u64
  w_preimages :: "hash \<rightharpoonup> bytes"
  w_thash :: hash
  w_bhash :: hash
  w_txIndex :: int

definition load_obj :: "'t host \<Rightarrow> 't \<Rightarrow> address \<Rightarrow> 't stateObject option" where
  "load_obj h t a =
     (let enc = fst (TryGet h t (addr_Bytes a))
      in if enc = [] then None else map_option (newObject h a) (DecodeAccount h enc))"

definition find_obj :: "'t StateDB \<Rightarrow> address \<Rightarrow> 't stateObject option" where
  "find_obj s a =
     (case stateObjects s a of
        Some c \<Rightarrow> if deleted c then None else Some c
      | None \<Rightarrow> load_obj (sdb_db s) (sdb_trie s) a)"

definition world_of :: "'t StateDB \<Rightarrow> 't world" where
  "world_of s = \<lparr>accounts = (\<lambda>a. map_option (oview (sdb_db s)) (find_obj s a)),
            w_refund = refund s, w_logs = logs s, w_logSize = logSize s, w_preimages = preimages s,
            w_thash = thash s, w_bhash = bhash s, w_txIndex = txIndex s\<rparr>"

lemma world_of_sel [simp]:
  "accounts (world_of s) a = map_option (oview (sdb_db s)) (find_obj s a)"
  "w_refund (world_of s) = refund s" "w_logs (world_of s) = logs s" "w_logSize (world_of s) = logSize s"
  "w_preimages (world_of s) = preimages s" "w_thash (world_of s) = thash s" "w_bhash (world_of s) = bhash s"
  "w_txIndex (world_of s) = txIndex s"
  by (simp_all add: world_of_def)

text \<open>The host's promises: the empty storage trie opens and is empty, storage values are shorter than
  \<open>2 ^ 64\<close> bytes, and \<open>ContractCodeSize\<close> is the length of \<open>ContractCode\<close>, which is empty for the empty hash.
  \<open>trie_ok\<close> is a fact about one account trie: the accounts in it have code hashes of 32 bytes.\<close>

definition host_ok :: "'t host \<Rightarrow> bool" where
  "host_ok h \<longleftrightarrow>
     (\<forall>ah. \<exists>t. OpenStorageTrie h ah 0 = Inr t \<and> (\<forall>k. TryGet h t k = ([], None)))
   \<and> (\<forall>t k. length (fst (TryGet h t k)) < 2 ^ 64)
   \<and> (\<forall>ah c. fst (ContractCodeSize h ah c) = int (length (case fst (ContractCode h ah c) of None \<Rightarrow> [] | Some x \<Rightarrow> x)))
   \<and> (\<forall>ah. fst (ContractCodeSize h ah (keccak256 h [])) = 0)"

definition trie_ok :: "'t host \<Rightarrow> 't \<Rightarrow> bool" where
  "trie_ok h t \<longleftrightarrow> (\<forall>a c. load_obj h t a = Some c \<longrightarrow> length (acc_CodeHash (so_data c)) = 32)"

definition obj_ok :: "'t host \<Rightarrow> 't stateObject \<Rightarrow> bool" where
  "obj_ok h c \<longleftrightarrow> so_addrHash c = keccak256 h (addr_Bytes (so_address c)) \<and> length (acc_CodeHash (so_data c)) = 32"

definition entry_ok :: "'t host \<Rightarrow> 't journalEntry \<Rightarrow> bool" where
  "entry_ok h e = (case e of
      resetObjectChange p \<Rightarrow> obj_ok h p \<and> \<not> deleted p
    | codeChange a pc ph \<Rightarrow> length ph = 32
    | _ \<Rightarrow> True)"

definition state_ok :: "'t StateDB \<Rightarrow> bool" where
  "state_ok s \<longleftrightarrow> host_ok (sdb_db s) \<and> trie_ok (sdb_db s) (sdb_trie s)
     \<and> (\<forall>a c. stateObjects s a = Some c \<longrightarrow> so_address c = a \<and> obj_ok (sdb_db s) c
          \<and> (deleted c \<longrightarrow> load_obj (sdb_db s) (sdb_trie s) a = None))
     \<and> (\<forall>e \<in> set (entries (sdb_journal s)). entry_ok (sdb_db s) e)
     \<and> (\<forall>th. logs s th \<noteq> Some [])"

lemma world_of_eqI:
  assumes "\<And>a. accounts (world_of s) a = accounts w a"
    "refund s = w_refund w" "logs s = w_logs w" "logSize s = w_logSize w" "preimages s = w_preimages w"
    "thash s = w_thash w" "bhash s = w_bhash w" "txIndex s = w_txIndex w"
  shows "world_of s = w"
  using assms by (cases w) (simp add: world_of_def fun_eq_iff)


subsection \<open>Reading through the caches\<close>

text \<open>A step that only fills caches.\<close>

definition cached :: "'t StateDB \<Rightarrow> 't StateDB \<Rightarrow> bool" where
  "cached s s' \<longleftrightarrow> world_of s' = world_of s \<and> sdb_db s' = sdb_db s \<and> sdb_trie s' = sdb_trie s
     \<and> sdb_journal s' = sdb_journal s \<and> validRevisions s' = validRevisions s
     \<and> nextRevisionId s' = nextRevisionId s \<and> stateObjectsDirty s' = stateObjectsDirty s \<and> state_ok s'"

lemma cached_refl: "state_ok s \<Longrightarrow> cached s s"
  by (simp add: cached_def)

lemma cached_trans: "cached s s1 \<Longrightarrow> cached s1 s2 \<Longrightarrow> cached s s2"
  by (simp add: cached_def)

lemma cached_ok: "cached s s' \<Longrightarrow> state_ok s'"
  by (simp add: cached_def)

lemma sdb_setError_sel [simp]:
  "sdb_db (sdb_setError e s) = sdb_db s" "sdb_trie (sdb_setError e s) = sdb_trie s"
  "stateObjects (sdb_setError e s) = stateObjects s" "stateObjectsDirty (sdb_setError e s) = stateObjectsDirty s"
  "refund (sdb_setError e s) = refund s" "logs (sdb_setError e s) = logs s" "logSize (sdb_setError e s) = logSize s"
  "preimages (sdb_setError e s) = preimages s" "thash (sdb_setError e s) = thash s" "bhash (sdb_setError e s) = bhash s"
  "txIndex (sdb_setError e s) = txIndex s" "sdb_journal (sdb_setError e s) = sdb_journal s"
  "validRevisions (sdb_setError e s) = validRevisions s" "nextRevisionId (sdb_setError e s) = nextRevisionId s"
  by (simp_all add: sdb_setError_def)

lemma find_obj_cong:
  "stateObjects s' = stateObjects s \<Longrightarrow> sdb_db s' = sdb_db s \<Longrightarrow> sdb_trie s' = sdb_trie s \<Longrightarrow>
   find_obj s' = find_obj s"
  by (simp add: find_obj_def [abs_def])

lemma find_obj_setError [simp]: "find_obj (sdb_setError e s) = find_obj s"
  by (rule find_obj_cong) simp_all

lemma cached_setError: "state_ok s \<Longrightarrow> cached s (sdb_setError e s)"
  by (simp add: cached_def world_of_def state_ok_def)

lemma setStateObject_sel [simp]:
  "sdb_db (setStateObject c s) = sdb_db s" "sdb_trie (setStateObject c s) = sdb_trie s"
  "stateObjects (setStateObject c s) = (stateObjects s)(so_address c \<mapsto> c)"
  "stateObjectsDirty (setStateObject c s) = stateObjectsDirty s"
  "refund (setStateObject c s) = refund s" "logs (setStateObject c s) = logs s" "logSize (setStateObject c s) = logSize s"
  "preimages (setStateObject c s) = preimages s" "thash (setStateObject c s) = thash s" "bhash (setStateObject c s) = bhash s"
  "txIndex (setStateObject c s) = txIndex s" "sdb_journal (setStateObject c s) = sdb_journal s"
  "validRevisions (setStateObject c s) = validRevisions s" "nextRevisionId (setStateObject c s) = nextRevisionId s"
  by (simp_all add: setStateObject_def)

lemma find_obj_set: "\<not> deleted c \<Longrightarrow> find_obj (setStateObject c s) = (find_obj s)(so_address c \<mapsto> c)"
  by (auto simp: find_obj_def fun_eq_iff)

definition w_put :: "address \<Rightarrow> 't acct \<Rightarrow> 't world \<Rightarrow> 't world" where
  "w_put a v w = w\<lparr>accounts := (accounts w)(a := Some v)\<rparr>"

lemma w_put_sel [simp]:
  "accounts (w_put a v w) = (accounts w)(a := Some v)" "w_refund (w_put a v w) = w_refund w"
  "w_logs (w_put a v w) = w_logs w" "w_logSize (w_put a v w) = w_logSize w"
  "w_preimages (w_put a v w) = w_preimages w" "w_thash (w_put a v w) = w_thash w"
  "w_bhash (w_put a v w) = w_bhash w" "w_txIndex (w_put a v w) = w_txIndex w"
  by (simp_all add: w_put_def)

lemma w_put_put [simp]: "w_put a v (w_put a u w) = w_put a v w"
  by (simp add: w_put_def)

lemma w_put_same: "accounts w a = Some v \<Longrightarrow> w_put a v w = w"
  by (cases w) (auto simp: w_put_def fun_upd_idem)

lemma world_of_set:
  "\<not> deleted c \<Longrightarrow> world_of (setStateObject c s) = w_put (so_address c) (oview (sdb_db s) c) (world_of s)"
  by (rule world_of_eqI) (simp_all add: find_obj_set)

lemma state_ok_set: "state_ok s \<Longrightarrow> obj_ok (sdb_db s) c \<Longrightarrow> \<not> deleted c \<Longrightarrow> state_ok (setStateObject c s)"
  by (auto simp: state_ok_def)

lemma obj_ok_load: "trie_ok h t \<Longrightarrow> load_obj h t a = Some c \<Longrightarrow> obj_ok h c"
  by (auto simp: trie_ok_def obj_ok_def) (auto simp: load_obj_def newObject_def Let_def split: if_splits)

lemma find_obj_ok:
  assumes "state_ok s" "find_obj s a = Some c"
  shows "so_address c = a" "obj_ok (sdb_db s) c" "\<not> deleted c"
proof -
  show "so_address c = a" using assms
    by (auto simp: state_ok_def find_obj_def load_obj_def newObject_def Let_def split: option.splits if_splits)
  show "obj_ok (sdb_db s) c" using assms
    by (auto simp: state_ok_def find_obj_def split: option.splits if_splits intro: obj_ok_load)
  show "\<not> deleted c" using assms
    by (auto simp: find_obj_def load_obj_def newObject_def Let_def split: option.splits if_splits)
qed

lemma getStateObject_find:
  assumes "state_ok s"
  obtains s' where "getStateObject a s = (find_obj s a, s')" "cached s s'"
    "find_obj s' = find_obj s" "\<And>c. find_obj s a = Some c \<Longrightarrow> stateObjects s' a = Some c"
proof (cases "stateObjects s a")
  case (Some c)
  then show ?thesis
    using assms by (intro that [of s]) (auto simp: getStateObject_def find_obj_def cached_refl split: if_splits)
next
  case None
  obtain enc err where e: "TryGet (sdb_db s) (sdb_trie s) (addr_Bytes a) = (enc, err)" by fastforce
  consider "enc = []" | "enc \<noteq> []" "DecodeAccount (sdb_db s) enc = None"
    | d where "enc \<noteq> []" "DecodeAccount (sdb_db s) enc = Some d" by blast
  then show ?thesis
  proof cases
    case 1
    then show ?thesis using assms None e
      by (intro that [of "sdb_setError err s"])
        (simp_all add: getStateObject_def find_obj_def load_obj_def cached_setError)
  next
    case 2
    then show ?thesis using assms None e
      by (intro that [of s]) (simp_all add: getStateObject_def find_obj_def load_obj_def cached_refl Let_def)
  next
    case 3
    define c where "c = newObject (sdb_db s) a d"
    have f: "find_obj s a = Some c" using None e 3 by (simp add: find_obj_def load_obj_def c_def)
    note ok = find_obj_ok [OF assms f]
    have s': "getStateObject a s = (Some c, setStateObject c s)"
      using None e 3 by (simp add: getStateObject_def c_def Let_def)
    have "world_of (setStateObject c s) = world_of s"
      using ok f by (simp add: world_of_set w_put_same)
    then have "cached s (setStateObject c s)"
      using assms ok by (simp add: cached_def state_ok_set)
    then show ?thesis using s' f ok
      by (intro that [of "setStateObject c s"]) (simp_all add: find_obj_set fun_upd_idem)
  qed
qed


subsection \<open>What the setters of an object show\<close>

lemma oview_setBalance [simp]: "oview h (setBalance n c) = (oview h c)\<lparr>v_balance := n\<rparr>"
  by (simp add: setBalance_def oview_unfold)

lemma oview_setNonce [simp]: "oview h (setNonce n c) = (oview h c)\<lparr>v_nonce := n\<rparr>"
  by (simp add: setNonce_def oview_unfold)

lemma oview_suicided [simp]: "oview h (c\<lparr>suicided := b\<rparr>) = (oview h c)\<lparr>v_suicided := b\<rparr>"
  by (simp add: oview_unfold)

lemma oview_markSuicided [simp]: "oview h (markSuicided c) = (oview h c)\<lparr>v_suicided := True\<rparr>"
  by (simp add: markSuicided_def)

lemma oview_setState [simp]:
  "oview h (setState k v c) = (oview h c)\<lparr>v_state := (current h c)(k := Some v)\<rparr>"
  by (auto simp: setState_def oview_unfold)

definition recode :: "'t host \<Rightarrow> address \<Rightarrow> hash \<Rightarrow> bytes option \<Rightarrow> bytes option" where
  "recode h a codeHash code =
     (if code \<noteq> None then code else if hash_Bytes codeHash = emptyCodeHash h then None
      else fst (ContractCode h (keccak256 h (addr_Bytes a)) codeHash))"

lemma BytesToHash_hash_Bytes [simp]: "BytesToHash (hash_Bytes x) = x"
  using uint_bounded [of x] by (simp add: BytesToHash_eq hash_Bytes_def SetBytes_be_bytes)

lemma hash_Bytes_BytesToHash: "length b = 32 \<Longrightarrow> hash_Bytes (BytesToHash b) = b"
  using SetBytes_bounds [of b] be_bytes_SetBytes [of b]
  by (simp add: BytesToHash_eq hash_Bytes_def uint_word_of_int)

lemma oview_setCode:
  "obj_ok h c \<Longrightarrow> oview h (setCode codeHash code c) =
     (oview h c)\<lparr>v_codehash := hash_Bytes codeHash, v_code := recode h (so_address c) codeHash code\<rparr>"
  by (simp add: setCode_def oview_unfold recode_def obj_ok_def)

lemma setter_sel [simp]:
  "so_address (setBalance n c) = so_address c" "so_address (setNonce m c) = so_address c"
  "so_address (setState k v c) = so_address c" "so_address (setCode ch co c) = so_address c"
  "so_address (markSuicided c) = so_address c"
  "deleted (setBalance n c) = deleted c" "deleted (setNonce m c) = deleted c"
  "deleted (setState k v c) = deleted c" "deleted (setCode ch co c) = deleted c"
  "deleted (markSuicided c) = deleted c"
  "obj_ok h (setBalance n c) = obj_ok h c" "obj_ok h (setNonce m c) = obj_ok h c"
  "obj_ok h (setState k v c) = obj_ok h c" "obj_ok h (markSuicided c) = obj_ok h c"
  "obj_ok h (c\<lparr>suicided := b\<rparr>) = obj_ok h c"
  by (simp_all add: setBalance_def setNonce_def setState_def setCode_def markSuicided_def obj_ok_def)

lemma obj_ok_setCode: "obj_ok h c \<Longrightarrow> obj_ok h (setCode ch co c)"
  by (simp add: obj_ok_def setCode_def hash_Bytes_def)

lemma same_obj_ok: "same_obj h c c' \<Longrightarrow> obj_ok h c \<Longrightarrow> obj_ok h c'"
  by (auto simp: same_obj_def obj_ok_def oview_def)

subsection \<open>Undoing, abstractly\<close>

definition w_update :: "address \<Rightarrow> ('t acct \<Rightarrow> 't acct) \<Rightarrow> 't world \<Rightarrow> 't world option" where
  "w_update a f w = map_option (\<lambda>v. w_put a (f v) w) (accounts w a)"

fun w_undo :: "'t host \<Rightarrow> 't \<Rightarrow> 't journalEntry \<Rightarrow> 't world \<Rightarrow> 't world option" where
  "w_undo h tr (createObjectChange a) w =
     Some (w\<lparr>accounts := (accounts w)(a := map_option (oview h) (load_obj h tr a))\<rparr>)"
| "w_undo h tr (resetObjectChange p) w = Some (w_put (so_address p) (oview h p) w)"
| "w_undo h tr (suicideChange a prev bal) w =
     (case w_update a (\<lambda>v. v\<lparr>v_suicided := prev, v_balance := bal\<rparr>) w of None \<Rightarrow> Some w | Some w' \<Rightarrow> Some w')"
| "w_undo h tr (touchChange a p q) w = Some w"
| "w_undo h tr (balanceChange a prev) w = w_update a (\<lambda>v. v\<lparr>v_balance := prev\<rparr>) w"
| "w_undo h tr (nonceChange a prev) w = w_update a (\<lambda>v. v\<lparr>v_nonce := prev\<rparr>) w"
| "w_undo h tr (codeChange a prevcode prevhash) w =
     w_update a (\<lambda>v. v\<lparr>v_codehash := hash_Bytes (BytesToHash prevhash),
                       v_code := recode h a (BytesToHash prevhash) prevcode\<rparr>) w"
| "w_undo h tr (storageChange a k prev) w =
     w_update a (\<lambda>v. v\<lparr>v_state := (v_state v)(k := Some prev)\<rparr>) w"
| "w_undo h tr (refundChange prev) w = Some (w\<lparr>w_refund := prev\<rparr>)"
| "w_undo h tr (addLogChange th) w =
     (let ls = log_list (w_logs w) th
      in if length ls = 1 then Some (w\<lparr>w_logs := (w_logs w)(th := None), w_logSize := w_logSize w - 1\<rparr>)
         else if ls = [] then None
         else Some (w\<lparr>w_logs := (w_logs w)(th \<mapsto> butlast ls), w_logSize := w_logSize w - 1\<rparr>))"
| "w_undo h tr (addPreimageChange hsh) w = Some (w\<lparr>w_preimages := (w_preimages w)(hsh := None)\<rparr>)"

fun w_undos :: "'t host \<Rightarrow> 't \<Rightarrow> 't journalEntry list \<Rightarrow> 't world \<Rightarrow> 't world option" where
  "w_undos h tr [] w = Some w"
| "w_undos h tr (e # es) w = do { w' \<leftarrow> w_undo h tr e w; w_undos h tr es w' }"

lemma w_undos_append: "w_undos h tr (es @ fs) w = do { w' \<leftarrow> w_undos h tr es w; w_undos h tr fs w' }"
proof (induction es arbitrary: w)
  case (Cons e es)
  then show ?case by (cases "w_undo h tr e w") simp_all
qed simp

text \<open>What the journal does not touch when it undoes an entry.\<close>

definition same_frame :: "'t StateDB \<Rightarrow> 't StateDB \<Rightarrow> bool" where
  "same_frame s s' \<longleftrightarrow> sdb_db s' = sdb_db s \<and> sdb_trie s' = sdb_trie s \<and> sdb_journal s' = sdb_journal s
     \<and> validRevisions s' = validRevisions s \<and> nextRevisionId s' = nextRevisionId s"

lemma same_frame_cached: "cached s s' \<Longrightarrow> same_frame s s'"
  by (simp add: cached_def same_frame_def)

lemma update_object_view:
  assumes ok: "state_ok s" and f: "\<And>c. obj_ok (sdb_db s) c \<Longrightarrow> so_address c = a \<Longrightarrow> oview (sdb_db s) (f c) = g (oview (sdb_db s) c)"
    "\<And>c. obj_ok (sdb_db s) c \<Longrightarrow> so_address c = a \<Longrightarrow> so_address (f c) = a \<and> deleted (f c) = deleted c \<and> obj_ok (sdb_db s) (f c)"
  shows "case update_object a f s of
      None \<Rightarrow> w_update a g (world_of s) = None
    | Some s' \<Rightarrow> w_update a g (world_of s) = Some (world_of s') \<and> state_ok s' \<and> same_frame s s'"
proof -
  obtain s1 where g: "getStateObject a s = (find_obj s a, s1)" "cached s s1"
    by (rule getStateObject_find [OF ok])
  show ?thesis
  proof (cases "find_obj s a")
    case None
    then show ?thesis by (simp add: update_object_def g w_update_def)
  next
    case (Some c)
    note c = find_obj_ok [OF ok Some]
    have fc: "so_address (f c) = a" "\<not> deleted (f c)" "obj_ok (sdb_db s) (f c)"
      using f(2) [OF c(2) c(1)] c(3) by simp_all
    have s1: "sdb_db s1 = sdb_db s" "world_of s1 = world_of s" "state_ok s1"
      using g(2) by (simp_all add: cached_def)
    have u: "update_object a f s = Some (setStateObject (f c) s1)"
      by (simp add: update_object_def g Some)
    have "world_of (setStateObject (f c) s1) = w_put a (g (oview (sdb_db s) c)) (world_of s)"
      using fc s1 f(1) [OF c(2) c(1)] by (simp add: world_of_set)
    moreover have "state_ok (setStateObject (f c) s1)" using fc s1 by (simp add: state_ok_set)
    moreover have "same_frame s (setStateObject (f c) s1)"
      using g(2) by (simp add: cached_def same_frame_def)
    ultimately show ?thesis by (simp add: u w_update_def Some)
  qed
qed

lemma entry_revert_view:
  assumes ok: "state_ok s" and e: "entry_ok (sdb_db s) e"
  shows "case entry_revert e s of
      None \<Rightarrow> w_undo (sdb_db s) (sdb_trie s) e (world_of s) = None
    | Some s' \<Rightarrow> w_undo (sdb_db s) (sdb_trie s) e (world_of s) = Some (world_of s') \<and> state_ok s' \<and> same_frame s s'"
proof (cases e)
  case (createObjectChange a)
  define s' where "s' = s\<lparr>stateObjects := (stateObjects s)(a := None), stateObjectsDirty := stateObjectsDirty s - {a}\<rparr>"
  have "find_obj s' = (find_obj s)(a := load_obj (sdb_db s) (sdb_trie s) a)"
    by (auto simp: s'_def find_obj_def fun_eq_iff)
  then have "world_of s' = (world_of s)\<lparr>accounts := (accounts (world_of s))(a := map_option (oview (sdb_db s)) (load_obj (sdb_db s) (sdb_trie s) a))\<rparr>"
    by (intro world_of_eqI) (simp_all, simp_all add: s'_def)
  moreover have "state_ok s'" using ok by (auto simp: state_ok_def s'_def)
  moreover have "same_frame s s'" by (simp add: same_frame_def s'_def)
  ultimately show ?thesis by (simp add: createObjectChange s'_def)
next
  case (resetObjectChange p)
  then show ?thesis using ok e
    by (simp add: entry_ok_def world_of_set state_ok_set same_frame_def)
next
  case (suicideChange a prev bal)
  obtain s1 where g: "getStateObject a s = (find_obj s a, s1)" "cached s s1"
    by (rule getStateObject_find [OF ok])
  have s1: "sdb_db s1 = sdb_db s" "world_of s1 = world_of s" "state_ok s1" "same_frame s s1"
    using g(2) by (simp_all add: cached_def same_frame_def)
  show ?thesis
  proof (cases "find_obj s a")
    case None
    then show ?thesis using s1 by (simp add: suicideChange g w_update_def)
  next
    case (Some c)
    note c = find_obj_ok [OF ok Some]
    define c' where "c' = setBalance bal (c\<lparr>suicided := prev\<rparr>)"
    have c': "so_address c' = a" "\<not> deleted c'" "obj_ok (sdb_db s) c'"
      "oview (sdb_db s) c' = (oview (sdb_db s) c)\<lparr>v_suicided := prev, v_balance := bal\<rparr>"
      using c by (simp_all add: c'_def)
    have "world_of (setStateObject c' s1) = w_put a (oview (sdb_db s) c') (world_of s)"
      using c' s1 by (simp add: world_of_set)
    moreover have "state_ok (setStateObject c' s1)" "same_frame s (setStateObject c' s1)"
      using c' s1 by (simp_all add: state_ok_set same_frame_def)
    ultimately show ?thesis using c' Some by (simp add: suicideChange g w_update_def c'_def)
  qed
next
  case (balanceChange a prev)
  then show ?thesis
    using update_object_view [OF ok, of a "setBalance prev" "\<lambda>v. v\<lparr>v_balance := prev\<rparr>"] by simp
next
  case (nonceChange a prev)
  then show ?thesis
    using update_object_view [OF ok, of a "setNonce prev" "\<lambda>v. v\<lparr>v_nonce := prev\<rparr>"] by simp
next
  case (storageChange a k prev)
  then show ?thesis
    using update_object_view [OF ok, of a "setState k prev" "\<lambda>v. v\<lparr>v_state := (v_state v)(k := Some prev)\<rparr>"] by simp
next
  case (codeChange a pc ph)
  define f where "f = (\<lambda>c :: 'a stateObject. setCode (BytesToHash ph) pc c)"
  define g where "g = (\<lambda>v :: 'a acct. v\<lparr>v_codehash := hash_Bytes (BytesToHash ph),
                       v_code := recode (sdb_db s) a (BytesToHash ph) pc\<rparr>)"
  show ?thesis
    using update_object_view [OF ok, of a f g] obj_ok_setCode [of "sdb_db s"] codeChange
    by (simp add: f_def g_def oview_setCode)
next
  case (refundChange prev)
  then show ?thesis using ok
    by (simp add: same_frame_def world_of_def state_ok_def find_obj_def)
next
  case (addLogChange th)
  show ?thesis
    using ok by (auto simp: addLogChange Let_def same_frame_def world_of_def state_ok_def find_obj_def log_list_def
        length_Suc_conv le_Suc_eq butlast_conv_take split: option.splits)
next
  case (addPreimageChange hsh)
  then show ?thesis using ok
    by (simp add: same_frame_def world_of_def state_ok_def find_obj_def)
next
  case (touchChange a p q)
  then show ?thesis using ok by (simp add: same_frame_def)
qed


subsection \<open>Extending the journal\<close>

definition dcount :: "'t journalEntry list \<Rightarrow> address \<Rightarrow> int" where
  "dcount es a = int (length (filter (\<lambda>e. dirtied e = Some a) es))"

text \<open>
  The dirty counters count the entries of the journal by account (apart from the account \<open>ripemd\<close>,
  which \<open>touch\<close> marks dirty for good), and the revisions point into the journal in order.
\<close>

definition journal_ok :: "'t StateDB \<Rightarrow> bool" where
  "journal_ok s \<longleftrightarrow>
     (\<forall>a. a \<noteq> ripemd \<longrightarrow> dirties (sdb_journal s) a =
        (if dcount (entries (sdb_journal s)) a = 0 then None else Some (dcount (entries (sdb_journal s)) a)))
   \<and> sorted_wrt (\<lambda>r r'. rev_id r < rev_id r' \<and> journalIndex r \<le> journalIndex r') (validRevisions s)
   \<and> (\<forall>r \<in> set (validRevisions s). rev_id r < nextRevisionId s \<and> journalIndex r \<le> length (entries (sdb_journal s)))"

definition extends :: "'t StateDB \<Rightarrow> 't StateDB \<Rightarrow> bool" where
  "extends s s' \<longleftrightarrow> sdb_db s' = sdb_db s \<and> sdb_trie s' = sdb_trie s \<and> state_ok s' \<and> journal_ok s'
   \<and> nextRevisionId s \<le> nextRevisionId s'
   \<and> (\<exists>es. entries (sdb_journal s') = entries (sdb_journal s) @ es
         \<and> w_undos (sdb_db s) (sdb_trie s) (rev es) (world_of s') = Some (world_of s))
   \<and> (\<exists>rs. validRevisions s' = validRevisions s @ rs
         \<and> (\<forall>r \<in> set rs. nextRevisionId s \<le> rev_id r \<and> length (entries (sdb_journal s)) \<le> journalIndex r))"

lemma extendsD:
  assumes "extends s s'"
  shows "sdb_db s' = sdb_db s" "sdb_trie s' = sdb_trie s" "state_ok s'" "journal_ok s'"
  using assms by (simp_all add: extends_def)

lemma extends_refl: "state_ok s \<Longrightarrow> journal_ok s \<Longrightarrow> extends s s"
  by (simp add: extends_def)

lemma extends_trans [trans]:
  assumes "extends s s1" "extends s1 s2"
  shows "extends s s2"
proof -
  obtain es rs where 1: "entries (sdb_journal s1) = entries (sdb_journal s) @ es"
    "w_undos (sdb_db s) (sdb_trie s) (rev es) (world_of s1) = Some (world_of s)"
    "validRevisions s1 = validRevisions s @ rs"
    "\<forall>r \<in> set rs. nextRevisionId s \<le> rev_id r \<and> length (entries (sdb_journal s)) \<le> journalIndex r"
    using assms(1) by (auto simp: extends_def)
  obtain es' rs' where 2: "entries (sdb_journal s2) = entries (sdb_journal s1) @ es'"
    "w_undos (sdb_db s) (sdb_trie s) (rev es') (world_of s2) = Some (world_of s1)"
    "validRevisions s2 = validRevisions s1 @ rs'"
    "\<forall>r \<in> set rs'. nextRevisionId s1 \<le> rev_id r \<and> length (entries (sdb_journal s1)) \<le> journalIndex r"
    using assms by (auto simp: extends_def)
  have "w_undos (sdb_db s) (sdb_trie s) (rev (es @ es')) (world_of s2) = Some (world_of s)"
    using 1 2 by (simp add: w_undos_append)
  moreover have "entries (sdb_journal s2) = entries (sdb_journal s) @ (es @ es')" using 1 2 by simp
  moreover have "validRevisions s2 = validRevisions s @ (rs @ rs')" using 1 2 by simp
  moreover have "\<forall>r \<in> set (rs @ rs'). nextRevisionId s \<le> rev_id r \<and> length (entries (sdb_journal s)) \<le> journalIndex r"
    using 1 2 assms(1) by (auto simp: extends_def)
  ultimately show ?thesis using assms by (auto simp: extends_def)
qed

lemma journal_ok_cong:
  "sdb_journal s' = sdb_journal s \<Longrightarrow> validRevisions s' = validRevisions s \<Longrightarrow>
   nextRevisionId s' = nextRevisionId s \<Longrightarrow> journal_ok s \<Longrightarrow> journal_ok s'"
  by (simp add: journal_ok_def)

lemma extends_cached: "journal_ok s \<Longrightarrow> cached s s' \<Longrightarrow> extends s s'"
  by (auto simp: extends_def cached_def intro: journal_ok_cong)

lemma dcount_append [simp]:
  "dcount (es @ fs) a = dcount es a + dcount fs a" "dcount [] a = 0"
  "dcount [e] a = (if dirtied e = Some a then 1 else 0)" "0 \<le> dcount es a"
  by (simp_all add: dcount_def)

lemma entries_append [simp]: "entries (journal_append e j) = entries j @ [e]"
  by (simp add: journal_append_def Let_def split: option.split)

lemma journal_ok_append:
  assumes "journal_ok s" "validRevisions s' = validRevisions s" "nextRevisionId s' = nextRevisionId s"
    "sdb_journal s' = journal_append e (sdb_journal s)"
  shows "journal_ok s'"
proof -
  have "dirties (sdb_journal s') a =
        (if dcount (entries (sdb_journal s')) a = 0 then None else Some (dcount (entries (sdb_journal s')) a))"
    if "a \<noteq> ripemd" for a
  proof -
    have d: "dirties (sdb_journal s) a =
        (if dcount (entries (sdb_journal s)) a = 0 then None else Some (dcount (entries (sdb_journal s)) a))"
      using assms(1) that by (simp add: journal_ok_def)
    have nn: "dcount (entries (sdb_journal s)) a + 1 \<noteq> 0"
      using dcount_append(4) [of "entries (sdb_journal s)" a] by linarith
    show ?thesis using d nn assms(4)
      by (auto simp: journal_append_def Let_def dirty_count_def split: option.splits if_splits)
  qed
  moreover have "\<forall>r \<in> set (validRevisions s'). rev_id r < nextRevisionId s' \<and> journalIndex r \<le> length (entries (sdb_journal s'))"
    using assms by (auto simp: journal_ok_def)
  ultimately show ?thesis using assms by (simp add: journal_ok_def)
qed

text \<open>One journaled operation: the entry it appends undoes it.\<close>

lemma extends_entry:
  assumes "journal_ok s" "state_ok s'" "sdb_db s' = sdb_db s" "sdb_trie s' = sdb_trie s"
    "validRevisions s' = validRevisions s" "nextRevisionId s' = nextRevisionId s"
    "sdb_journal s' = journal_append e (sdb_journal s)"
    "w_undo (sdb_db s) (sdb_trie s) e (world_of s') = Some (world_of s)"
  shows "extends s s'"
proof -
  have "journal_ok s'" by (rule journal_ok_append [OF assms(1)]) (simp_all add: assms)
  moreover have "\<exists>es. entries (sdb_journal s') = entries (sdb_journal s) @ es
         \<and> w_undos (sdb_db s) (sdb_trie s) (rev es) (world_of s') = Some (world_of s)"
    by (rule exI [of _ "[e]"]) (simp add: assms)
  ultimately show ?thesis using assms by (simp add: extends_def)
qed

lemma add_entry_sel [simp]:
  "sdb_db (add_entry e s) = sdb_db s" "sdb_trie (add_entry e s) = sdb_trie s"
  "stateObjects (add_entry e s) = stateObjects s" "stateObjectsDirty (add_entry e s) = stateObjectsDirty s"
  "refund (add_entry e s) = refund s" "logs (add_entry e s) = logs s" "logSize (add_entry e s) = logSize s"
  "preimages (add_entry e s) = preimages s" "thash (add_entry e s) = thash s" "bhash (add_entry e s) = bhash s"
  "txIndex (add_entry e s) = txIndex s" "sdb_journal (add_entry e s) = journal_append e (sdb_journal s)"
  "validRevisions (add_entry e s) = validRevisions s" "nextRevisionId (add_entry e s) = nextRevisionId s"
  by (simp_all add: add_entry_def)

lemma world_of_add_entry [simp]: "world_of (add_entry e s) = world_of s"
  by (simp add: world_of_def find_obj_def [abs_def])

lemma entry_ok_simps [simp]:
  "entry_ok h (createObjectChange a)" "entry_ok h (suicideChange a p b)" "entry_ok h (balanceChange a b)"
  "entry_ok h (nonceChange a n)" "entry_ok h (storageChange a k v)" "entry_ok h (refundChange r)"
  "entry_ok h (addLogChange th)" "entry_ok h (addPreimageChange hsh)" "entry_ok h (touchChange a p q)"
  by (simp_all add: entry_ok_def)

lemma state_ok_update [simp]:
  "state_ok (s\<lparr>refund := r\<rparr>) = state_ok s" "state_ok (s\<lparr>preimages := ps\<rparr>) = state_ok s"
  by (simp_all add: state_ok_def)

lemma state_ok_add_entry: "state_ok s \<Longrightarrow> entry_ok (sdb_db s) e \<Longrightarrow> state_ok (add_entry e s)"
  by (auto simp: state_ok_def)

text \<open>The common shape of the setters: an entry, then a new object under its address.\<close>

lemma set_after_entry:
  assumes ok: "state_ok s" "journal_ok s" and e: "entry_ok (sdb_db s) e"
    and c: "obj_ok (sdb_db s) c" "\<not> deleted c" "so_address c = a"
    and undo: "w_undo (sdb_db s) (sdb_trie s) e (w_put a (oview (sdb_db s) c) (world_of s)) = Some (world_of s)"
  shows "extends s (setStateObject c (add_entry e s))"
    "world_of (setStateObject c (add_entry e s)) = w_put a (oview (sdb_db s) c) (world_of s)"
proof -
  show w: "world_of (setStateObject c (add_entry e s)) = w_put a (oview (sdb_db s) c) (world_of s)"
    using c by (simp add: world_of_set)
  show "extends s (setStateObject c (add_entry e s))"
    by (rule extends_entry [where e = e]) (simp_all add: w undo ok e c state_ok_set state_ok_add_entry)
qed


subsection \<open>The operations of the database\<close>

definition blank :: "'t host \<Rightarrow> address \<Rightarrow> 't acct" where
  "blank h a = oview h (newObject h a \<lparr>ad_Nonce = 0, ad_Balance = None, ad_Root = 0, ad_CodeHash = None\<rparr>)"

definition acct :: "'t host \<Rightarrow> 't world \<Rightarrow> address \<Rightarrow> 't acct" where
  "acct h w a = (case accounts w a of None \<Rightarrow> blank h a | Some v \<Rightarrow> v)"

lemma newObject_sel [simp]:
  "so_address (newObject h a d) = a" "\<not> deleted (newObject h a d)"
  by (simp_all add: newObject_def)

lemma obj_ok_blank: "obj_ok h (newObject h a \<lparr>ad_Nonce = n, ad_Balance = b, ad_Root = r, ad_CodeHash = None\<rparr>)"
  by (simp add: obj_ok_def newObject_def emptyCodeHash_def hash_Bytes_def)

lemma blank_sel:
  assumes "host_ok h"
  shows "v_nonce (blank h a) = 0" "v_balance (blank h a) = 0" "v_codehash (blank h a) = emptyCodeHash h"
    "v_code (blank h a) = None" "\<not> v_suicided (blank h a)" "v_state (blank h a) k = Some 0"
    "v_committed (blank h a) k = Some 0"
proof -
  obtain t where "OpenStorageTrie h (keccak256 h (addr_Bytes a)) 0 = Inr t" "\<forall>k. TryGet h t k = ([], None)"
    using assms unfolding host_ok_def by blast
  then have "committed h (newObject h a \<lparr>ad_Nonce = 0, ad_Balance = None, ad_Root = 0, ad_CodeHash = None\<rparr>) k = Some 0" for k
    by (simp add: committed_def strie_eq slot_def newObject_def)
  then show "v_nonce (blank h a) = 0" "v_balance (blank h a) = 0" "v_codehash (blank h a) = emptyCodeHash h"
    "v_code (blank h a) = None" "\<not> v_suicided (blank h a)" "v_state (blank h a) k = Some 0"
    "v_committed (blank h a) k = Some 0"
    by (simp_all add: blank_def oview_def current_def) (simp_all add: newObject_def code_of_eq)
qed

lemma createObject_view:
  assumes ok: "state_ok s" "journal_ok s"
  obtains c s' where "createObject a s = (c, find_obj s a, s')" "extends s s'"
    "world_of s' = w_put a (blank (sdb_db s) a) (world_of s)"
    "so_address c = a" "\<not> deleted c" "obj_ok (sdb_db s) c" "oview (sdb_db s) c = blank (sdb_db s) a"
    "find_obj s' a = Some c"
    "\<forall>c'. so_address c' = a \<longrightarrow> \<not> deleted c' \<longrightarrow> obj_ok (sdb_db s) c' \<longrightarrow>
       extends s (setStateObject c' s') \<and> world_of (setStateObject c' s') = w_put a (oview (sdb_db s) c') (world_of s)"
proof -
  obtain s1 where g: "getStateObject a s = (find_obj s a, s1)" "cached s s1" "find_obj s1 = find_obj s"
    by (rule getStateObject_find [OF ok(1)])
  have s1: "sdb_db s1 = sdb_db s" "sdb_trie s1 = sdb_trie s" "world_of s1 = world_of s" "state_ok s1" "extends s s1"
    using g(2) extends_cached [OF ok(2) g(2)] by (simp_all add: cached_def)
  define c where "c = setNonce 0 (newObject (sdb_db s) a \<lparr>ad_Nonce = 0, ad_Balance = None, ad_Root = 0, ad_CodeHash = None\<rparr>)"
  have c: "so_address c = a" "\<not> deleted c" "obj_ok (sdb_db s) c" "oview (sdb_db s) c = blank (sdb_db s) a"
    by (simp_all add: c_def obj_ok_blank blank_def) (simp_all add: newObject_def oview_def)
  define e where "e = (case find_obj s a of None \<Rightarrow> createObjectChange a | Some p \<Rightarrow> resetObjectChange p)"
  have e: "createObject a s = (c, find_obj s a, setStateObject c (add_entry e s1))"
    by (simp add: createObject_def g s1 c_def e_def Let_def split: option.splits)
  have "entry_ok (sdb_db s) e"
    using find_obj_ok [OF ok(1), of a] by (auto simp: entry_ok_def e_def split: option.splits)
  moreover have "w_undo (sdb_db s) (sdb_trie s) e (w_put a v (world_of s)) = Some (world_of s)" for v
  proof (cases "find_obj s a")
    case None
    then have "load_obj (sdb_db s) (sdb_trie s) a = None"
      using ok(1) by (auto simp: find_obj_def state_ok_def split: option.splits if_splits)
    moreover have "w\<lparr>accounts := (accounts w)(a := None)\<rparr> = w" if "accounts w a = None" for w :: "'a world"
      using that by (cases w) (simp add: fun_upd_idem)
    ultimately show ?thesis using None by (simp add: e_def w_put_def)
  next
    case (Some p)
    then show ?thesis using find_obj_ok [OF ok(1) Some] by (simp add: e_def w_put_same)
  qed
  ultimately have x: "extends s1 (setStateObject c' (add_entry e s1))
      \<and> world_of (setStateObject c' (add_entry e s1)) = w_put a (oview (sdb_db s) c') (world_of s)"
    if "so_address c' = a" "\<not> deleted c'" "obj_ok (sdb_db s) c'" for c'
    using set_after_entry [of s1 e c' a] s1 that extendsD [OF s1(5)] by simp
  define s' where "s' = setStateObject c (add_entry e s1)"
  have over: "setStateObject c' s' = setStateObject c' (add_entry e s1)" if "so_address c' = a" for c'
    using that c(1) by (simp add: s'_def setStateObject_def)
  have "extends s s'" "world_of s' = w_put a (blank (sdb_db s) a) (world_of s)" "find_obj s' a = Some c"
    using x [OF c(1-3)] c extends_trans [OF s1(5)] by (auto simp: s'_def find_obj_set)
  moreover have "extends s (setStateObject c' s') \<and> world_of (setStateObject c' s') = w_put a (oview (sdb_db s) c') (world_of s)"
    if "so_address c' = a" "\<not> deleted c'" "obj_ok (sdb_db s) c'" for c'
    using x [OF that] extends_trans [OF s1(5)] over [OF that(1)] by simp
  ultimately show ?thesis using that e c unfolding s'_def by metis
qed

lemma GetOrNewStateObject_view:
  assumes ok: "state_ok s" "journal_ok s"
  obtains c s' where "GetOrNewStateObject a s = (c, s')" "extends s s'"
    "world_of s' = w_put a (acct (sdb_db s) (world_of s) a) (world_of s)"
    "so_address c = a" "\<not> deleted c" "obj_ok (sdb_db s) c" "oview (sdb_db s) c = acct (sdb_db s) (world_of s) a"
    "find_obj s' a = Some c"
proof -
  obtain s1 where g: "getStateObject a s = (find_obj s a, s1)" "cached s s1" "find_obj s1 = find_obj s"
    by (rule getStateObject_find [OF ok(1)])
  have s1: "sdb_db s1 = sdb_db s" "world_of s1 = world_of s" "state_ok s1" "journal_ok s1" "extends s s1"
    using g(2) extends_cached [OF ok(2) g(2)] by (simp_all add: cached_def extends_def)
  show ?thesis
  proof (cases "find_obj s a")
    case None
    obtain c s' where c: "createObject a s1 = (c, find_obj s1 a, s')" "extends s1 s'"
      "world_of s' = w_put a (blank (sdb_db s1) a) (world_of s1)"
      "so_address c = a" "\<not> deleted c" "obj_ok (sdb_db s1) c" "oview (sdb_db s1) c = blank (sdb_db s1) a"
      "find_obj s' a = Some c"
      by (rule createObject_view [OF s1(3,4)])
    show ?thesis
      using c s1 None extends_trans [OF s1(5) c(2)]
      by (intro that [of c s']) (simp_all add: GetOrNewStateObject_def g acct_def)
  next
    case (Some c)
    note c = find_obj_ok [OF ok(1) Some]
    show ?thesis
      using c s1 Some g
      by (intro that [of c s1]) (simp_all add: GetOrNewStateObject_def acct_def w_put_same)
  qed
qed

definition w_modify :: "'t host \<Rightarrow> address \<Rightarrow> ('t acct \<Rightarrow> 't acct) \<Rightarrow> 't world \<Rightarrow> 't world" where
  "w_modify h a f w = w_put a (f (acct h w a)) w"

lemma w_modify_put: "accounts w a = Some v \<Longrightarrow> w_modify h a f w = w_put a (f v) w"
  by (simp add: w_modify_def acct_def)

lemma w_modify_put_blank [simp]:
  "w_put a (f (acct h w a)) (w_put a (acct h w a) w) = w_modify h a f w"
  by (simp add: w_modify_def)

text \<open>
  Each setter runs an object method on the object of the address, created if need be. If the method
  extends the journal and shows \<open>f\<close> of the account, so does the setter.
\<close>

definition journaled ::
  "'t host \<Rightarrow> address \<Rightarrow> ('t stateObject \<Rightarrow> 't StateDB \<Rightarrow> 't StateDB) \<Rightarrow> ('t acct \<Rightarrow> 't acct) \<Rightarrow> bool" where
  "journaled h a meth f \<longleftrightarrow> (\<forall>c s. state_ok s \<longrightarrow> journal_ok s \<longrightarrow> sdb_db s = h \<longrightarrow> find_obj s a = Some c \<longrightarrow>
     extends s (meth c s) \<and> world_of (meth c s) = w_put a (f (oview h c)) (world_of s))"

lemma setter_view:
  assumes ok: "state_ok s" "journal_ok s" and m: "journaled (sdb_db s) a meth f"
  shows "extends s (let (c, s1) = GetOrNewStateObject a s in meth c s1)"
    "world_of (let (c, s1) = GetOrNewStateObject a s in meth c s1) = w_modify (sdb_db s) a f (world_of s)"
proof -
  obtain c s1 where g: "GetOrNewStateObject a s = (c, s1)" "extends s s1"
    "world_of s1 = w_put a (acct (sdb_db s) (world_of s) a) (world_of s)"
    "oview (sdb_db s) c = acct (sdb_db s) (world_of s) a" "find_obj s1 a = Some c"
    by (rule GetOrNewStateObject_view [OF ok])
  note s1 = extendsD [OF g(2)]
  have r: "extends s1 (meth c s1)" "world_of (meth c s1) = w_put a (f (oview (sdb_db s) c)) (world_of s1)"
    using m s1 g(5) by (simp_all add: journaled_def)
  show "extends s (let (c, s1) = GetOrNewStateObject a s in meth c s1)"
    using extends_trans [OF g(2) r(1)] by (simp add: g(1))
  show "world_of (let (c, s1) = GetOrNewStateObject a s in meth c s1) = w_modify (sdb_db s) a f (world_of s)"
    using r(2) by (simp add: g(1,3,4) w_modify_def)
qed

lemma journaled_SetBalance: "journaled h a (so_SetBalance n) (\<lambda>v. v\<lparr>v_balance := n\<rparr>)"
  unfolding journaled_def
proof (intro allI impI)
  fix c s assume ok: "state_ok s" "journal_ok s" "sdb_db s = h" "find_obj s a = Some c"
  note c = find_obj_ok [OF ok(1,4)]
  show "extends s (so_SetBalance n c s)
    \<and> world_of (so_SetBalance n c s) = w_put a ((oview h c)\<lparr>v_balance := n\<rparr>) (world_of s)"
    unfolding so_SetBalance_def
    using set_after_entry [OF ok(1,2), of "balanceChange a (acc_Balance (so_data c))" "setBalance n c" a] c ok
    by (simp add: entry_ok_def w_update_def w_put_same)
qed

lemma journaled_SetNonce: "journaled h a (so_SetNonce n) (\<lambda>v. v\<lparr>v_nonce := n\<rparr>)"
  unfolding journaled_def
proof (intro allI impI)
  fix c s assume ok: "state_ok s" "journal_ok s" "sdb_db s = h" "find_obj s a = Some c"
  note c = find_obj_ok [OF ok(1,4)]
  show "extends s (so_SetNonce n c s)
    \<and> world_of (so_SetNonce n c s) = w_put a ((oview h c)\<lparr>v_nonce := n\<rparr>) (world_of s)"
    unfolding so_SetNonce_def
    using set_after_entry [OF ok(1,2), of "nonceChange a (acc_Nonce (so_data c))" "setNonce n c" a] c ok
    by (simp add: entry_ok_def w_update_def w_put_same)
qed

lemma touch_view:
  assumes ok: "state_ok s" "journal_ok s"
  shows "extends s (touch c s)" "world_of (touch c s) = world_of s"
proof -
  define s1 where "s1 = add_entry (touchChange (so_address c) False False) s"
  have e: "extends s s1"
    unfolding s1_def using ok
    by (intro extends_entry [where e = "touchChange (so_address c) False False"])
      (simp_all add: state_ok_add_entry entry_ok_def)
  define s2 where "s2 = s1\<lparr>sdb_journal := journal_dirty ripemd (sdb_journal s1)\<rparr>"
  have w2: "world_of s2 = world_of s1" "entries (sdb_journal s2) = entries (sdb_journal s1)"
    by (simp_all add: s2_def world_of_def find_obj_def [abs_def] journal_dirty_def)
  have "journal_ok s2" "state_ok s2"
    using extendsD [OF e] by (auto simp: s2_def journal_ok_def journal_dirty_def state_ok_def)
  then have e2: "extends s1 s2"
    unfolding extends_def using w2 by (simp add: s2_def)
  show "extends s (touch c s)"
    using e extends_trans [OF e e2] by (simp add: touch_def Let_def s1_def [symmetric] s2_def)
  show "world_of (touch c s) = world_of s"
    using w2(1) by (simp add: touch_def Let_def s1_def [symmetric] s2_def) (simp add: s1_def)
qed


lemma w_put_balance_same:
  "sdb_db s = h \<Longrightarrow> find_obj s a = Some c \<Longrightarrow>
   w_put a ((oview h c)\<lparr>v_balance := acc_Balance (so_data c)\<rparr>) (world_of s) = world_of s"
  by (rule w_put_same) (simp add: oview_def)

lemma journaled_AddBalance: "journaled h a (so_AddBalance n) (\<lambda>v. v\<lparr>v_balance := v_balance v + n\<rparr>)"
  unfolding journaled_def
proof (intro allI impI)
  fix c s assume ok: "state_ok s" "journal_ok s" "sdb_db s = h" "find_obj s a = Some c"
  show "extends s (so_AddBalance n c s)
    \<and> world_of (so_AddBalance n c s) = w_put a ((oview h c)\<lparr>v_balance := v_balance (oview h c) + n\<rparr>) (world_of s)"
    using journaled_SetBalance [of h a "acc_Balance (so_data c) + n"] touch_view [OF ok(1,2)] ok
    by (simp add: so_AddBalance_def journaled_def extends_refl w_put_balance_same)
qed

lemma journaled_SubBalance: "journaled h a (so_SubBalance n) (\<lambda>v. v\<lparr>v_balance := v_balance v - n\<rparr>)"
  unfolding journaled_def
proof (intro allI impI)
  fix c s assume ok: "state_ok s" "journal_ok s" "sdb_db s = h" "find_obj s a = Some c"
  show "extends s (so_SubBalance n c s)
    \<and> world_of (so_SubBalance n c s) = w_put a ((oview h c)\<lparr>v_balance := v_balance (oview h c) - n\<rparr>) (world_of s)"
    using journaled_SetBalance [of h a "acc_Balance (so_data c) - n"] ok
    by (simp add: so_SubBalance_def journaled_def extends_refl w_put_balance_same)
qed

lemma journaled_SetCode:
  "journaled h a (so_SetCode ch co) (\<lambda>v. v\<lparr>v_codehash := hash_Bytes ch, v_code := recode h a ch co\<rparr>)"
  unfolding journaled_def
proof (intro allI impI)
  fix c s assume ok: "state_ok s" "journal_ok s" "sdb_db s = h" "find_obj s a = Some c"
  note c = find_obj_ok [OF ok(1,4)]
  obtain co' c1 where c1: "so_Code h c = (co', c1)" by fastforce
  have co': "co' = code_of h c" using c1 by (simp add: code_of_def)
  have same: "same_obj h c c1" using so_Code_view [of h c] c1 by simp
  have ok1: "obj_ok h c1" "so_address c1 = a" "\<not> deleted c1" "acc_CodeHash (so_data c1) = acc_CodeHash (so_data c)" "oview h c1 = oview h c"
    using same same_obj_ok [OF same] c ok(3) so_Code_snd(3) [of h c] c1 by (simp_all add: same_obj_def)
  have rc: "recode h a (BytesToHash (acc_CodeHash (so_data c))) (code_of h c) = code_of h c"
    "hash_Bytes (BytesToHash (acc_CodeHash (so_data c))) = acc_CodeHash (so_data c)"
    using c ok(3) hash_Bytes_BytesToHash [of "acc_CodeHash (so_data c)"]
    by (auto simp: recode_def code_of_eq obj_ok_def)
  have "length (acc_CodeHash (so_data c)) = 32" using c(2) by (simp add: obj_ok_def)
  then show "extends s (so_SetCode ch co c s)
    \<and> world_of (so_SetCode ch co c s) = w_put a ((oview h c)\<lparr>v_codehash := hash_Bytes ch, v_code := recode h a ch co\<rparr>) (world_of s)"
    unfolding so_SetCode_def
    using set_after_entry [OF ok(1,2), of "codeChange a co' (acc_CodeHash (so_data c))" "setCode ch co c1" a] c ok ok1 rc
    by (simp add: entry_ok_def w_update_def c1 co' oview_setCode obj_ok_setCode w_put_same)
qed

lemma SetBalance_view:
  assumes ok: "state_ok s" "journal_ok s"
  shows "extends s (SetBalance a n s)"
    "world_of (SetBalance a n s) = w_modify (sdb_db s) a (\<lambda>v. v\<lparr>v_balance := n\<rparr>) (world_of s)"
  unfolding SetBalance_def by (rule setter_view [OF ok journaled_SetBalance])+

lemma AddBalance_view:
  assumes ok: "state_ok s" "journal_ok s"
  shows "extends s (AddBalance a n s)"
    "world_of (AddBalance a n s) = w_modify (sdb_db s) a (\<lambda>v. v\<lparr>v_balance := v_balance v + n\<rparr>) (world_of s)"
  unfolding AddBalance_def by (rule setter_view [OF ok journaled_AddBalance])+

lemma SubBalance_view:
  assumes ok: "state_ok s" "journal_ok s"
  shows "extends s (SubBalance a n s)"
    "world_of (SubBalance a n s) = w_modify (sdb_db s) a (\<lambda>v. v\<lparr>v_balance := v_balance v - n\<rparr>) (world_of s)"
  unfolding SubBalance_def by (rule setter_view [OF ok journaled_SubBalance])+

lemma SetNonce_view:
  assumes ok: "state_ok s" "journal_ok s"
  shows "extends s (SetNonce a n s)"
    "world_of (SetNonce a n s) = w_modify (sdb_db s) a (\<lambda>v. v\<lparr>v_nonce := n\<rparr>) (world_of s)"
  unfolding SetNonce_def by (rule setter_view [OF ok journaled_SetNonce])+


lemma SetCode_view:
  assumes ok: "state_ok s" "journal_ok s"
  shows "extends s (SetCode a co s)"
    "world_of (SetCode a co s) = w_modify (sdb_db s) a
       (\<lambda>v. v\<lparr>v_codehash := hash_Bytes (keccak256 (sdb_db s) (case co of None \<Rightarrow> [] | Some c \<Rightarrow> c)), v_code := co\<rparr>) (world_of s)"
proof -
  define ch where "ch = keccak256 (sdb_db s) (case co of None \<Rightarrow> [] | Some c \<Rightarrow> c)"
  obtain c s1 where g: "GetOrNewStateObject a s = (c, s1)" "extends s s1"
    by (rule GetOrNewStateObject_view [OF ok])
  have e: "SetCode a co s = (let (c, s1) = GetOrNewStateObject a s in so_SetCode ch co c s1)"
    using extendsD(1) [OF g(2)] by (simp add: SetCode_def g(1) ch_def)
  have rc: "recode (sdb_db s) a ch co = co"
    by (auto simp: recode_def ch_def emptyCodeHash_def split: option.splits)
  show "extends s (SetCode a co s)"
    "world_of (SetCode a co s) = w_modify (sdb_db s) a
       (\<lambda>v. v\<lparr>v_codehash := hash_Bytes (keccak256 (sdb_db s) (case co of None \<Rightarrow> [] | Some c \<Rightarrow> c)), v_code := co\<rparr>) (world_of s)"
    unfolding e ch_def [symmetric] using setter_view [OF ok journaled_SetCode [of _ a ch co]] by (simp_all add: rc)
qed

lemma SetState_view:
  assumes ok: "state_ok s" "journal_ok s"
  shows "case SetState a k x s of
      None \<Rightarrow> v_state (acct (sdb_db s) (world_of s) a) k = None
    | Some s' \<Rightarrow> extends s s'
        \<and> world_of s' = w_modify (sdb_db s) a (\<lambda>v. v\<lparr>v_state := (v_state v)(k := Some x)\<rparr>) (world_of s)"
proof -
  define h where "h = sdb_db s"
  obtain c s1 where g: "GetOrNewStateObject a s = (c, s1)" "extends s s1"
    "world_of s1 = w_put a (acct h (world_of s) a) (world_of s)"
    "so_address c = a" "\<not> deleted c" "obj_ok h c"
    "oview h c = acct h (world_of s) a" "find_obj s1 a = Some c"
    unfolding h_def by (rule GetOrNewStateObject_view [OF ok])
  note s1 = extendsD [OF g(2)]
  have cur: "current h c = v_state (acct h (world_of s) a)" using oview_sel(8) [of h c] by (simp add: g(7))
  show ?thesis
  proof (cases "so_GetState h c k")
    case None
    then show ?thesis using so_GetState_view [of h c k] s1
      by (simp add: SetState_def g(1) so_SetState_def h_def [symmetric] cur)
  next
    case (Some r)
    obtain prev c1 where r: "r = (prev, c1)" by (cases r)
    have v: "current h c k = Some prev" "same_obj h c c1" using so_GetState_view [of h c k] Some r by simp_all
    have c1: "so_address c1 = a" "\<not> deleted c1" "obj_ok h c1" "oview h c1 = oview h c" "current h c1 = current h c"
      using v(2) g same_obj_ok [OF v(2)] same_obj_current [OF v(2)] by (simp_all add: same_obj_def)
    have pv: "v_state (acct h (world_of s) a) k = Some prev" using v(1) cur by simp
    show ?thesis
    proof (cases "prev = x")
      case True
      define s2 where "s2 = setStateObject c1 s1"
      have "world_of s2 = world_of s1"
        using c1 g s1 by (simp add: s2_def world_of_set h_def [symmetric])
      then have "cached s1 s2"
        using c1 s1 by (simp add: cached_def s2_def state_ok_set h_def [symmetric])
      then have "extends s s2" using g(2) s1(4) extends_cached extends_trans by blast
      moreover have "world_of s2 = w_modify h a (\<lambda>v. v\<lparr>v_state := (v_state v)(k := Some x)\<rparr>) (world_of s)"
        using True pv g(3) \<open>world_of s2 = world_of s1\<close> by (simp add: w_modify_def fun_upd_idem)
      moreover have "SetState a k x s = Some s2"
        using True Some r s1 by (simp add: SetState_def g(1) so_SetState_def h_def [symmetric] s2_def)
      ultimately show ?thesis by (simp add: h_def)
    next
      case False
      define e where "e = (storageChange a k prev :: 'a journalEntry)"
      define c2 where "c2 = setState k x c1"
      define s2 where "s2 = setStateObject c2 (add_entry e s1)"
      have ov: "oview h c2 = (acct h (world_of s) a)\<lparr>v_state := (v_state (acct h (world_of s) a))(k := Some x)\<rparr>"
        using c1 g(7) cur by (simp add: c2_def)
      have undo: "w_undo h (sdb_trie s1) e (w_put a (oview h c2) (world_of s1)) = Some (world_of s1)"
        using pv g(3) by (simp add: e_def w_update_def ov fun_upd_idem)
      have "extends s1 s2" "world_of s2 = w_put a (oview h c2) (world_of s1)"
        unfolding s2_def using set_after_entry [OF s1(3,4), of e c2 a] c1 undo s1(1)
        by (simp_all add: c2_def e_def entry_ok_def h_def [symmetric])
      then have "extends s s2" "world_of s2 = w_modify h a (\<lambda>v. v\<lparr>v_state := (v_state v)(k := Some x)\<rparr>) (world_of s)"
        using extends_trans [OF g(2)] g(3) by (simp_all add: ov w_modify_def)
      moreover have "SetState a k x s = Some s2"
        using False Some r s1 c1 by (simp add: SetState_def g(1) so_SetState_def h_def [symmetric] s2_def e_def c2_def)
      ultimately show ?thesis by (simp add: h_def)
    qed
  qed
qed

lemma CreateAccount_view:
  assumes ok: "state_ok s" "journal_ok s"
  shows "extends s (CreateAccount a s)"
    "world_of (CreateAccount a s) =
       w_put a ((blank (sdb_db s) a)\<lparr>v_balance := v_balance (acct (sdb_db s) (world_of s) a)\<rparr>) (world_of s)"
proof -
  define h where "h = sdb_db s"
  obtain c s' where c: "createObject a s = (c, find_obj s a, s')" "extends s s'"
    "world_of s' = w_put a (blank h a) (world_of s)"
    "so_address c = a" "\<not> deleted c" "obj_ok h c" "oview h c = blank h a" "find_obj s' a = Some c"
    and put: "\<forall>c'. so_address c' = a \<longrightarrow> \<not> deleted c' \<longrightarrow> obj_ok h c' \<longrightarrow>
       extends s (setStateObject c' s') \<and> world_of (setStateObject c' s') = w_put a (oview h c') (world_of s)"
    unfolding h_def by (rule createObject_view [OF ok, of a])
  have "extends s (CreateAccount a s) \<and> world_of (CreateAccount a s) =
       w_put a ((blank h a)\<lparr>v_balance := v_balance (acct h (world_of s) a)\<rparr>) (world_of s)"
  proof (cases "find_obj s a")
    case None
    then have "acct h (world_of s) a = blank h a" by (simp add: acct_def)
    then show ?thesis using c None by (simp add: CreateAccount_def)
  next
    case (Some p)
    then have "v_balance (acct h (world_of s) a) = acc_Balance (so_data p)" by (simp add: acct_def)
    then show ?thesis
      using put [rule_format, of "setBalance (acc_Balance (so_data p)) c"] c Some by (simp add: CreateAccount_def)
  qed
  then show "extends s (CreateAccount a s)"
    "world_of (CreateAccount a s) =
       w_put a ((blank (sdb_db s) a)\<lparr>v_balance := v_balance (acct (sdb_db s) (world_of s) a)\<rparr>) (world_of s)"
    by (simp_all add: h_def)
qed

lemma Suicide_view:
  assumes ok: "state_ok s" "journal_ok s"
  shows "fst (Suicide a s) \<longleftrightarrow> accounts (world_of s) a \<noteq> None" "extends s (snd (Suicide a s))"
    "world_of (snd (Suicide a s)) = (case accounts (world_of s) a of None \<Rightarrow> world_of s
       | Some v \<Rightarrow> w_put a (v\<lparr>v_suicided := True, v_balance := 0\<rparr>) (world_of s))"
proof -
  obtain s1 where g: "getStateObject a s = (find_obj s a, s1)" "cached s s1" "find_obj s1 = find_obj s"
    by (rule getStateObject_find [OF ok(1)])
  have s1: "sdb_db s1 = sdb_db s" "world_of s1 = world_of s" "state_ok s1" "journal_ok s1" "extends s s1"
    using g(2) extends_cached [OF ok(2) g(2)] by (simp_all add: cached_def extends_def)
  have "(fst (Suicide a s) \<longleftrightarrow> accounts (world_of s) a \<noteq> None) \<and> extends s (snd (Suicide a s))
    \<and> world_of (snd (Suicide a s)) = (case accounts (world_of s) a of None \<Rightarrow> world_of s
       | Some v \<Rightarrow> w_put a (v\<lparr>v_suicided := True, v_balance := 0\<rparr>) (world_of s))"
  proof (cases "find_obj s a")
    case None
    then show ?thesis using s1 by (simp add: Suicide_def g(1))
  next
    case (Some c)
    note c = find_obj_ok [OF ok(1) Some]
    define e where "e = (suicideChange a (suicided c) (acc_Balance (so_data c)) :: 'a journalEntry)"
    have undo: "w_undo (sdb_db s) (sdb_trie s1) e
        (w_put a ((oview (sdb_db s) c)\<lparr>v_suicided := True, v_balance := 0\<rparr>) (world_of s)) = Some (world_of s)"
    proof -
      have "(oview (sdb_db s) c)\<lparr>v_suicided := suicided c, v_balance := acc_Balance (so_data c)\<rparr> = oview (sdb_db s) c"
        by (simp add: oview_def)
      then show ?thesis using Some by (simp add: e_def w_update_def w_put_same)
    qed
    have "extends s1 (setStateObject (setBalance 0 (markSuicided c)) (add_entry e s1))"
      "world_of (setStateObject (setBalance 0 (markSuicided c)) (add_entry e s1)) =
         w_put a ((oview (sdb_db s) c)\<lparr>v_suicided := True, v_balance := 0\<rparr>) (world_of s)"
      using set_after_entry [OF s1(3,4), of e "setBalance 0 (markSuicided c)" a] c undo s1
      by (simp_all add: e_def entry_ok_def)
    then show ?thesis using Some extends_trans [OF s1(5)] by (simp add: Suicide_def g(1) e_def)
  qed
  then show "fst (Suicide a s) \<longleftrightarrow> accounts (world_of s) a \<noteq> None" "extends s (snd (Suicide a s))"
    "world_of (snd (Suicide a s)) = (case accounts (world_of s) a of None \<Rightarrow> world_of s
       | Some v \<Rightarrow> w_put a (v\<lparr>v_suicided := True, v_balance := 0\<rparr>) (world_of s))" by auto
qed


lemma AddLog_view:
  assumes ok: "state_ok s" "journal_ok s"
  shows "extends s (AddLog l s)"
    "\<exists>l'. world_of (AddLog l s) = (world_of s)\<lparr>w_logs := (logs s)(thash s \<mapsto> log_list (logs s) (thash s) @ [l']),
       w_logSize := logSize s + 1\<rparr> \<and> log_Address l' = log_Address l \<and> log_Topics l' = log_Topics l \<and> log_Data l' = log_Data l"
proof -
  define l' where "l' = l\<lparr>log_TxHash := thash s, log_BlockHash := bhash s,
                     log_TxIndex := of_int (txIndex s), log_Index := logSize s\<rparr>"
  have w: "world_of (AddLog l s) = (world_of s)\<lparr>w_logs := (logs s)(thash s \<mapsto> log_list (logs s) (thash s) @ [l']),
       w_logSize := logSize s + 1\<rparr>"
    by (simp add: AddLog_def Let_def l'_def world_of_def find_obj_def [abs_def])
  then show "\<exists>l'. world_of (AddLog l s) = (world_of s)\<lparr>w_logs := (logs s)(thash s \<mapsto> log_list (logs s) (thash s) @ [l']),
       w_logSize := logSize s + 1\<rparr> \<and> log_Address l' = log_Address l \<and> log_Topics l' = log_Topics l \<and> log_Data l' = log_Data l"
    by (intro exI [of _ l']) (simp add: l'_def)
  have ne: "logs s (thash s) \<noteq> Some []" using ok(1) by (simp add: state_ok_def)
  have undo: "w_undo (sdb_db s) (sdb_trie s) (addLogChange (thash s)) (world_of (AddLog l s)) = Some (world_of s)"
  proof (cases "logs s (thash s)")
    case None
    then show ?thesis unfolding w by (simp add: Let_def log_list_def world_of_def fun_upd_idem)
  next
    case (Some ls)
    then have "ls \<noteq> []" using ne by auto
    then show ?thesis unfolding w using Some by (simp add: Let_def log_list_def world_of_def fun_upd_idem)
  qed
  have "state_ok (AddLog l s)"
    using state_ok_add_entry [OF ok(1), of "addLogChange (thash s)"]
    by (simp add: AddLog_def Let_def state_ok_def log_list_def)
  then show "extends s (AddLog l s)"
    using undo by (intro extends_entry [OF ok(2), where e = "addLogChange (thash s)"])
      (simp_all add: AddLog_def Let_def del: w_undo.simps)
qed

lemma AddPreimage_view:
  assumes ok: "state_ok s" "journal_ok s"
  shows "extends s (AddPreimage hsh p s)"
    "world_of (AddPreimage hsh p s) = (if preimages s hsh = None
       then (world_of s)\<lparr>w_preimages := (preimages s)(hsh \<mapsto> p)\<rparr> else world_of s)"
proof -
  show w: "world_of (AddPreimage hsh p s) = (if preimages s hsh = None
       then (world_of s)\<lparr>w_preimages := (preimages s)(hsh \<mapsto> p)\<rparr> else world_of s)"
    by (simp add: AddPreimage_def Let_def world_of_def find_obj_def [abs_def])
  show "extends s (AddPreimage hsh p s)"
  proof (cases "preimages s hsh")
    case None
    have "state_ok (AddPreimage hsh p s)"
      using ok(1) by (simp add: AddPreimage_def Let_def state_ok_add_entry)
    moreover have "w_undo (sdb_db s) (sdb_trie s) (addPreimageChange hsh) (world_of (AddPreimage hsh p s)) = Some (world_of s)"
      unfolding w using None by (simp add: world_of_def fun_upd_idem)
    ultimately show ?thesis using None
      by (intro extends_entry [OF ok(2), where e = "addPreimageChange hsh"]) (simp_all add: AddPreimage_def Let_def)
  next
    case Some
    then show ?thesis using ok by (simp add: AddPreimage_def extends_refl)
  qed
qed

lemma refund_step:
  assumes ok: "state_ok s" "journal_ok s"
  shows "extends s ((add_entry (refundChange (refund s)) s)\<lparr>refund := r\<rparr>)"
    "world_of ((add_entry (refundChange (refund s)) s)\<lparr>refund := r\<rparr>) = (world_of s)\<lparr>w_refund := r\<rparr>"
proof -
  define s' where "s' = (add_entry (refundChange (refund s)) s)\<lparr>refund := r\<rparr>"
  have w: "world_of s' = (world_of s)\<lparr>w_refund := r\<rparr>"
    by (simp add: s'_def world_of_def find_obj_def [abs_def])
  moreover have "state_ok s'" using ok(1) by (simp add: s'_def state_ok_add_entry)
  moreover have "w_undo (sdb_db s) (sdb_trie s) (refundChange (refund s)) (world_of s') = Some (world_of s)"
    unfolding w by (simp add: world_of_def)
  ultimately have "extends s s'"
    by (intro extends_entry [OF ok(2), where e = "refundChange (refund s)"]) (simp_all, simp_all add: s'_def)
  with w show "extends s ((add_entry (refundChange (refund s)) s)\<lparr>refund := r\<rparr>)"
    "world_of ((add_entry (refundChange (refund s)) s)\<lparr>refund := r\<rparr>) = (world_of s)\<lparr>w_refund := r\<rparr>"
    by (simp_all add: s'_def)
qed

lemma AddRefund_view:
  assumes ok: "state_ok s" "journal_ok s"
  shows "extends s (AddRefund g s)" "world_of (AddRefund g s) = (world_of s)\<lparr>w_refund := refund s + g\<rparr>"
  using refund_step [OF ok, of "refund s + g"] by (simp_all add: AddRefund_def Let_def)

lemma SubRefund_view:
  assumes ok: "state_ok s" "journal_ok s"
  shows "case SubRefund g s of None \<Rightarrow> refund s < g
    | Some s' \<Rightarrow> extends s s' \<and> world_of s' = (world_of s)\<lparr>w_refund := refund s - g\<rparr> \<and> g \<le> refund s"
  using refund_step [OF ok, of "refund s - g"] by (simp add: SubRefund_def Let_def linorder_not_less)


subsection \<open>Snapshots\<close>

lemma Snapshot_view:
  assumes ok: "state_ok s" "journal_ok s"
  shows "fst (Snapshot s) = nextRevisionId s" "extends s (snd (Snapshot s))" "world_of (snd (Snapshot s)) = world_of s"
proof -
  show "fst (Snapshot s) = nextRevisionId s" by (simp add: Snapshot_def Let_def)
  define s' where "s' = snd (Snapshot s)"
  show w: "world_of (snd (Snapshot s)) = world_of s"
    by (simp add: Snapshot_def Let_def world_of_def find_obj_def [abs_def])
  have "state_ok s'" using ok(1) by (simp add: s'_def Snapshot_def Let_def state_ok_def)
  moreover have "journal_ok s'"
    using ok(2) by (auto simp: s'_def Snapshot_def Let_def journal_ok_def sorted_wrt_append)
  ultimately show "extends s (snd (Snapshot s))"
    using w unfolding s'_def [symmetric] extends_def by (simp add: s'_def Snapshot_def Let_def)
qed

lemma journal_update_frame:
  "state_ok (s\<lparr>sdb_journal := (sdb_journal s)\<lparr>dirties := d\<rparr>\<rparr>) = state_ok s"
  "world_of (s\<lparr>sdb_journal := j\<rparr>) = world_of s"
  by (simp_all add: state_ok_def world_of_def find_obj_def [abs_def])

lemma revert_entries_view:
  assumes "state_ok s" "\<forall>e \<in> set es. entry_ok (sdb_db s) e"
  shows "case revert_entries es s of
      None \<Rightarrow> w_undos (sdb_db s) (sdb_trie s) es (world_of s) = None
    | Some s' \<Rightarrow> w_undos (sdb_db s) (sdb_trie s) es (world_of s) = Some (world_of s') \<and> state_ok s'
        \<and> sdb_db s' = sdb_db s \<and> sdb_trie s' = sdb_trie s
        \<and> sdb_journal s' = (sdb_journal s)\<lparr>dirties := fold (\<lambda>e. undirty (dirtied e)) es (dirties (sdb_journal s))\<rparr>
        \<and> validRevisions s' = validRevisions s \<and> nextRevisionId s' = nextRevisionId s"
  using assms
proof (induction es arbitrary: s)
  case Nil
  then show ?case by simp
next
  case (Cons e es)
  have e: "entry_ok (sdb_db s) e" "\<forall>e \<in> set es. entry_ok (sdb_db s) e" using Cons.prems by simp_all
  note step = entry_revert_view [OF Cons.prems(1) e(1)]
  show ?case
  proof (cases "entry_revert e s")
    case None
    then show ?thesis using step by simp
  next
    case (Some s1)
    define s2 where "s2 = s1\<lparr>sdb_journal := (sdb_journal s1)\<lparr>dirties := undirty (dirtied e) (dirties (sdb_journal s1))\<rparr>\<rparr>"
    have s1: "w_undo (sdb_db s) (sdb_trie s) e (world_of s) = Some (world_of s1)" "state_ok s1" "same_frame s s1"
      using step Some by simp_all
    have ok2: "state_ok s2" unfolding s2_def journal_update_frame by (rule s1(2))
    have s2: "world_of s2 = world_of s1" "sdb_db s2 = sdb_db s" "sdb_trie s2 = sdb_trie s"
      "validRevisions s2 = validRevisions s" "nextRevisionId s2 = nextRevisionId s"
      "sdb_journal s2 = (sdb_journal s)\<lparr>dirties := undirty (dirtied e) (dirties (sdb_journal s))\<rparr>"
      using s1 by (simp_all add: s2_def journal_update_frame same_frame_def)
    have "revert_entries (e # es) s = revert_entries es s2" by (simp add: Some s2_def)
    then show ?thesis using Cons.IH [of s2] e(2) s1 ok2 s2 by simp
  qed
qed

definition enc_count :: "int \<Rightarrow> int option" where
  "enc_count n = (if n = 0 then None else Some n)"

lemma undirty_count:
  assumes "d a = enc_count (n + (if dirtied e = Some a then 1 else 0))" "0 \<le> n"
  shows "undirty (dirtied e) d a = enc_count n"
  using assms by (auto simp: undirty_def enc_count_def dirty_count_def Let_def split: option.splits if_splits)

lemma undirties_count:
  "d a = enc_count (dcount (xs @ es) a) \<Longrightarrow>
   fold (\<lambda>e. undirty (dirtied e)) (rev es) d a = enc_count (dcount xs a)"
proof (induction es arbitrary: d rule: rev_induct)
  case Nil
  then show ?case by simp
next
  case (snoc e es)
  have "undirty (dirtied e) d a = enc_count (dcount (xs @ es) a)"
    using snoc.prems by (intro undirty_count) (simp_all add: add.assoc)
  then show ?case using snoc.IH [of "undirty (dirtied e) d"] by simp
qed

declare sort_search.simps [simp del]

lemma sort_search_eq:
  assumes "\<forall>k. i \<le> k \<longrightarrow> k < j \<longrightarrow> (f k \<longleftrightarrow> n \<le> k)" "i \<le> n" "n \<le> j"
  shows "sort_search f i j = n"
  using assms
proof (induction f i j rule: sort_search.induct)
  case (1 f i j)
  show ?case
  proof (cases "i < j")
    case False
    then show ?thesis using "1.prems" by (simp add: sort_search.simps [of f i j])
  next
    case True
    define h where "h = (i + j) div 2"
    have h: "i \<le> h" "h < j" using True by (auto simp: h_def)
    show ?thesis
    proof (cases "n \<le> h")
      case le: True
      then have f: "f h" using "1.prems"(1) h by simp
      have "sort_search f i h = n"
        using "1.IH"(2) [OF True h_def] f "1.prems" h le by simp
      then show ?thesis using True f by (simp add: sort_search.simps [of f i j] h_def [symmetric] Let_def)
    next
      case gt: False
      then have f: "\<not> f h" using "1.prems"(1) h by simp
      have "sort_search f (h + 1) j = n"
        using "1.IH"(1) [OF True h_def] f "1.prems" h gt by simp
      then show ?thesis using True f by (simp add: sort_search.simps [of f i j] h_def [symmetric] Let_def)
    qed
  qed
qed

text \<open>
  The snapshot theorem: whatever journaled steps ran since the snapshot, reverting to it succeeds and
  restores the world, the journal, the revisions and the dirty counters.
\<close>

lemma RevertToSnapshot_view:
  assumes ok: "state_ok s" "journal_ok s" and x: "extends (snd (Snapshot s)) s2"
  obtains s3 where "RevertToSnapshot (nextRevisionId s) s2 = Some s3" "world_of s3 = world_of s"
    "extends s s3" "entries (sdb_journal s3) = entries (sdb_journal s)" "validRevisions s3 = validRevisions s"
    "\<And>a. a \<noteq> ripemd \<Longrightarrow> dirties (sdb_journal s3) a = dirties (sdb_journal s) a"
    "nextRevisionId s3 = nextRevisionId s2"
proof -
  define s1 where "s1 = snd (Snapshot s)"
  define r where "r = \<lparr>rev_id = nextRevisionId s, journalIndex = length (entries (sdb_journal s))\<rparr>"
  define E where "E = entries (sdb_journal s)"
  have s1: "validRevisions s1 = validRevisions s @ [r]" "entries (sdb_journal s1) = E"
    "nextRevisionId s1 = nextRevisionId s + 1" "sdb_db s1 = sdb_db s" "sdb_trie s1 = sdb_trie s" "world_of s1 = world_of s"
    using Snapshot_view(3) [OF ok] by (simp_all add: s1_def Snapshot_def Let_def r_def E_def)
  obtain es rs where e: "entries (sdb_journal s2) = E @ es"
    "w_undos (sdb_db s) (sdb_trie s) (rev es) (world_of s2) = Some (world_of s)"
    "validRevisions s2 = (validRevisions s @ [r]) @ rs"
    "\<forall>r \<in> set rs. nextRevisionId s + 1 \<le> rev_id r"
    using x s1 unfolding extends_def s1_def [symmetric] by auto
  note d = extendsD [OF x, unfolded s1_def [symmetric] s1]
  have ids: "\<forall>r \<in> set (validRevisions s). rev_id r < nextRevisionId s" using ok(2) by (simp add: journal_ok_def)
  define n where "n = length (validRevisions s)"
  have nth: "nextRevisionId s \<le> rev_id (validRevisions s2 ! k) \<longleftrightarrow> n \<le> k" if "k < length (validRevisions s2)" for k
  proof -
    consider "k < n" | "k = n" | "n < k" by linarith
    then show ?thesis
    proof cases
      case 1
      then have "validRevisions s2 ! k \<in> set (validRevisions s)" by (simp add: e(3) n_def nth_append)
      then show ?thesis using ids 1 by fastforce
    next
      case 2
      then show ?thesis by (simp add: e(3) n_def nth_append r_def)
    next
      case 3
      then have "validRevisions s2 ! k \<in> set rs" using that by (simp add: e(3) n_def nth_append)
      then show ?thesis using e(4) 3 by fastforce
    qed
  qed
  have idx: "sort_search (\<lambda>i. nextRevisionId s \<le> rev_id (validRevisions s2 ! i)) 0 (length (validRevisions s2)) = n"
    by (rule sort_search_eq) (use nth e(3) in \<open>auto simp: n_def\<close>)
  have at: "validRevisions s2 ! n = r" by (simp add: e(3) n_def nth_append)
  have "\<forall>e \<in> set (rev es). entry_ok (sdb_db s2) e" using d(3) e(1) by (simp add: state_ok_def)
  then obtain s' where s': "revert_entries (rev es) s2 = Some s'" "world_of s' = world_of s" "state_ok s'"
    "sdb_db s' = sdb_db s" "sdb_trie s' = sdb_trie s"
    "sdb_journal s' = (sdb_journal s2)\<lparr>dirties := fold (\<lambda>e. undirty (dirtied e)) (rev es) (dirties (sdb_journal s2))\<rparr>"
    "validRevisions s' = validRevisions s2" "nextRevisionId s' = nextRevisionId s2"
    using revert_entries_view [OF d(3), of "rev es"] e(2) d(1,2) by (auto split: option.splits)
  define s3 where "s3 = s'\<lparr>sdb_journal := (sdb_journal s')\<lparr>entries := E\<rparr>, validRevisions := validRevisions s\<rparr>"
  have "journal_revert (length E) s2 = Some (s'\<lparr>sdb_journal := (sdb_journal s')\<lparr>entries := E\<rparr>\<rparr>)"
    using s'(1,6) e(1) by (simp add: journal_revert_def)
  moreover have "n \<noteq> length (validRevisions s2)" by (simp add: e(3) n_def)
  moreover have "take n (validRevisions s') = validRevisions s" by (simp add: s'(7) e(3) n_def)
  moreover have "rev_id r = nextRevisionId s" "journalIndex r = length E" by (simp_all add: r_def E_def)
  ultimately have R: "RevertToSnapshot (nextRevisionId s) s2 = Some s3"
    unfolding RevertToSnapshot_def Let_def idx at by (simp add: s3_def)
  have w: "world_of s3 = world_of s" using s'(2) by (simp add: s3_def world_of_def find_obj_def [abs_def])
  have dirt: "dirties (sdb_journal s3) a = enc_count (dcount E a)" if "a \<noteq> ripemd" for a
    using d(4) that undirties_count [of "dirties (sdb_journal s2)" a E es] e(1)
    by (simp add: s3_def s'(6) journal_ok_def enc_count_def)
  have dirt0: "dirties (sdb_journal s) a = enc_count (dcount E a)" if "a \<noteq> ripemd" for a
    using ok(2) that by (simp add: journal_ok_def enc_count_def E_def)
  have "state_ok s3" using s'(3) d(3) e(1) by (auto simp: s3_def state_ok_def s'(6))
  moreover have "journal_ok s3"
    using ok(2) d(4) dirt s1(3) x by (auto simp: journal_ok_def s3_def enc_count_def E_def s'(8) extends_def s1_def [symmetric])
  moreover have nr: "nextRevisionId s \<le> nextRevisionId s3"
    using x s1(3) by (simp add: extends_def s1_def [symmetric] s3_def s'(8))
  ultimately have "extends s s3"
    unfolding extends_def using s' w by (simp add: s3_def E_def)
  then show ?thesis
    using that R w dirt dirt0 by (simp add: s3_def E_def s'(8))
qed


lemma sort_search_le: "i \<le> j \<Longrightarrow> sort_search f i j \<le> j"
proof (induction f i j rule: sort_search.induct)
  case (1 f i j)
  show ?case
  proof (cases "i < j")
    case True
    then have "(i + j) div 2 + 1 \<le> j" "(i + j) div 2 \<le> j" "i \<le> (i + j) div 2" by auto
    then show ?thesis
      using True 1 by (subst sort_search.simps) (fastforce simp: Let_def)
  next
    case False
    then show ?thesis using "1.prems" by (subst sort_search.simps) simp
  qed
qed

text \<open>Reverting to a snapshot taken after \<open>s\<close> still leaves an extension of \<open>s\<close>.\<close>

lemma extends_RevertToSnapshot:
  assumes ok: "state_ok s" "journal_ok s" and x: "extends s s2" and i: "nextRevisionId s \<le> i"
    and r: "RevertToSnapshot i s2 = Some s3"
  shows "extends s s3"
proof -
  define E where "E = entries (sdb_journal s)"
  obtain es rs where e: "entries (sdb_journal s2) = E @ es"
    "w_undos (sdb_db s) (sdb_trie s) (rev es) (world_of s2) = Some (world_of s)"
    "validRevisions s2 = validRevisions s @ rs"
    "\<forall>r \<in> set rs. nextRevisionId s \<le> rev_id r \<and> length E \<le> journalIndex r"
    using x by (auto simp: extends_def E_def)
  note d = extendsD [OF x]
  define n where "n = sort_search (\<lambda>k. i \<le> rev_id (validRevisions s2 ! k)) 0 (length (validRevisions s2))"
  define q where "q = validRevisions s2 ! n"
  have n: "n \<noteq> length (validRevisions s2)" "rev_id q = i"
    using r by (auto simp: RevertToSnapshot_def Let_def n_def [symmetric] q_def split: if_splits)
  have "n < length (validRevisions s2)"
    using n(1) sort_search_le [of 0 "length (validRevisions s2)" "\<lambda>k. i \<le> rev_id (validRevisions s2 ! k)"]
    by (simp add: n_def)
  have "\<not> n < length (validRevisions s)"
  proof
    assume "n < length (validRevisions s)"
    then have "q \<in> set (validRevisions s)" by (simp add: q_def e(3) nth_append)
    then show False using ok(2) n(2) i by (auto simp: journal_ok_def)
  qed
  then have q: "q \<in> set rs" and tk: "take n (validRevisions s2) = validRevisions s @ take (n - length (validRevisions s)) rs"
    using \<open>n < length (validRevisions s2)\<close> by (simp_all add: q_def e(3) nth_append)
  define m where "m = journalIndex q"
  have m: "length E \<le> m" "m \<le> length (E @ es)"
    using e(4) q d(4) unfolding journal_ok_def by (auto simp: m_def e(1,3))
  define k where "k = m - length E"
  have es: "es = take k es @ drop k es" by simp
  obtain s1 where s1: "journal_revert m s2 = Some s1" "s3 = s1\<lparr>validRevisions := take n (validRevisions s1)\<rparr>"
    using r n by (auto simp: RevertToSnapshot_def Let_def n_def [symmetric] q_def [symmetric] m_def bind_eq_Some_conv)
  have dr: "drop m (E @ es) = drop k es" "take m (E @ es) = E @ take k es" using m by (simp_all add: k_def)
  obtain s' where s': "revert_entries (rev (drop k es)) s2 = Some s'"
    "s1 = s'\<lparr>sdb_journal := (sdb_journal s')\<lparr>entries := take m (entries (sdb_journal s'))\<rparr>\<rparr>"
    using s1(1) m by (auto simp: journal_revert_def e(1) dr bind_eq_Some_conv k_def)
  have "\<forall>e \<in> set (rev (drop k es)). entry_ok (sdb_db s2) e"
    using d(3) e(1) set_drop_subset [of k es] by (auto simp: state_ok_def)
  then have v: "w_undos (sdb_db s) (sdb_trie s) (rev (drop k es)) (world_of s2) = Some (world_of s')" "state_ok s'"
    "sdb_db s' = sdb_db s" "sdb_trie s' = sdb_trie s"
    "sdb_journal s' = (sdb_journal s2)\<lparr>dirties := fold (\<lambda>e. undirty (dirtied e)) (rev (drop k es)) (dirties (sdb_journal s2))\<rparr>"
    "validRevisions s' = validRevisions s2" "nextRevisionId s' = nextRevisionId s2"
    using revert_entries_view [OF d(3), of "rev (drop k es)"] s'(1) d(1,2) by simp_all
  have j3: "entries (sdb_journal s3) = E @ take k es" "validRevisions s3 = take n (validRevisions s2)"
    "nextRevisionId s3 = nextRevisionId s2" "world_of s3 = world_of s'" "sdb_db s3 = sdb_db s" "sdb_trie s3 = sdb_trie s"
    "dirties (sdb_journal s3) = fold (\<lambda>e. undirty (dirtied e)) (rev (drop k es)) (dirties (sdb_journal s2))"
    using s1(2) s'(2) v e(1) dr by (simp_all add: world_of_def find_obj_def [abs_def])
  have "rev es = rev (drop k es) @ rev (take k es)" using es by (metis rev_append)
  then have "w_undos (sdb_db s) (sdb_trie s) (rev (take k es)) (world_of s3) = Some (world_of s)"
    using e(2) v(1) j3(4) by (simp add: w_undos_append)
  moreover have "state_ok s3"
    using v(2) by (auto simp: state_ok_def s1(2) s'(2) dest: in_set_takeD)
  moreover have "journal_ok s3"
  proof -
    have "dirties (sdb_journal s3) a = enc_count (dcount (E @ take k es) a)" if "a \<noteq> ripemd" for a
      using d(4) that undirties_count [of "dirties (sdb_journal s2)" a "E @ take k es" "drop k es"] e(1)
      by (simp add: j3(7) journal_ok_def enc_count_def)
    moreover have "journalIndex r \<le> m" if mem: "r \<in> set (take n (validRevisions s2))" for r
    proof -
      obtain u where "u < length (take n (validRevisions s2))" "r = take n (validRevisions s2) ! u"
        using mem unfolding in_set_conv_nth by blast
      then have u: "u < n" "r = validRevisions s2 ! u" by simp_all
      then show ?thesis
        using d(4) \<open>n < length (validRevisions s2)\<close> by (auto simp: journal_ok_def sorted_wrt_iff_nth_less m_def q_def)
    qed
    moreover have "length (E @ take k es) = m" using m by (simp add: k_def)
    moreover have "\<forall>r \<in> set (take n (validRevisions s2)). rev_id r < nextRevisionId s2"
      using d(4) by (meson in_set_takeD journal_ok_def)
    moreover have "sorted_wrt (\<lambda>r r'. rev_id r < rev_id r' \<and> journalIndex r \<le> journalIndex r') (take n (validRevisions s2))"
      using d(4) by (simp add: journal_ok_def sorted_wrt_take)
    ultimately show ?thesis
      unfolding journal_ok_def j3(1-3) by (simp add: enc_count_def)
  qed
  ultimately show ?thesis
    using j3 tk x e(4) set_take_subset [of "n - length (validRevisions s)" rs] by (auto simp: extends_def E_def)
qed


subsection \<open>The getters\<close>

lemma getter_cached:
  assumes ok: "state_ok s" and g: "getStateObject a s = (find_obj s a, s1)" "cached s s1" "find_obj s a = Some c"
    and same: "same_obj (sdb_db s) c c'"
  shows "cached s (setStateObject c' s1)"
proof -
  note c = find_obj_ok [OF ok g(3)]
  have c': "so_address c' = a" "\<not> deleted c'" "obj_ok (sdb_db s) c'" "oview (sdb_db s) c' = oview (sdb_db s) c"
    using same same_obj_ok [OF same] c by (simp_all add: same_obj_def)
  have s1: "sdb_db s1 = sdb_db s" "world_of s1 = world_of s" "state_ok s1" using g(2) by (simp_all add: cached_def)
  have "world_of (setStateObject c' s1) = world_of s"
    using c' s1 g(3) by (simp add: world_of_set w_put_same)
  then show ?thesis using c' s1 g(2) by (simp add: cached_def state_ok_set)
qed

lemma Exist_view:
  "state_ok s \<Longrightarrow> fst (Exist a s) \<longleftrightarrow> accounts (world_of s) a \<noteq> None"
  "state_ok s \<Longrightarrow> cached s (snd (Exist a s))"
  by (rule getStateObject_find [of s a]; simp add: Exist_def)+

definition acct_empty :: "'t host \<Rightarrow> 't acct \<Rightarrow> bool" where
  "acct_empty h v \<longleftrightarrow> v_nonce v = 0 \<and> v_balance v = 0 \<and> v_codehash v = emptyCodeHash h"

lemma Empty_view:
  "state_ok s \<Longrightarrow> fst (Empty a s) \<longleftrightarrow> (case accounts (world_of s) a of None \<Rightarrow> True | Some v \<Rightarrow> acct_empty (sdb_db s) v)"
  "state_ok s \<Longrightarrow> cached s (snd (Empty a s))"
  by (rule getStateObject_find [of s a]; simp add: Empty_def so_empty_def acct_empty_def split: option.splits)+

lemma GetBalance_view:
  "state_ok s \<Longrightarrow> fst (GetBalance a s) = (case accounts (world_of s) a of None \<Rightarrow> 0 | Some v \<Rightarrow> v_balance v)"
  "state_ok s \<Longrightarrow> cached s (snd (GetBalance a s))"
  by (rule getStateObject_find [of s a]; simp add: GetBalance_def split: option.splits)+

lemma GetNonce_view:
  "state_ok s \<Longrightarrow> fst (GetNonce a s) = (case accounts (world_of s) a of None \<Rightarrow> 0 | Some v \<Rightarrow> v_nonce v)"
  "state_ok s \<Longrightarrow> cached s (snd (GetNonce a s))"
  by (rule getStateObject_find [of s a]; simp add: GetNonce_def split: option.splits)+

lemma GetCodeHash_view:
  "state_ok s \<Longrightarrow> fst (GetCodeHash a s) = (case accounts (world_of s) a of None \<Rightarrow> 0 | Some v \<Rightarrow> BytesToHash (v_codehash v))"
  "state_ok s \<Longrightarrow> cached s (snd (GetCodeHash a s))"
  by (rule getStateObject_find [of s a]; simp add: GetCodeHash_def split: option.splits)+

lemma HasSuicided_view:
  "state_ok s \<Longrightarrow> fst (HasSuicided a s) \<longleftrightarrow> (case accounts (world_of s) a of None \<Rightarrow> False | Some v \<Rightarrow> v_suicided v)"
  "state_ok s \<Longrightarrow> cached s (snd (HasSuicided a s))"
  by (rule getStateObject_find [of s a]; simp add: HasSuicided_def split: option.splits)+

lemma GetCode_view:
  assumes ok: "state_ok s"
  shows "fst (GetCode a s) = (case accounts (world_of s) a of None \<Rightarrow> None | Some v \<Rightarrow> v_code v)"
    "cached s (snd (GetCode a s))"
proof -
  obtain s1 where g: "getStateObject a s = (find_obj s a, s1)" "cached s s1" by (rule getStateObject_find [OF ok])
  have db: "sdb_db s1 = sdb_db s" using g(2) by (simp add: cached_def)
  show "fst (GetCode a s) = (case accounts (world_of s) a of None \<Rightarrow> None | Some v \<Rightarrow> v_code v)"
    by (simp add: GetCode_def g(1) db code_of_def split: option.splits prod.splits)
  show "cached s (snd (GetCode a s))"
  proof (cases "find_obj s a")
    case None
    then show ?thesis using g by (simp add: GetCode_def)
  next
    case (Some c)
    then show ?thesis
      using getter_cached [OF ok g Some so_Code_view] by (simp add: GetCode_def g(1) db split_beta)
  qed
qed

lemma GetCodeSize_view:
  assumes ok: "state_ok s"
  shows "fst (GetCodeSize a s) = (case accounts (world_of s) a of None \<Rightarrow> 0
      | Some v \<Rightarrow> int (length (case v_code v of None \<Rightarrow> [] | Some c \<Rightarrow> c)))"
    "cached s (snd (GetCodeSize a s))"
proof -
  obtain s1 where g: "getStateObject a s = (find_obj s a, s1)" "cached s s1" by (rule getStateObject_find [OF ok])
  have db: "sdb_db s1 = sdb_db s" "state_ok s1" using g(2) by (simp_all add: cached_def)
  have h: "host_ok (sdb_db s)" using ok by (simp add: state_ok_def)
  show "cached s (snd (GetCodeSize a s))"
    using g cached_trans [OF g(2) cached_setError [OF db(2)]]
    by (simp add: GetCodeSize_def split: option.splits prod.splits)
  show "fst (GetCodeSize a s) = (case accounts (world_of s) a of None \<Rightarrow> 0
      | Some v \<Rightarrow> int (length (case v_code v of None \<Rightarrow> [] | Some c \<Rightarrow> c)))"
  proof (cases "find_obj s a")
    case None
    then show ?thesis by (simp add: GetCodeSize_def g(1))
  next
    case (Some c)
    note c = find_obj_ok [OF ok Some]
    have len: "fst (ContractCodeSize (sdb_db s) x y)
        = int (length (case fst (ContractCode (sdb_db s) x y) of None \<Rightarrow> [] | Some z \<Rightarrow> z))" for x y
      using h unfolding host_ok_def by blast
    have empty: "fst (ContractCodeSize (sdb_db s) x (keccak256 (sdb_db s) [])) = 0" for x
      using h unfolding host_ok_def by blast
    show ?thesis
    proof (cases "so_code c")
      case None
      then show ?thesis
        using Some len empty by (simp add: GetCodeSize_def g(1) db code_of_eq emptyCodeHash_def split_beta)
    qed (simp add: GetCodeSize_def g(1) Some code_of_eq)
  qed
qed


lemma GetState_view:
  assumes ok: "state_ok s"
  shows "case GetState a k s of
      None \<Rightarrow> \<exists>v. accounts (world_of s) a = Some v \<and> v_state v k = None
    | Some (x, s') \<Rightarrow> cached s s' \<and> (case accounts (world_of s) a of None \<Rightarrow> x = 0 | Some v \<Rightarrow> v_state v k = Some x)"
proof -
  obtain s1 where g: "getStateObject a s = (find_obj s a, s1)" "cached s s1" by (rule getStateObject_find [OF ok])
  have db: "sdb_db s1 = sdb_db s" using g(2) by (simp add: cached_def)
  show ?thesis
  proof (cases "find_obj s a")
    case None
    then show ?thesis using g by (simp add: GetState_def)
  next
    case (Some c)
    then show ?thesis
      using getter_cached [OF ok g Some] so_GetState_view [of "sdb_db s" c k]
      by (auto simp: GetState_def g(1) db split: option.splits bind_splits)
  qed
qed

lemma GetCommittedState_view:
  assumes ok: "state_ok s"
  shows "case GetCommittedState a k s of
      None \<Rightarrow> \<exists>v. accounts (world_of s) a = Some v \<and> v_committed v k = None
    | Some (x, s') \<Rightarrow> cached s s' \<and> (case accounts (world_of s) a of None \<Rightarrow> x = 0 | Some v \<Rightarrow> v_committed v k = Some x)"
proof -
  obtain s1 where g: "getStateObject a s = (find_obj s a, s1)" "cached s s1" by (rule getStateObject_find [OF ok])
  have db: "sdb_db s1 = sdb_db s" using g(2) by (simp add: cached_def)
  show ?thesis
  proof (cases "find_obj s a")
    case None
    then show ?thesis using g by (simp add: GetCommittedState_def)
  next
    case (Some c)
    then show ?thesis
      using getter_cached [OF ok g Some] so_GetCommittedState_view [of "sdb_db s" c k]
      by (auto simp: GetCommittedState_def g(1) db split: option.splits bind_splits)
  qed
qed

text \<open>Storage reads do not panic: the host promises values that \<open>Split\<close> can handle and an empty
  trie that opens.\<close>

lemma committed_not_None:
  assumes "host_ok h"
  shows "committed h c k \<noteq> None"
proof -
  obtain t0 where "OpenStorageTrie h (so_addrHash c) 0 = Inr t0" using assms unfolding host_ok_def by blast
  then have "strie h c \<noteq> None" by (simp add: strie_eq split: option.split sum.split)
  then obtain t where t: "strie h c = Some t" by auto
  have "length (fst (TryGet h t (hash_Bytes k))) < 2 ^ 64" using assms unfolding host_ok_def by blast
  then have "Split (fst (TryGet h t (hash_Bytes k))) \<noteq> None" by (subst Split_readKind) simp_all
  then show ?thesis
    by (simp add: committed_def t slot_def split: option.split prod.split) auto
qed

lemma current_not_None: "host_ok h \<Longrightarrow> current h c k \<noteq> None"
  using committed_not_None [of h c k] by (auto simp: current_def split: option.splits)

lemma storage_total:
  assumes "state_ok s" "accounts (world_of s) a = Some v"
  shows "v_state v k \<noteq> None" "v_committed v k \<noteq> None"
  using assms current_not_None [of "sdb_db s"] committed_not_None [of "sdb_db s"] by (auto simp: state_ok_def)

lemma GetState_Some:
  assumes ok: "state_ok s"
  obtains x s' where "GetState a k s = Some (x, s')" "cached s s'"
    "case accounts (world_of s) a of None \<Rightarrow> x = 0 | Some v \<Rightarrow> v_state v k = Some x"
proof (cases "GetState a k s")
  case None
  then obtain v where v: "accounts (world_of s) a = Some v" "v_state v k = None"
    using GetState_view [OF ok, of a k] by (auto simp del: world_of_sel)
  then show ?thesis using storage_total(1) [OF ok v(1), of k] by simp
next
  case (Some r)
  then show ?thesis using GetState_view [OF ok, of a k] that by (cases r) simp
qed

lemma GetCommittedState_Some:
  assumes ok: "state_ok s"
  obtains x s' where "GetCommittedState a k s = Some (x, s')" "cached s s'"
    "case accounts (world_of s) a of None \<Rightarrow> x = 0 | Some v \<Rightarrow> v_committed v k = Some x"
proof (cases "GetCommittedState a k s")
  case None
  then obtain v where v: "accounts (world_of s) a = Some v" "v_committed v k = None"
    using GetCommittedState_view [OF ok, of a k] by (auto simp del: world_of_sel)
  then show ?thesis using storage_total(2) [OF ok v(1), of k] by simp
next
  case (Some r)
  then show ?thesis using GetCommittedState_view [OF ok, of a k] that by (cases r) simp
qed

lemma SetState_Some:
  assumes ok: "state_ok s" "journal_ok s"
  obtains s' where "SetState a k x s = Some s'" "extends s s'"
    "world_of s' = w_modify (sdb_db s) a (\<lambda>v. v\<lparr>v_state := (v_state v)(k := Some x)\<rparr>) (world_of s)"
proof -
  have h: "host_ok (sdb_db s)" using ok by (simp add: state_ok_def)
  have "v_state (acct (sdb_db s) (world_of s) a) k \<noteq> None"
    using current_not_None [OF h] blank_sel(6) [OF h] by (simp add: acct_def split: option.splits)
  then show ?thesis using SetState_view [OF ok, of a k x] that by (cases "SetState a k x s") simp_all
qed


subsection \<open>Histories of a database\<close>

text \<open>
  One call into the database, with the snapshots \<open>i \<ge> n\<close> as the ones it may revert to. This is the
  whole interface the virtual machine calls.
\<close>

inductive db_step :: "nat \<Rightarrow> 't StateDB \<Rightarrow> 't StateDB \<Rightarrow> bool" for n where
  step_CreateAccount: "db_step n s (CreateAccount a s)"
| step_AddBalance: "db_step n s (AddBalance a v s)"
| step_SubBalance: "db_step n s (SubBalance a v s)"
| step_SetBalance: "db_step n s (SetBalance a v s)"
| step_SetNonce: "db_step n s (SetNonce a m s)"
| step_SetCode: "db_step n s (SetCode a co s)"
| step_SetState: "SetState a k x s = Some s' \<Longrightarrow> db_step n s s'"
| step_Suicide: "db_step n s (snd (Suicide a s))"
| step_AddRefund: "db_step n s (AddRefund g s)"
| step_SubRefund: "SubRefund g s = Some s' \<Longrightarrow> db_step n s s'"
| step_AddLog: "db_step n s (AddLog l s)"
| step_AddPreimage: "db_step n s (AddPreimage hsh p s)"
| step_Exist: "db_step n s (snd (Exist a s))"
| step_Empty: "db_step n s (snd (Empty a s))"
| step_GetBalance: "db_step n s (snd (GetBalance a s))"
| step_GetNonce: "db_step n s (snd (GetNonce a s))"
| step_GetCodeHash: "db_step n s (snd (GetCodeHash a s))"
| step_GetCode: "db_step n s (snd (GetCode a s))"
| step_GetCodeSize: "db_step n s (snd (GetCodeSize a s))"
| step_HasSuicided: "db_step n s (snd (HasSuicided a s))"
| step_GetState: "GetState a k s = Some (x, s') \<Longrightarrow> db_step n s s'"
| step_GetCommittedState: "GetCommittedState a k s = Some (x, s') \<Longrightarrow> db_step n s s'"
| step_Snapshot: "db_step n s (snd (Snapshot s))"
| step_RevertToSnapshot: "n \<le> i \<Longrightarrow> RevertToSnapshot i s = Some s' \<Longrightarrow> db_step n s s'"

lemma db_step_extends:
  assumes "db_step (nextRevisionId s0) s s'" "extends s0 s" "state_ok s0" "journal_ok s0"
  shows "extends s0 s'"
proof -
  note ok = extendsD(3,4) [OF assms(2)]
  note tr = extends_trans [OF assms(2)]
  note ca = tr [OF extends_cached [OF ok(2)]]
  show ?thesis
    using assms(1)
  proof cases
    case (step_SetState a k x)
    then show ?thesis using SetState_view [OF ok, of a k x] by (auto intro: tr)
  next
    case (step_SubRefund g)
    then show ?thesis using SubRefund_view [OF ok, of g] by (auto intro: tr)
  next
    case (step_GetState a k x)
    then show ?thesis using GetState_view [OF ok(1), of a k] by (auto intro: ca)
  next
    case (step_GetCommittedState a k x)
    then show ?thesis using GetCommittedState_view [OF ok(1), of a k] by (auto intro: ca)
  next
    case (step_RevertToSnapshot i)
    then show ?thesis using extends_RevertToSnapshot [OF assms(3,4,2)] by blast
  qed (auto intro: tr ca CreateAccount_view(1) AddBalance_view(1) SubBalance_view(1) SetBalance_view(1)
      SetNonce_view(1) SetCode_view(1) Suicide_view(2) AddRefund_view(1) AddLog_view(1) AddPreimage_view(1)
      Exist_view(2) Empty_view(2) GetBalance_view(2) GetNonce_view(2) GetCodeHash_view(2) GetCode_view(2)
      GetCodeSize_view(2) HasSuicided_view(2) Snapshot_view(2) ok)
qed

lemma db_steps_extends:
  assumes "(db_step (nextRevisionId s0))\<^sup>*\<^sup>* s0 s" "state_ok s0" "journal_ok s0"
  shows "extends s0 s"
  using assms(1)
proof (induction rule: rtranclp_induct)
  case base
  show ?case by (rule extends_refl [OF assms(2,3)])
next
  case (step s s')
  then show ?case using db_step_extends assms(2,3) by blast
qed

lemma GetState_fst:
  assumes ok: "state_ok s"
  shows "map_option fst (GetState a k s) = (case accounts (world_of s) a of None \<Rightarrow> Some 0 | Some v \<Rightarrow> v_state v k)"
  by (rule GetState_Some [OF ok, of a k]) (simp split: option.splits)

lemma GetCommittedState_fst:
  assumes ok: "state_ok s"
  shows "map_option fst (GetCommittedState a k s) =
    (case accounts (world_of s) a of None \<Rightarrow> Some 0 | Some v \<Rightarrow> v_committed v k)"
  by (rule GetCommittedState_Some [OF ok, of a k]) (simp split: option.splits)

lemma accounts_w_modify [simp]:
  "accounts (w_modify h a f w) = (accounts w)(a := Some (f (acct h w a)))"
  by (simp add: w_modify_def)

subsection \<open>All the getters of an account\<close>

definition code_bytes :: "bytes option \<Rightarrow> bytes" where
  "code_bytes co = (case co of None \<Rightarrow> [] | Some c \<Rightarrow> c)"

record acct_reads =
  rd_exist :: bool
  rd_balance :: int
  rd_nonce :: u64
  rd_code :: "bytes option"
  rd_codehash :: hash
  rd_codesize :: int
  rd_suicided :: bool
  rd_state :: "hash \<Rightarrow> hash option"
  rd_committed :: "hash \<Rightarrow> hash option"

definition reads :: "'t StateDB \<Rightarrow> address \<Rightarrow> acct_reads" where
  "reads s a =
     \<lparr>rd_exist = fst (Exist a s), rd_balance = fst (GetBalance a s), rd_nonce = fst (GetNonce a s),
      rd_code = fst (GetCode a s), rd_codehash = fst (GetCodeHash a s), rd_codesize = fst (GetCodeSize a s),
      rd_suicided = fst (HasSuicided a s), rd_state = (\<lambda>k. map_option fst (GetState a k s)),
      rd_committed = (\<lambda>k. map_option fst (GetCommittedState a k s))\<rparr>"

text \<open>An address without an account, and what is there once an account has been created for it.\<close>

definition no_reads :: acct_reads where
  "no_reads =
     \<lparr>rd_exist = False, rd_balance = 0, rd_nonce = 0, rd_code = None, rd_codehash = 0, rd_codesize = 0,
      rd_suicided = False, rd_state = (\<lambda>k. Some 0), rd_committed = (\<lambda>k. Some 0)\<rparr>"

definition opened :: "'t host \<Rightarrow> acct_reads \<Rightarrow> acct_reads" where
  "opened h r = (if rd_exist r then r else r\<lparr>rd_exist := True, rd_codehash := keccak256 h []\<rparr>)"

definition read_acct :: "'t acct \<Rightarrow> acct_reads" where
  "read_acct v =
     \<lparr>rd_exist = True, rd_balance = v_balance v, rd_nonce = v_nonce v, rd_code = v_code v,
      rd_codehash = BytesToHash (v_codehash v), rd_codesize = int (length (code_bytes (v_code v))),
      rd_suicided = v_suicided v, rd_state = v_state v, rd_committed = v_committed v\<rparr>"

lemma read_acct_update [simp]:
  "read_acct (v\<lparr>v_balance := n\<rparr>) = (read_acct v)\<lparr>rd_balance := n\<rparr>"
  "read_acct (v\<lparr>v_nonce := m\<rparr>) = (read_acct v)\<lparr>rd_nonce := m\<rparr>"
  "read_acct (v\<lparr>v_codehash := hash_Bytes ch, v_code := co\<rparr>) =
     (read_acct v)\<lparr>rd_code := co, rd_codehash := ch, rd_codesize := int (length (code_bytes co))\<rparr>"
  "read_acct (v\<lparr>v_state := st\<rparr>) = (read_acct v)\<lparr>rd_state := st\<rparr>"
  "read_acct (v\<lparr>v_suicided := b\<rparr>) = (read_acct v)\<lparr>rd_suicided := b\<rparr>"
  "rd_exist (read_acct v)" "rd_balance (read_acct v) = v_balance v" "rd_state (read_acct v) = v_state v"
  by (simp_all add: read_acct_def)

lemma reads_view:
  assumes "state_ok s"
  shows "reads s a = (case accounts (world_of s) a of None \<Rightarrow> no_reads | Some v \<Rightarrow> read_acct v)"
  unfolding reads_def Exist_view(1) [OF assms] GetBalance_view(1) [OF assms] GetNonce_view(1) [OF assms]
    GetCode_view(1) [OF assms] GetCodeHash_view(1) [OF assms] GetCodeSize_view(1) [OF assms] HasSuicided_view(1) [OF assms]
    GetState_fst [OF assms] GetCommittedState_fst [OF assms]
  by (cases "accounts (world_of s) a") (simp_all add: no_reads_def read_acct_def code_bytes_def del: world_of_sel)

lemma opened_blank:
  assumes "host_ok h"
  shows "opened h no_reads = read_acct (blank h a)"
  by (simp add: opened_def no_reads_def read_acct_def blank_sel [OF assms] emptyCodeHash_def code_bytes_def fun_eq_iff)

lemma opened_read:
  assumes "host_ok h"
  shows "opened h (case accounts w a of None \<Rightarrow> no_reads | Some v \<Rightarrow> read_acct v) = read_acct (acct h w a)"
  using opened_blank [OF assms, of a] by (cases "accounts w a") (simp_all add: acct_def, simp add: opened_def)

lemma rd_balance_acct:
  assumes "host_ok h"
  shows "rd_balance (case accounts w a of None \<Rightarrow> no_reads | Some v \<Rightarrow> read_acct v) = v_balance (acct h w a)"
  by (cases "accounts w a") (simp_all add: acct_def no_reads_def blank_sel [OF assms])

subsection \<open>A concrete database\<close>

definition demo_host :: "(bytes \<Rightarrow> bytes) host" where
  "demo_host =
     \<lparr>keccak256 = (\<lambda>b. of_nat (length b) + 7),
      TryGet = (\<lambda>t k. (take 64 (t k), None)),
      TryUpdate = (\<lambda>t k v. (t(k := v), None)), TryDelete = (\<lambda>t k. (t(k := []), None)),
      trie_Hash = (\<lambda>t. 0), OpenTrie = (\<lambda>r. Inr (\<lambda>k. [])), OpenStorageTrie = (\<lambda>a r. Inr (\<lambda>k. [])),
      CopyTrie = (\<lambda>t. t), ContractCode = (\<lambda>a c. (None, None)), ContractCodeSize = (\<lambda>a c. (0, None)),
      DecodeAccount = (\<lambda>enc. Some \<lparr>ad_Nonce = ucast (hd enc), ad_Balance = Some (SetBytes (tl enc)), ad_Root = 0, ad_CodeHash = None\<rparr>),
      EncodeAccount = (\<lambda>acc. Inr (ucast (acc_Nonce acc) # big_Bytes (acc_Balance acc)))\<rparr>"

definition demo_state :: "(bytes \<Rightarrow> bytes) StateDB" where
  "demo_state = (case New 0 demo_host of Inr s \<Rightarrow> s)"

lemma demo_state_eq:
  "demo_state = \<lparr>sdb_db = demo_host, sdb_trie = (\<lambda>k. []), stateObjects = Map.empty, stateObjectsDirty = {},
     sdb_dbErr = None, refund = 0, thash = 0, bhash = 0, txIndex = 0, logs = Map.empty, logSize = 0,
     preimages = Map.empty, sdb_journal = newJournal, validRevisions = [], nextRevisionId = 0\<rparr>"
  by (simp add: demo_state_def New_def demo_host_def)

lemma demo_host_ok: "host_ok demo_host"
proof -
  have "length (take 64 x) < 2 ^ 64" for x :: bytes by (rule le_less_trans [of _ 64]) simp_all
  then show ?thesis by (simp add: host_ok_def demo_host_def)
qed

lemma demo_state_ok: "state_ok demo_state" "journal_ok demo_state"
  by (simp_all add: state_ok_def trie_ok_def load_obj_def journal_ok_def demo_state_eq demo_host_ok newJournal_def)
    (simp_all add: demo_host_def)

subsection \<open>Properties\<close>




text \<open>C8. Storage round trip: after \<open>SetState\<close> of one slot, \<open>GetState\<close> returns the new value there and
  the old value of every other slot of every account, and \<open>GetCommittedState\<close> still returns the
  value from before the transaction.\<close>

theorem SetState_GetState:
  assumes "state_ok s" "journal_ok s"
  shows "\<exists>s1. SetState a k x s = Some s1
    \<and> map_option fst (GetState b j s1) = (if b = a \<and> j = k then Some x else map_option fst (GetState b j s))
    \<and> map_option fst (GetCommittedState b j s1) = map_option fst (GetCommittedState b j s)"
proof -
  obtain s1 where s1: "SetState a k x s = Some s1" "extends s s1"
    "world_of s1 = w_modify (sdb_db s) a (\<lambda>v. v\<lparr>v_state := (v_state v)(k := Some x)\<rparr>) (world_of s)"
    by (rule SetState_Some [OF assms])
  have h: "host_ok (sdb_db s)" using assms by (simp add: state_ok_def)
  have ok1: "state_ok s1" using extendsD(3) [OF s1(2)] .
  show ?thesis
    using s1 blank_sel(6,7) [OF h]
    by (auto simp: GetState_fst [OF ok1] GetState_fst [OF assms(1)] GetCommittedState_fst [OF ok1]
        GetCommittedState_fst [OF assms(1)] acct_def simp del: world_of_sel split: option.splits)
qed

theorem SetState_GetState_witness:
  "\<exists>s1. SetState 1 2 3 demo_state = Some s1
    \<and> map_option fst (GetState 1 2 s1) = (if 1 = (1 :: address) \<and> 2 = (2 :: hash) then Some 3 else map_option fst (GetState 1 2 demo_state))
    \<and> map_option fst (GetCommittedState 1 2 s1) = map_option fst (GetCommittedState 1 2 demo_state)"
  by (rule SetState_GetState [OF demo_state_ok])

text \<open>C9. What a setter changes of what the getters read. All the getters of an account together are \<open>reads s b\<close>: existence, balance,
  nonce, code with its hash and size, the suicide mark and every slot of the current and the committed storage. \<open>AddBalance\<close>,
  \<open>SubBalance\<close>, \<open>SetBalance\<close>, \<open>SetNonce\<close>, \<open>SetCode\<close> and \<open>SetState\<close> create the account if there is none and change the one field
  they are named after; \<open>CreateAccount\<close> leaves a blank account with the old balance; \<open>Suicide\<close> marks an existing account and takes
  its balance. Every other reading of that account, and every reading of every other account, is as before.\<close>

theorem setters_getters:
  fixes a :: address
  assumes "state_ok s" "journal_ok s"
  defines "r \<equiv> opened (sdb_db s) (reads s a)"
  shows "reads (AddBalance a n s) = (reads s)(a := r\<lparr>rd_balance := rd_balance r + n\<rparr>)
   \<and> reads (SubBalance a n s) = (reads s)(a := r\<lparr>rd_balance := rd_balance r - n\<rparr>)
   \<and> reads (SetBalance a n s) = (reads s)(a := r\<lparr>rd_balance := n\<rparr>)
   \<and> reads (SetNonce a m s) = (reads s)(a := r\<lparr>rd_nonce := m\<rparr>)
   \<and> reads (SetCode a co s) = (reads s)(a := r\<lparr>rd_code := co, rd_codehash := keccak256 (sdb_db s) (code_bytes co),
       rd_codesize := int (length (code_bytes co))\<rparr>)
   \<and> (\<exists>s1. SetState a k x s = Some s1 \<and> reads s1 = (reads s)(a := r\<lparr>rd_state := (rd_state r)(k := Some x)\<rparr>))
   \<and> reads (CreateAccount a s) = (reads s)(a := (opened (sdb_db s) no_reads)\<lparr>rd_balance := rd_balance (reads s a)\<rparr>)
   \<and> reads (snd (Suicide a s)) = (if rd_exist (reads s a)
       then (reads s)(a := (reads s a)\<lparr>rd_suicided := True, rd_balance := 0\<rparr>) else reads s)"
proof -
  have h: "host_ok (sdb_db s)" using assms by (simp add: state_ok_def)
  note R = reads_view [OF assms(1)]
  have r: "r = read_acct (acct (sdb_db s) (world_of s) a)" unfolding r_def R by (rule opened_read [OF h])
  have modify: "reads s' = (reads s)(a := read_acct (f (acct (sdb_db s) (world_of s) a)))"
    if "extends s s'" "world_of s' = w_modify (sdb_db s) a f (world_of s)" for s' f
    using extendsD(3) [OF that(1)] that(2) by (auto simp: reads_view R fun_eq_iff simp del: world_of_sel)
  note m = modify [OF AddBalance_view [OF assms(1,2)]] modify [OF SubBalance_view [OF assms(1,2)]]
    modify [OF SetBalance_view [OF assms(1,2)]] modify [OF SetNonce_view [OF assms(1,2)]] modify [OF SetCode_view [OF assms(1,2)]]
  have 1: "reads (AddBalance a n s) = (reads s)(a := r\<lparr>rd_balance := rd_balance r + n\<rparr>)" by (simp add: m r)
  have 2: "reads (SubBalance a n s) = (reads s)(a := r\<lparr>rd_balance := rd_balance r - n\<rparr>)" by (simp add: m r)
  have 3: "reads (SetBalance a n s) = (reads s)(a := r\<lparr>rd_balance := n\<rparr>)" by (simp add: m r)
  have 4: "reads (SetNonce a m s) = (reads s)(a := r\<lparr>rd_nonce := m\<rparr>)" by (simp add: m r)
  have 5: "reads (SetCode a co s) = (reads s)(a := r\<lparr>rd_code := co, rd_codehash := keccak256 (sdb_db s) (code_bytes co),
       rd_codesize := int (length (code_bytes co))\<rparr>)" by (simp add: m r code_bytes_def)
  obtain s1 where s1: "SetState a k x s = Some s1" "extends s s1"
    "world_of s1 = w_modify (sdb_db s) a (\<lambda>v. v\<lparr>v_state := (v_state v)(k := Some x)\<rparr>) (world_of s)"
    by (rule SetState_Some [OF assms(1,2)])
  then have 6: "\<exists>s1. SetState a k x s = Some s1 \<and> reads s1 = (reads s)(a := r\<lparr>rd_state := (rd_state r)(k := Some x)\<rparr>)"
    using modify [OF s1(2,3)] by (simp add: r)
  have 7: "reads (CreateAccount a s) = (reads s)(a := (opened (sdb_db s) no_reads)\<lparr>rd_balance := rd_balance (reads s a)\<rparr>)"
    using extendsD(3) [OF CreateAccount_view(1) [OF assms(1,2)]] opened_blank [OF h, of a] rd_balance_acct [OF h, of "world_of s" a]
    by (auto simp: reads_view R fun_eq_iff CreateAccount_view(2) [OF assms(1,2)] simp del: world_of_sel)
  have 8: "reads (snd (Suicide a s)) = (if rd_exist (reads s a)
       then (reads s)(a := (reads s a)\<lparr>rd_suicided := True, rd_balance := 0\<rparr>) else reads s)"
    using extendsD(3) [OF Suicide_view(2) [OF assms(1,2)]]
    by (auto simp: reads_view R fun_eq_iff Suicide_view(3) [OF assms(1,2)] no_reads_def simp del: world_of_sel split: option.splits)
  show ?thesis using 1 2 3 4 5 6 7 8 by blast
qed

theorem setters_getters_witness:
  "rd_balance (reads (AddBalance 1 10 demo_state) 1) = rd_balance (opened demo_host (reads demo_state 1)) + 10
   \<and> reads (AddBalance 1 10 demo_state) 2 = reads demo_state 2"
  using setters_getters [OF demo_state_ok, of 1 10] by (simp add: demo_state_eq)

end
