(* ===== verification/VM_Base.thy ===== *)
theory VM_Base
  imports Params Rlp
begin

unbundle bit_operations_syntax

text \<open>
  The data structures of \<open>src/kernel/vm\<close>: the operand stack (\<open>stack.go\<close>, \<open>stack_table.go\<close>), the byte
  memory (\<open>memory.go\<close>), the helpers of \<open>common.go\<close>, the memory sizes of \<open>memory_table.go\<close>, the jump
  destination analysis (\<open>analysis.go\<close>) and \<open>contract.go\<close>.

  A stack is the list of its words, top first (the Go slice keeps the top last). A Go slice that may
  be \<open>nil\<close> is a \<open>gobytes\<close>. The pool of recycled integers (\<open>intpool.go\<close>) is storage reuse without
  observable effect and is not modelled.
\<close>

type_synonym gobytes = "bytes option"

definition sl :: "gobytes \<Rightarrow> bytes" where
  "sl b = (case b of None \<Rightarrow> [] | Some x \<Rightarrow> x)"

lemma sl_simps [simp]: "sl None = []" "sl (Some x) = x"
  by (simp_all add: sl_def)

subsection \<open>errors.go and the other error values\<close>

datatype vm_error =
    ErrOutOfGas | ErrCodeStoreOutOfGas | ErrDepth | ErrTraceLimitReached | ErrInsufficientBalance
  | ErrContractAddressCollision | ErrNoCompatibleInterpreter
  | errWriteProtection | errReturnDataOutOfBounds | errExecutionReverted | errMaxCodeSizeExceeded
  | errGasUintOverflow | errBadPairingInput
  | errStackUnderflow nat nat | errStackLimit nat | errInvalidOpcode byte | errInvalidJump byte int
  | errCurve string

subsection \<open>opcodes.go: the opcodes the code below names\<close>

abbreviation JUMPDEST :: byte where "JUMPDEST \<equiv> 0x5b"
abbreviation PUSH1 :: byte where "PUSH1 \<equiv> 0x60"
abbreviation PUSH32 :: byte where "PUSH32 \<equiv> 0x7f"
abbreviation CALL :: byte where "CALL \<equiv> 0xf1"

subsection \<open>stack.go, stack_table.go\<close>

type_synonym Stack = "int list"

definition newstack :: Stack where "newstack = []"

definition push :: "int \<Rightarrow> Stack \<Rightarrow> Stack" where "push d st = d # st"

definition pop :: "Stack \<Rightarrow> (int \<times> Stack) option" where
  "pop st = (case st of [] \<Rightarrow> None | x # xs \<Rightarrow> Some (x, xs))"

definition peek :: "Stack \<Rightarrow> int option" where
  "peek st = (case st of [] \<Rightarrow> None | x # xs \<Rightarrow> Some x)"

definition Back :: "Stack \<Rightarrow> nat \<Rightarrow> int option" where
  "Back st n = (if n < length st then Some (st ! n) else None)"

definition swap :: "nat \<Rightarrow> Stack \<Rightarrow> Stack option" where
  "swap n st =
     (if 0 < n \<and> n \<le> length st then Some ((st[0 := st ! (n - 1)])[n - 1 := st ! 0]) else None)"

definition dup :: "nat \<Rightarrow> Stack \<Rightarrow> Stack option" where
  "dup n st = (if 0 < n \<and> n \<le> length st then Some (push (st ! (n - 1)) st) else None)"

definition require :: "nat \<Rightarrow> Stack \<Rightarrow> vm_error option" where
  "require n st = (if length st < n then Some (errStackUnderflow (length st) n) else None)"

definition makeStackFunc :: "nat \<Rightarrow> nat \<Rightarrow> Stack \<Rightarrow> vm_error option" where
  "makeStackFunc pops pushes st =
     (case require pops st of
        Some err \<Rightarrow> Some err
      | None \<Rightarrow> if int (length st) + int pushes - int pops > int StackLimit
               then Some (errStackLimit (length st)) else None)"

definition makeDupStackFunc :: "nat \<Rightarrow> Stack \<Rightarrow> vm_error option" where
  "makeDupStackFunc n = makeStackFunc n (n + 1)"

definition makeSwapStackFunc :: "nat \<Rightarrow> Stack \<Rightarrow> vm_error option" where
  "makeSwapStackFunc n = makeStackFunc n n"

subsection \<open>memory.go\<close>

record Memory =
  store :: bytes
  lastGasCost :: u64

definition NewMemory :: Memory where
  "NewMemory = \<lparr>store = [], lastGasCost = 0\<rparr>"

definition mem_Set :: "u64 \<Rightarrow> u64 \<Rightarrow> bytes \<Rightarrow> Memory \<Rightarrow> Memory option" where
  "mem_Set offset sz v m =
     (if sz > 0 then
        (if offset + sz > of_nat (length (store m)) then None
         else do { s \<leftarrow> copy_into (store m) (unat offset) (unat (offset + sz)) v;
                   Some (m\<lparr>store := s\<rparr>) })
      else Some m)"

definition mem_Set32 :: "u64 \<Rightarrow> int \<Rightarrow> Memory \<Rightarrow> Memory option" where
  "mem_Set32 offset val m =
     (if offset + 32 > of_nat (length (store m)) then None
      else do { s \<leftarrow> copy_into (store m) (unat offset) (unat (offset + 32)) (ReadBits val (replicate 32 0));
                Some (m\<lparr>store := s\<rparr>) })"

definition Resize :: "u64 \<Rightarrow> Memory \<Rightarrow> Memory option" where
  "Resize sz m =
     (if of_nat (length (store m)) < sz
      then do { z \<leftarrow> make_bytes (uint (sz - of_nat (length (store m)))); Some (m\<lparr>store := store m @ z\<rparr>) }
      else Some m)"

text \<open>\<open>int64\<close> offsets and sizes; a negative one panics in \<open>make\<close> or in the slice expression.\<close>

definition mem_slice :: "int \<Rightarrow> int \<Rightarrow> Memory \<Rightarrow> bytes option" where
  "mem_slice offset sz m =
     (if 0 \<le> offset \<and> 0 \<le> sz then slice (store m) (nat offset) (nat (offset + sz)) else None)"

definition mem_Get :: "int \<Rightarrow> int \<Rightarrow> Memory \<Rightarrow> gobytes option" where
  "mem_Get offset sz m =
     (if sz = 0 then Some None
      else if int (length (store m)) > offset then do {
        cpy \<leftarrow> make_bytes sz;
        d \<leftarrow> mem_slice offset sz m;
        map_option Some (copy_into cpy 0 (length cpy) d) }
      else Some None)"

definition GetPtr :: "int \<Rightarrow> int \<Rightarrow> Memory \<Rightarrow> gobytes option" where
  "GetPtr offset sz m =
     (if sz = 0 then Some None
      else if int (length (store m)) > offset then map_option Some (mem_slice offset sz m)
      else Some None)"

definition mem_Len :: "Memory \<Rightarrow> nat" where "mem_Len m = length (store m)"

subsection \<open>common.go\<close>

definition calcMemSize :: "int \<Rightarrow> int \<Rightarrow> int" where
  "calcMemSize off l = (if l = 0 then 0 else off + l)"

definition getData :: "bytes \<Rightarrow> u64 \<Rightarrow> u64 \<Rightarrow> bytes option" where
  "getData d start sz =
     (let len = of_nat (length d);
          start = (if start > len then len else start);
          e = start + sz;
          e = (if e > len then len else e)
      in do { x \<leftarrow> slice d (unat start) (unat e); RightPadBytes x (sint sz) })"

definition getDataBig :: "bytes \<Rightarrow> int \<Rightarrow> int \<Rightarrow> bytes option" where
  "getDataBig d start sz =
     (let dlen = int (length d);
          s = BigMin start dlen;
          e = BigMin (s + sz) dlen
      in do { x \<leftarrow> slice d (unat (Uint64 s)) (unat (Uint64 e)); RightPadBytes x (sint (Uint64 sz)) })"

definition bigUint64 :: "int \<Rightarrow> u64 \<times> bool" where
  "bigUint64 v = (Uint64 v, BitLen v > 64)"

definition toWordSize :: "u64 \<Rightarrow> u64" where
  "toWordSize sz = (if sz > MaxUint64 - 31 then MaxUint64 div 32 + 1 else (sz + 31) div 32)"

definition allZero :: "bytes \<Rightarrow> bool" where
  "allZero b = list_all (\<lambda>x. x = 0) b"

subsection \<open>memory_table.go\<close>

definition memorySha3 :: "Stack \<Rightarrow> int option" where
  "memorySha3 st = do { a \<leftarrow> Back st 0; b \<leftarrow> Back st 1; Some (calcMemSize a b) }"

definition memoryCallDataCopy :: "Stack \<Rightarrow> int option" where
  "memoryCallDataCopy st = do { a \<leftarrow> Back st 0; b \<leftarrow> Back st 2; Some (calcMemSize a b) }"

definition memoryReturnDataCopy :: "Stack \<Rightarrow> int option" where
  "memoryReturnDataCopy st = do { a \<leftarrow> Back st 0; b \<leftarrow> Back st 2; Some (calcMemSize a b) }"

definition memoryCodeCopy :: "Stack \<Rightarrow> int option" where
  "memoryCodeCopy st = do { a \<leftarrow> Back st 0; b \<leftarrow> Back st 2; Some (calcMemSize a b) }"

definition memoryExtCodeCopy :: "Stack \<Rightarrow> int option" where
  "memoryExtCodeCopy st = do { a \<leftarrow> Back st 1; b \<leftarrow> Back st 3; Some (calcMemSize a b) }"

definition memoryMLoad :: "Stack \<Rightarrow> int option" where
  "memoryMLoad st = do { a \<leftarrow> Back st 0; Some (calcMemSize a 32) }"

definition memoryMStore8 :: "Stack \<Rightarrow> int option" where
  "memoryMStore8 st = do { a \<leftarrow> Back st 0; Some (calcMemSize a 1) }"

definition memoryMStore :: "Stack \<Rightarrow> int option" where
  "memoryMStore st = do { a \<leftarrow> Back st 0; Some (calcMemSize a 32) }"

definition memoryCreate :: "Stack \<Rightarrow> int option" where
  "memoryCreate st = do { a \<leftarrow> Back st 1; b \<leftarrow> Back st 2; Some (calcMemSize a b) }"

definition memoryCreate2 :: "Stack \<Rightarrow> int option" where
  "memoryCreate2 st = do { a \<leftarrow> Back st 1; b \<leftarrow> Back st 2; Some (calcMemSize a b) }"

definition memoryCall :: "Stack \<Rightarrow> int option" where
  "memoryCall st = do {
     a \<leftarrow> Back st 5; b \<leftarrow> Back st 6; c \<leftarrow> Back st 3; d \<leftarrow> Back st 4;
     Some (BigMax (calcMemSize a b) (calcMemSize c d)) }"

definition memoryDelegateCall :: "Stack \<Rightarrow> int option" where
  "memoryDelegateCall st = do {
     a \<leftarrow> Back st 4; b \<leftarrow> Back st 5; c \<leftarrow> Back st 2; d \<leftarrow> Back st 3;
     Some (BigMax (calcMemSize a b) (calcMemSize c d)) }"

definition memoryStaticCall :: "Stack \<Rightarrow> int option" where
  "memoryStaticCall st = do {
     a \<leftarrow> Back st 4; b \<leftarrow> Back st 5; c \<leftarrow> Back st 2; d \<leftarrow> Back st 3;
     Some (BigMax (calcMemSize a b) (calcMemSize c d)) }"

definition memoryReturn :: "Stack \<Rightarrow> int option" where
  "memoryReturn st = do { a \<leftarrow> Back st 0; b \<leftarrow> Back st 1; Some (calcMemSize a b) }"

definition memoryRevert :: "Stack \<Rightarrow> int option" where
  "memoryRevert st = do { a \<leftarrow> Back st 0; b \<leftarrow> Back st 1; Some (calcMemSize a b) }"

definition memoryLog :: "Stack \<Rightarrow> int option" where
  "memoryLog st = do { b \<leftarrow> Back st 1; a \<leftarrow> Back st 0; Some (calcMemSize a b) }"

subsection \<open>analysis.go\<close>

type_synonym bitvec = bytes

definition bv_set :: "u64 \<Rightarrow> bitvec \<Rightarrow> bitvec option" where
  "bv_set p bits =
     (let i = unat (p div 8)
      in if i < length bits then Some (bits[i := bits ! i OR drop_bit (unat (p mod 8)) 0x80]) else None)"

definition bv_set8 :: "u64 \<Rightarrow> bitvec \<Rightarrow> bitvec option" where
  "bv_set8 p bits =
     (let i = unat (p div 8); m = drop_bit (unat (p mod 8)) (0xFF :: byte)
      in if i + 1 < length bits
         then Some ((bits[i := bits ! i OR m])[i + 1 := bits ! (i + 1) OR NOT m]) else None)"

definition codeSegment :: "bitvec \<Rightarrow> u64 \<Rightarrow> bool option" where
  "codeSegment bits p =
     (let i = unat (p div 8)
      in if i < length bits then Some (bits ! i AND drop_bit (unat (p mod 8)) 0x80 = 0) else None)"

fun bitmap_set8s :: "nat \<Rightarrow> nat \<Rightarrow> u64 \<Rightarrow> bitvec \<Rightarrow> (nat \<times> u64 \<times> bitvec) option" where
  "bitmap_set8s 0 n pc bits = Some (n, pc, bits)"
| "bitmap_set8s (Suc k) n pc bits =
     (if n \<ge> 8 then do { b \<leftarrow> bv_set8 pc bits; bitmap_set8s k (n - 8) (pc + 8) b } else Some (n, pc, bits))"

fun bitmap_sets :: "nat \<Rightarrow> u64 \<Rightarrow> bitvec \<Rightarrow> (u64 \<times> bitvec) option" where
  "bitmap_sets 0 pc bits = Some (pc, bits)"
| "bitmap_sets (Suc n) pc bits = do { b \<leftarrow> bv_set pc bits; bitmap_sets n (pc + 1) b }"

text \<open>
  One round of the loop of \<open>codeBitmap\<close>: the opcode at \<open>pc\<close>, and its push data in steps of eight bits
  (at most four, as \<open>numbits \<le> 32\<close>) and then of one.
\<close>

definition bitmap_step :: "bytes \<Rightarrow> u64 \<Rightarrow> bitvec \<Rightarrow> (u64 \<times> bitvec) option" where
  "bitmap_step code pc bits =
     (let op = code ! unat pc
      in if op \<ge> PUSH1 \<and> op \<le> PUSH32 then do {
           (n, pc', bits') \<leftarrow> bitmap_set8s 4 (unat (op - PUSH1 + 1)) (pc + 1) bits;
           bitmap_sets n pc' bits' }
         else Some (pc + 1, bits))"

partial_function (option) bitmap_loop :: "bytes \<Rightarrow> u64 \<Rightarrow> bitvec \<Rightarrow> bitvec option" where
  "bitmap_loop code pc bits =
     (if unat pc < length code then do { (pc', bits') \<leftarrow> bitmap_step code pc bits; bitmap_loop code pc' bits' }
      else Some bits)"

definition codeBitmap :: "bytes \<Rightarrow> bitvec option" where
  "codeBitmap code = bitmap_loop code 0 (replicate (length code div 8 + 1 + 4) 0)"

subsection \<open>contract.go\<close>

text \<open>
  \<open>caller\<close> is only consulted when the contract is built, so it is an argument there; \<open>self\<close> is only
  asked for its address. The map \<open>jumpdests\<close>, which all contracts of one outermost call share by
  reference, is a component of the machine state and is passed to \<open>validJumpdest\<close>.
\<close>

record Contract =
  CallerAddress :: address
  self :: address
  analysis :: "bitvec option"
  c_Code :: bytes
  c_CodeHash :: hash
  c_CodeAddr :: "address option"
  c_Input :: bytes
  c_Gas :: u64
  c_value :: "int option"

datatype ContractRef = AccountRef address | OfContract Contract

fun ref_Address :: "ContractRef \<Rightarrow> address" where
  "ref_Address (AccountRef a) = a"
| "ref_Address (OfContract c) = self c"

definition NewContract :: "ContractRef \<Rightarrow> address \<Rightarrow> int option \<Rightarrow> u64 \<Rightarrow> Contract" where
  "NewContract cllr object v gas =
     \<lparr>CallerAddress = ref_Address cllr, self = object, analysis = None, c_Code = [], c_CodeHash = 0,
      c_CodeAddr = None, c_Input = [], c_Gas = gas, c_value = v\<rparr>"

definition AsDelegate :: "ContractRef \<Rightarrow> Contract \<Rightarrow> Contract option" where
  "AsDelegate cllr c =
     (case cllr of
        AccountRef _ \<Rightarrow> None
      | OfContract parent \<Rightarrow> Some (c\<lparr>CallerAddress := CallerAddress parent, c_value := c_value parent\<rparr>))"

definition GetByte :: "Contract \<Rightarrow> u64 \<Rightarrow> byte" where
  "GetByte c n = (if n < of_nat (length (c_Code c)) then c_Code c ! unat n else 0)"

definition GetOp :: "Contract \<Rightarrow> u64 \<Rightarrow> byte" where
  "GetOp c n = GetByte c n"

definition UseGas :: "u64 \<Rightarrow> Contract \<Rightarrow> bool \<times> Contract" where
  "UseGas gas c = (if c_Gas c < gas then (False, c) else (True, c\<lparr>c_Gas := c_Gas c - gas\<rparr>))"

definition SetCallCode :: "address option \<Rightarrow> hash \<Rightarrow> bytes \<Rightarrow> Contract \<Rightarrow> Contract" where
  "SetCallCode addr h code c = c\<lparr>c_Code := code, c_CodeHash := h, c_CodeAddr := addr\<rparr>"

definition SetCodeOptionalHash :: "address option \<Rightarrow> bytes \<times> hash \<Rightarrow> Contract \<Rightarrow> Contract" where
  "SetCodeOptionalHash addr codeAndHash c =
     c\<lparr>c_Code := fst codeAndHash, c_CodeHash := snd codeAndHash, c_CodeAddr := addr\<rparr>"

type_synonym jumpdest_cache = "hash \<rightharpoonup> bitvec"

definition validJumpdest ::
  "int \<Rightarrow> Contract \<Rightarrow> jumpdest_cache \<Rightarrow> (bool \<times> Contract \<times> jumpdest_cache) option" where
  "validJumpdest dest c jumpdests =
     (let udest = Uint64 dest
      in if BitLen dest \<ge> 63 \<or> udest \<ge> of_nat (length (c_Code c)) then Some (False, c, jumpdests)
         else if c_Code c ! unat udest \<noteq> JUMPDEST then Some (False, c, jumpdests)
         else if c_CodeHash c \<noteq> 0 then
           (case jumpdests (c_CodeHash c) of
              Some bits \<Rightarrow> do { b \<leftarrow> codeSegment bits udest; Some (b, c, jumpdests) }
            | None \<Rightarrow> do {
                bits \<leftarrow> codeBitmap (c_Code c);
                b \<leftarrow> codeSegment bits udest;
                Some (b, c, jumpdests(c_CodeHash c \<mapsto> bits)) })
         else
           (case analysis c of
              Some bits \<Rightarrow> do { b \<leftarrow> codeSegment bits udest; Some (b, c, jumpdests) }
            | None \<Rightarrow> do {
                bits \<leftarrow> codeBitmap (c_Code c);
                b \<leftarrow> codeSegment bits udest;
                Some (b, c\<lparr>analysis := Some bits\<rparr>, jumpdests) }))"

subsection \<open>The bitmap marks exactly the push data\<close>

definition bvbit :: "bitvec \<Rightarrow> nat \<Rightarrow> bool" where
  "bvbit bits q \<longleftrightarrow> bit (bits ! (q div 8)) (7 - q mod 8)"

lemma bit_0x80: "bit (0x80 :: byte) n \<longleftrightarrow> n = 7"
proof -
  have "bit (push_bit 7 (1 :: byte)) n \<longleftrightarrow> n = 7"
    by (auto simp only: bit_push_bit_iff bit_1_iff) auto
  then show ?thesis by simp
qed

lemma bit_0xFF: "bit (0xFF :: byte) n \<longleftrightarrow> n < 8"
proof -
  have "bit (mask 8 :: byte) n \<longleftrightarrow> n < 8" by (auto simp: bit_mask_iff)
  then show ?thesis by (simp add: mask_eq_exp_minus_1)
qed

lemma byte_bits:
  "bit (drop_bit k (0x80 :: byte)) n \<longleftrightarrow> k + n = 7"
  "bit (drop_bit k (0xFF :: byte)) n \<longleftrightarrow> k + n < 8"
  by (simp_all only: bit_drop_bit_eq o_def bit_0x80 bit_0xFF)

lemma and_0x80_eq_0:
  assumes "k < 8"
  shows "(b :: byte) AND drop_bit k 0x80 = 0 \<longleftrightarrow> \<not> bit b (7 - k)"
proof -
  have "b AND drop_bit k 0x80 = 0 \<longleftrightarrow> (\<forall>n. \<not> (bit b n \<and> k + n = 7))"
  proof
    assume "b AND drop_bit k 0x80 = 0"
    then show "\<forall>n. \<not> (bit b n \<and> k + n = 7)"
      by (metis bit_and_iff bit_0_eq bot_apply bot_bool_def byte_bits(1))
  next
    assume "\<forall>n. \<not> (bit b n \<and> k + n = 7)"
    then show "b AND drop_bit k 0x80 = 0" by (auto intro!: bit_word_eqI simp only: bit_and_iff byte_bits bit_0_eq bot_apply bot_bool_def)
  qed
  also have "\<dots> \<longleftrightarrow> \<not> bit b (7 - k)"
  proof -
    have "k + n = 7 \<longleftrightarrow> n = 7 - k" for n using assms by auto
    then show ?thesis by auto
  qed
  finally show ?thesis .
qed

lemma codeSegment_bvbit:
  "unat p div 8 < length bits \<Longrightarrow> codeSegment bits p = Some (\<not> bvbit bits (unat p))"
  by (simp add: codeSegment_def bvbit_def Let_def unat_div unat_mod and_0x80_eq_0)

lemma bv_set_bvbit:
  assumes "unat p div 8 < length bits"
  obtains bits' where "bv_set p bits = Some bits'" "length bits' = length bits"
    "\<And>q. bvbit bits' q \<longleftrightarrow> bvbit bits q \<or> q = unat p"
proof -
  define i where "i = unat p div 8"
  define k where "k = unat p mod 8"
  define bits' where "bits' = bits[i := bits ! i OR drop_bit k 0x80]"
  have "bvbit bits' q \<longleftrightarrow> bvbit bits q \<or> q = unat p" for q
  proof (cases "q div 8 = i")
    case True
    have "k + (7 - q mod 8) = 7 \<longleftrightarrow> q mod 8 = k" by (auto simp: k_def)
    also have "\<dots> \<longleftrightarrow> q = unat p" using True by (metis div_mod_decomp i_def k_def)
    finally show ?thesis using assms True
      by (simp add: bvbit_def bits'_def i_def [symmetric] bit_or_iff byte_bits)
  next
    case False
    then show ?thesis by (auto simp: bvbit_def bits'_def i_def)
  qed
  moreover have "bv_set p bits = Some bits'"
    using assms by (simp add: bv_set_def bits'_def i_def k_def Let_def unat_div unat_mod)
  ultimately show ?thesis using that by (simp add: bits'_def)
qed

lemma bv_set8_bvbit:
  assumes "unat p div 8 + 1 < length bits"
  obtains bits' where "bv_set8 p bits = Some bits'" "length bits' = length bits"
    "\<And>q. bvbit bits' q \<longleftrightarrow> bvbit bits q \<or> unat p \<le> q \<and> q < unat p + 8"
proof -
  define i where "i = unat p div 8"
  define k where "k = unat p mod 8"
  have p: "unat p = 8 * i + k" "k < 8" by (simp_all add: i_def k_def)
  define m where "m = drop_bit k (0xFF :: byte)"
  define bits' where "bits' = (bits[i := bits ! i OR m])[i + 1 := bits ! (i + 1) OR NOT m]"
  have m: "bit m n \<longleftrightarrow> k + n < 8" for n using p(2) by (simp add: m_def byte_bits)
  have "bvbit bits' q \<longleftrightarrow> bvbit bits q \<or> unat p \<le> q \<and> q < unat p + 8" for q
  proof -
    define j where "j = q div 8"
    define l where "l = q mod 8"
    have q: "q = 8 * j + l" "l < 8" by (simp_all add: j_def l_def)
    consider "j = i" | "j = i + 1" | "j \<noteq> i" "j \<noteq> i + 1" by blast
    then show ?thesis
    proof cases
      case 1
      then have "bvbit bits' q \<longleftrightarrow> bvbit bits q \<or> bit m (7 - l)"
        using assms by (simp add: bvbit_def bits'_def i_def [symmetric] j_def [symmetric] l_def [symmetric] bit_or_iff bit_not_iff)
      then show ?thesis using 1 p q by (auto simp: m)
    next
      case 2
      then have "bvbit bits' q \<longleftrightarrow> bvbit bits q \<or> \<not> bit m (7 - l)"
        using assms by (simp add: bvbit_def bits'_def i_def [symmetric] j_def [symmetric] l_def [symmetric] bit_or_iff bit_not_iff) auto
      then show ?thesis using 2 p q by (auto simp: m)
    next
      case 3
      then have "bvbit bits' q \<longleftrightarrow> bvbit bits q"
        by (simp add: bvbit_def bits'_def j_def [symmetric])
      moreover have "\<not> (unat p \<le> q \<and> q < unat p + 8)" using 3 p q by linarith
      ultimately show ?thesis by blast
    qed
  qed
  moreover have "bv_set8 p bits = Some bits'"
    using assms by (simp add: bv_set8_def bits'_def m_def i_def k_def Let_def unat_div unat_mod)
  ultimately show ?thesis using that by (simp add: bits'_def)
qed

lemma unat_add_of_nat:
  assumes "unat (a :: u64) + m < 2 ^ 64"
  shows "unat (a + of_nat m) = unat a + m"
proof -
  have "unat (of_nat m :: u64) = m" using assms by (simp add: unat_of_nat)
  then show ?thesis using assms unat_add_no_wrap [of a "of_nat m"] by simp
qed

lemma bitmap_sets_bvbit:
  assumes "n = 0 \<or> (unat pc + n - 1) div 8 < length bits" "unat pc + n < 2 ^ 64"
  shows "\<exists>bits'. bitmap_sets n pc bits = Some (pc + of_nat n, bits') \<and> length bits' = length bits \<and>
    (\<forall>q. bvbit bits' q \<longleftrightarrow> bvbit bits q \<or> unat pc \<le> q \<and> q < unat pc + n)"
  using assms
proof (induction n arbitrary: pc bits)
  case 0
  then show ?case by auto
next
  case (Suc n)
  have "unat pc div 8 \<le> (unat pc + Suc n - 1) div 8" by (intro div_le_mono) simp
  then have "unat pc div 8 < length bits" using Suc.prems(1) by simp
  then obtain b where b: "bv_set pc bits = Some b" "length b = length bits"
    "\<And>q. bvbit b q \<longleftrightarrow> bvbit bits q \<or> q = unat pc" by (rule bv_set_bvbit) blast
  have u: "unat (pc + 1) = unat pc + 1"
    using Suc.prems(2) unat_add_no_wrap [of pc 1] by simp
  have "\<exists>bits'. bitmap_sets n (pc + 1) b = Some (pc + 1 + of_nat n, bits') \<and> length bits' = length b \<and>
    (\<forall>q. bvbit bits' q \<longleftrightarrow> bvbit b q \<or> unat (pc + 1) \<le> q \<and> q < unat (pc + 1) + n)"
    using Suc.prems b(2) by (intro Suc.IH) (auto simp: u)
  then show ?case using b by (auto simp: u add.assoc)
qed

lemma bitmap_set8s_bvbit:
  assumes "n < 8 \<or> (unat pc + n - 8) div 8 + 1 < length bits" "unat pc + n < 2 ^ 64" "n < 8 * Suc k"
  shows "\<exists>bits'. bitmap_set8s k n pc bits = Some (n mod 8, pc + of_nat (n - n mod 8), bits') \<and>
    length bits' = length bits \<and>
    (\<forall>q. bvbit bits' q \<longleftrightarrow> bvbit bits q \<or> unat pc \<le> q \<and> q < unat pc + (n - n mod 8))"
  using assms
proof (induction k arbitrary: n pc bits)
  case 0
  then show ?case by auto
next
  case (Suc k)
  show ?case
  proof (cases "n \<ge> 8")
    case False
    then show ?thesis by auto
  next
    case True
    have "unat pc div 8 \<le> (unat pc + n - 8) div 8" using True by (intro div_le_mono) simp
    then have "unat pc div 8 + 1 < length bits" using Suc.prems(1) True by simp
    then obtain b where b: "bv_set8 pc bits = Some b" "length b = length bits"
      "\<And>q. bvbit b q \<longleftrightarrow> bvbit bits q \<or> unat pc \<le> q \<and> q < unat pc + 8" by (rule bv_set8_bvbit) blast
    have u: "unat (pc + 8) = unat pc + 8"
      using Suc.prems(2) True unat_add_no_wrap [of pc 8] by simp
    obtain m where n: "n = m + 8" using True by (metis le_add_diff_inverse2)
    define l where "l = m - m mod 8"
    obtain b' where b': "bitmap_set8s k m (pc + 8) b = Some (m mod 8, pc + 8 + of_nat l, b')"
      "length b' = length b"
      "\<forall>q. bvbit b' q \<longleftrightarrow> bvbit b q \<or> unat pc + 8 \<le> q \<and> q < unat pc + 8 + l"
      using Suc.IH [of m "pc + 8" b, folded l_def, unfolded u] Suc.prems n b(2) by auto
    have l: "n - m mod 8 = 8 + l" "n mod 8 = m mod 8" using n by (simp_all add: l_def)
    have "bitmap_set8s (Suc k) n pc bits = Some (m mod 8, pc + of_nat (8 + l), b')"
      using b(1) b'(1) n by (simp add: add.assoc)
    moreover have "bvbit b' q \<longleftrightarrow> bvbit bits q \<or> unat pc \<le> q \<and> q < unat pc + (8 + l)" for q
      using b(3) [of q] b'(3) [rule_format, of q] by linarith
    ultimately have "bitmap_set8s (Suc k) n pc bits = Some (m mod 8, pc + of_nat (8 + l), b') \<and>
      length b' = length bits \<and>
      (\<forall>q. bvbit b' q \<longleftrightarrow> bvbit bits q \<or> unat pc \<le> q \<and> q < unat pc + (8 + l))"
      using b(2) b'(2) by metis
    then show ?thesis unfolding l(1) l(2) by (rule exI)
  qed
qed

definition push_size :: "byte \<Rightarrow> nat" where
  "push_size op = (if op \<ge> PUSH1 \<and> op \<le> PUSH32 then unat (op - PUSH1 + 1) else 0)"

lemma push_size_le: "push_size op \<le> 32"
proof (cases "op \<ge> PUSH1 \<and> op \<le> PUSH32")
  case True
  then have "unat op \<ge> 96" "unat op \<le> 127" by (simp_all add: word_le_nat_alt)
  moreover have "unat (op - PUSH1) = unat op - 96"
    using True by (simp add: unat_sub)
  ultimately have "unat (op - PUSH1 + 1) = unat op - 96 + 1"
    by (subst unat_add_lem [THEN iffD1]) auto
  then show ?thesis using True \<open>unat op \<le> 127\<close> by (simp add: push_size_def)
qed (auto simp: push_size_def)

lemma bitmap_step_bvbit:
  assumes "unat pc < length code" "length bits = length code div 8 + 5" "length code < 2 ^ 63"
  shows "\<exists>bits'. bitmap_step code pc bits = Some (pc + 1 + of_nat (push_size (code ! unat pc)), bits') \<and>
    length bits' = length bits \<and>
    (\<forall>q. bvbit bits' q \<longleftrightarrow>
       bvbit bits q \<or> unat pc < q \<and> q < unat pc + 1 + push_size (code ! unat pc))"
proof (cases "code ! unat pc \<ge> PUSH1 \<and> code ! unat pc \<le> PUSH32")
  case False
  then have "push_size (code ! unat pc) = 0" by (auto simp: push_size_def)
  then show ?thesis using False by (auto simp: bitmap_step_def Let_def)
next
  case True
  define n where "n = push_size (code ! unat pc)"
  have n: "n \<le> 32" by (simp add: n_def push_size_le)
  have u: "unat (pc + 1) = unat pc + 1" using assms unat_add_no_wrap [of pc 1] by simp
  have b1: "(unat pc + 1 + n - 8) div 8 + 1 < length bits"
  proof -
    have "(unat pc + 1 + n - 8) div 8 \<le> (length code + 24) div 8" using n assms(1) by (intro div_le_mono) simp
    then show ?thesis using assms(2) by simp
  qed
  have b2: "(unat pc + n) div 8 < length bits"
  proof -
    have "(unat pc + n) div 8 \<le> (length code + 32) div 8" using n assms(1) by (intro div_le_mono) simp
    then show ?thesis using assms(2) by simp
  qed
  define m where "m = n - n mod 8"
  have nm: "m + n mod 8 = n" by (simp add: m_def)
  obtain b where b: "bitmap_set8s 4 n (pc + 1) bits = Some (n mod 8, pc + 1 + of_nat m, b)"
    "length b = length bits"
    "\<forall>q. bvbit b q \<longleftrightarrow> bvbit bits q \<or> unat pc + 1 \<le> q \<and> q < unat pc + 1 + m"
    using bitmap_set8s_bvbit [of n "pc + 1" bits 4, folded m_def, unfolded u] b1 n assms by auto
  have v: "unat (pc + 1 + of_nat m) = unat pc + 1 + m"
    using n assms unat_add_of_nat [of "pc + 1" m] nm unfolding u by simp
  have i: "unat pc + 1 + m + n mod 8 - 1 = unat pc + n" "unat pc + 1 + m + n mod 8 = unat pc + 1 + n"
    using nm by simp_all
  obtain b' where b': "bitmap_sets (n mod 8) (pc + 1 + of_nat m) b =
      Some (pc + 1 + of_nat m + of_nat (n mod 8), b')" "length b' = length b"
    "\<forall>q. bvbit b' q \<longleftrightarrow> bvbit b q \<or> unat pc + 1 + m \<le> q \<and> q < unat pc + 1 + n"
    using bitmap_sets_bvbit [of "n mod 8" "pc + 1 + of_nat m" b, unfolded v i] b2 b(2) n assms by auto
  have w: "pc + 1 + of_nat m + of_nat (n mod 8) = pc + 1 + (of_nat n :: u64)"
    by (metis add.assoc nm of_nat_add)
  have "bitmap_step code pc bits = Some (pc + 1 + of_nat n, b')"
    using True b(1) b'(1) w by (simp add: bitmap_step_def Let_def n_def [unfolded push_size_def] push_size_def)
  moreover have "bvbit b' q \<longleftrightarrow> bvbit bits q \<or> unat pc < q \<and> q < unat pc + 1 + n" for q
  proof -
    have "m \<le> n" by (simp add: m_def)
    then show ?thesis using b(3) [rule_format, of q] b'(3) [rule_format, of q] by linarith
  qed
  ultimately have "bitmap_step code pc bits = Some (pc + 1 + of_nat n, b') \<and> length b' = length bits \<and>
    (\<forall>q. bvbit b' q \<longleftrightarrow> bvbit bits q \<or> unat pc < q \<and> q < unat pc + 1 + n)"
    using b(2) b'(2) by metis
  then show ?thesis unfolding n_def by (rule exI)
qed

text \<open>
  The specification: decoding \<open>code\<close> from position \<open>p\<close>, one instruction and its push data at a time, comes to
  an instruction at position \<open>q\<close>.
\<close>

function instr_at :: "bytes \<Rightarrow> nat \<Rightarrow> nat \<Rightarrow> bool" where
  "instr_at code p q \<longleftrightarrow>
     (if p < length code then q = p \<or> instr_at code (p + 1 + push_size (code ! p)) q else False)"
  by pat_completeness auto
termination by (relation "measure (\<lambda>(code, p, q). length code - p)") auto

declare instr_at.simps [simp del]

lemma instr_at_le: "instr_at code p q \<Longrightarrow> p \<le> q"
proof (induction code p q rule: instr_at.induct)
  case (1 code p q)
  show ?case
  proof (cases "p < length code")
    case True
    then show ?thesis using 1 by (subst (asm) (2) instr_at.simps) (auto simp: True)
  next
    case False
    then show ?thesis using 1(2) by (subst (asm) instr_at.simps) simp
  qed
qed

lemma bitmap_loop_bvbit:
  assumes "length bits = length code div 8 + 5" "length code < 2 ^ 63"
  shows "\<exists>bits'. bitmap_loop code pc bits = Some bits' \<and> length bits' = length bits \<and>
    (\<forall>q < length code. bvbit bits' q \<longleftrightarrow> bvbit bits q \<or> unat pc \<le> q \<and> \<not> instr_at code (unat pc) q)"
  using assms
proof (induction "length code - unat pc" arbitrary: pc bits rule: less_induct)
  case less
  show ?case
  proof (cases "unat pc < length code")
    case False
    then show ?thesis by (subst bitmap_loop.simps) auto
  next
    case True
    define n where "n = push_size (code ! unat pc)"
    obtain b where b: "bitmap_step code pc bits = Some (pc + 1 + of_nat n, b)" "length b = length bits"
      "\<forall>q. bvbit b q \<longleftrightarrow> bvbit bits q \<or> unat pc < q \<and> q < unat pc + 1 + n"
      using bitmap_step_bvbit [OF True less.prems] by (auto simp: n_def)
    have n: "n \<le> 32" by (simp add: n_def push_size_le)
    have u: "unat (pc + 1) = unat pc + 1" using True less.prems unat_add_no_wrap [of pc 1] by simp
    have v: "unat (pc + 1 + of_nat n) = unat pc + 1 + n"
      using n less.prems True unat_add_of_nat [of "pc + 1" n] unfolding u by simp
    have dec: "length code - (unat pc + 1 + n) < length code - unat pc" using True by simp
    obtain b' where b': "bitmap_loop code (pc + 1 + of_nat n) b = Some b'" "length b' = length b"
      "\<forall>q < length code. bvbit b' q \<longleftrightarrow> bvbit b q \<or> unat pc + 1 + n \<le> q \<and> \<not> instr_at code (unat pc + 1 + n) q"
      using less.hyps [of "pc + 1 + of_nat n" b, unfolded v] less.prems b(2) dec by (metis (no_types, lifting))
    have i: "instr_at code (unat pc) q \<longleftrightarrow> q = unat pc \<or> instr_at code (unat pc + 1 + n) q" for q
      using True by (subst instr_at.simps) (simp add: n_def)
    have "bvbit b' q \<longleftrightarrow> bvbit bits q \<or> unat pc \<le> q \<and> \<not> instr_at code (unat pc) q"
      if "q < length code" for q
    proof -
      have "instr_at code (unat pc + 1 + n) q \<Longrightarrow> unat pc + 1 + n \<le> q" by (rule instr_at_le)
      then show ?thesis using b(3) b'(3) that by (auto simp: i not_less less_eq_Suc_le)
    qed
    then show ?thesis
      using b b' True by (subst bitmap_loop.simps) (auto)
  qed
qed

lemma bvbit_replicate [simp]: "q div 8 < n \<Longrightarrow> \<not> bvbit (replicate n 0) q"
  by (simp add: bvbit_def)

lemma codeBitmap_bvbit:
  assumes "length code < 2 ^ 63"
  obtains bits where "codeBitmap code = Some bits" "length bits = length code div 8 + 5"
    "\<And>q. q < length code \<Longrightarrow> bvbit bits q \<longleftrightarrow> \<not> instr_at code 0 q"
proof -
  have "q div 8 < length code div 8 + 5" if "q < length code" for q
    using that div_le_mono [of q "length code" 8] by simp
  then show ?thesis
    using bitmap_loop_bvbit [of "replicate (length code div 8 + 1 + 4) 0" code 0] assms that
    by (auto simp: codeBitmap_def)
qed

lemma codeBitmap_segment:
  assumes "length code < 2 ^ 63"
  shows "\<exists>bits. codeBitmap code = Some bits \<and>
    (\<forall>p. unat p < length code \<longrightarrow> codeSegment bits p = Some (instr_at code 0 (unat p)))"
proof -
  obtain bits where b: "codeBitmap code = Some bits" "length bits = length code div 8 + 5"
    "\<And>q. q < length code \<Longrightarrow> bvbit bits q \<longleftrightarrow> \<not> instr_at code 0 q"
    using codeBitmap_bvbit [OF assms] by blast
  have "unat p div 8 < length bits" if "unat p < length code" for p :: u64
    using that div_le_mono [of "unat p" "length code" 8] b(2) by simp
  then show ?thesis using b by (auto simp: codeSegment_bvbit)
qed

text \<open>The cached bitmaps a contract would use, if any, are those of its code.\<close>

definition analysed :: "Contract \<Rightarrow> jumpdest_cache \<Rightarrow> bool" where
  "analysed c jumpdests \<longleftrightarrow>
     (\<forall>bits. analysis c = Some bits \<longrightarrow> codeBitmap (c_Code c) = Some bits) \<and>
     (\<forall>bits. jumpdests (c_CodeHash c) = Some bits \<longrightarrow> codeBitmap (c_Code c) = Some bits)"

lemma Uint64_unat: "0 \<le> x \<Longrightarrow> x < 2 ^ 64 \<Longrightarrow> unat (Uint64 x) = nat x"
  using Uint64_small [of x] by (metis nat_uint_eq)

subsection \<open>Stack and memory\<close>

lemma makeStackFunc_None_iff:
  "makeStackFunc pops pushes st = None \<longleftrightarrow> pops \<le> length st \<and> length st + pushes \<le> StackLimit + pops"
  by (auto simp: makeStackFunc_def require_def)

lemma swap_length: "swap n st = Some st' \<Longrightarrow> length st' = length st"
  by (auto simp: swap_def split: if_splits)

lemma swap_set: "swap n st = Some st' \<Longrightarrow> set st' \<subseteq> set st"
proof -
  assume a: "swap n st = Some st'"
  then have n: "0 < n" "n \<le> length st" and st': "st' = (st[0 := st ! (n - 1)])[n - 1 := st ! 0]"
    by (auto simp: swap_def split: if_splits)
  have "set (st[0 := st ! (n - 1)]) \<subseteq> insert (st ! (n - 1)) (set st)" by (rule set_update_subset_insert)
  moreover have "set st' \<subseteq> insert (st ! 0) (set (st[0 := st ! (n - 1)]))"
    unfolding st' by (rule set_update_subset_insert)
  moreover have "st ! (n - 1) \<in> set st" "st ! 0 \<in> set st" using n by (auto intro: nth_mem)
  ultimately show ?thesis by blast
qed

lemma mem_Set_Some:
  assumes "sz = 0 \<or> unat offset + unat sz \<le> length (store m)" "length (store m) < 2 ^ 64"
  obtains m' where "mem_Set offset sz v m = Some m'" "length (store m') = length (store m)"
    "lastGasCost m' = lastGasCost m"
    "\<And>i. i < length (store m) \<Longrightarrow> store m' ! i =
       (if unat offset \<le> i \<and> i < unat offset + min (unat sz) (length v) then v ! (i - unat offset) else store m ! i)"
proof (cases "sz = 0")
  case True
  then have "mem_Set offset sz v m = Some m" by (simp add: mem_Set_def)
  then show ?thesis by (rule that) (use True in auto)
next
  case False
  then have le: "unat offset + unat sz \<le> length (store m)" using assms(1) by simp
  then have u: "unat (offset + sz) = unat offset + unat sz"
    using assms(2) by (intro unat_add_no_wrap) simp
  obtain s where s: "copy_into (store m) (unat offset) (unat (offset + sz)) v = Some s"
    using le by (metis copy_into_Some_iff le_add1 u)
  have "\<not> offset + sz > of_nat (length (store m))"
    using le u unat_of_nat_u64 [OF assms(2)] by (simp add: word_less_nat_alt)
  moreover have "sz > 0" using False by (simp add: word_gt_0)
  ultimately show ?thesis
    using that [of "m\<lparr>store := s\<rparr>"] s copy_into_length [OF s] copy_into_nth [OF s]
    by (simp add: mem_Set_def u)
qed

lemma mem_Set32_Some:
  assumes "unat offset + 32 \<le> length (store m)" "length (store m) < 2 ^ 64"
  obtains m' where "mem_Set32 offset val m = Some m'" "length (store m') = length (store m)"
    "lastGasCost m' = lastGasCost m"
    "\<And>i. i < length (store m) \<Longrightarrow> store m' ! i =
       (if unat offset \<le> i \<and> i < unat offset + 32 then ReadBits val (replicate 32 0) ! (i - unat offset) else store m ! i)"
proof -
  have u: "unat (offset + 32) = unat offset + 32"
    using assms unat_add_no_wrap [of offset 32] by simp
  obtain s where s: "copy_into (store m) (unat offset) (unat (offset + 32)) (ReadBits val (replicate 32 0)) = Some s"
    using assms(1) by (metis copy_into_Some_iff le_add1 u)
  have "\<not> offset + 32 > of_nat (length (store m))"
    using assms(1) u unat_of_nat_u64 [OF assms(2)] by (simp add: word_less_nat_alt)
  then show ?thesis
    using that [of "m\<lparr>store := s\<rparr>"] s copy_into_length [OF s] copy_into_nth [OF s]
    by (simp add: mem_Set32_def u)
qed

lemma Resize_Some:
  assumes "length (store m) < 2 ^ 64" "unat sz \<le> 2 ^ 48"
  shows "Resize sz m = Some (m\<lparr>store := store m @ replicate (unat sz - length (store m)) 0\<rparr>)"
proof (cases "of_nat (length (store m)) < sz")
  case True
  have u: "unat (sz - of_nat (length (store m))) = unat sz - length (store m)"
    using unat_of_nat_u64 [OF assms(1)] True by (simp add: unat_sub_no_wrap word_le_nat_alt word_less_nat_alt)
  have i: "uint (sz - of_nat (length (store m))) = int (unat sz - length (store m))" unfolding u [symmetric] by simp
  have "unat sz - length (store m) \<le> 2 ^ 48" using assms(2) by linarith
  then have "int (unat sz - length (store m)) \<le> 2 ^ 48" by (metis of_nat_le_iff of_nat_numeral of_nat_power)
  then show ?thesis using True by (simp add: Resize_def i make_bytes_Some)
next
  case False
  then have "unat sz \<le> length (store m)" using unat_of_nat_u64 [OF assms(1)] by (simp add: word_less_nat_alt)
  then show ?thesis using False by (simp add: Resize_def)
qed

lemma mem_slice_Some:
  "0 \<le> offset \<Longrightarrow> 0 \<le> sz \<Longrightarrow> offset + sz \<le> int (length (store m)) \<Longrightarrow>
   mem_slice offset sz m = Some (take (nat sz) (drop (nat offset) (store m)))"
  by (simp add: mem_slice_def slice_def nat_add_distrib)

lemma mem_Get_Some:
  assumes "sz = 0 \<or> 0 \<le> offset \<and> 0 \<le> sz \<and> offset + sz \<le> int (length (store m))" "sz \<le> 2 ^ 48"
  shows "\<exists>r. mem_Get offset sz m = Some r \<and> sl r = take (nat sz) (drop (nat offset) (store m))"
  using assms by (cases "sz = 0") (auto simp: mem_Get_def mem_slice_Some make_bytes_Some copy_into_def Let_def min_def)

lemma GetPtr_Some:
  assumes "sz = 0 \<or> 0 \<le> offset \<and> 0 \<le> sz \<and> offset + sz \<le> int (length (store m))"
  shows "\<exists>r. GetPtr offset sz m = Some r \<and> sl r = take (nat sz) (drop (nat offset) (store m))"
  using assms by (cases "sz = 0") (auto simp: GetPtr_def mem_slice_Some)

subsection \<open>Zero-padded windows\<close>

text \<open>The window of \<open>n\<close> bytes of \<open>d\<close> from \<open>i\<close>, zero where \<open>d\<close> has ended.\<close>

definition window :: "bytes \<Rightarrow> nat \<Rightarrow> nat \<Rightarrow> bytes" where
  "window d i n = take n (drop i d) @ replicate (n - (length d - i)) 0"

lemma length_window [simp]: "length (window d i n) = n"
  by (auto simp: window_def)

lemma pad_window:
  assumes "a = min i (length d)" "n \<le> 2 ^ 48"
  shows "RightPadBytes (take (min (a + n) (length d) - a) (drop a d)) (int n) = Some (window d i n)"
proof -
  have "take (min (a + n) (length d) - a) (drop a d) = take n (drop i d)"
    using assms by (auto simp: min_def)
  moreover have "int n \<le> 2 ^ 48" using assms(2) by (metis of_nat_le_iff of_nat_numeral of_nat_power)
  ultimately show ?thesis by (auto simp: RightPadBytes_Some window_def min_def)
qed

lemma getDataBig_window:
  assumes "0 \<le> start" "0 \<le> sz" "sz \<le> 2 ^ 48" "length d < 2 ^ 63"
  shows "getDataBig d start sz = Some (window d (nat start) (nat sz))"
proof -
  define s where "s = BigMin start (int (length d))"
  define e where "e = BigMin (s + sz) (int (length d))"
  define a where "a = min (nat start) (length d)"
  have s: "s = int a" using assms(1) by (auto simp: s_def a_def BigMin_def)
  have e: "e = int (min (a + nat sz) (length d))" using assms(2) by (auto simp: e_def s BigMin_def)
  have us: "unat (Uint64 s) = a" using assms(4) by (subst Uint64_unat) (auto simp: s a_def)
  have ue: "unat (Uint64 e) = min (a + nat sz) (length d)" using assms(4) by (subst Uint64_unat) (auto simp: e)
  have "sint (Uint64 sz) = int (nat sz)"
    using assms(2,3) Uint64_small [of sz] by (simp add: sint_eq_uint_u64)
  then show ?thesis
    using pad_window [OF a_def, of "nat sz"] assms(3)
    by (simp add: getDataBig_def Let_def s_def [symmetric] e_def [symmetric] us ue slice_def)
      (simp add: a_def)
qed

lemma getData_window:
  assumes "length d < 2 ^ 63" "unat sz \<le> 2 ^ 48"
  shows "getData d start sz = Some (window d (unat start) (unat sz))"
proof -
  define l where "l = (of_nat (length d) :: u64)"
  define s where "s = (if start > l then l else start)"
  define e where "e = (if s + sz > l then l else s + sz)"
  define a where "a = min (unat start) (length d)"
  have l: "unat l = length d" unfolding l_def using assms(1) by (intro unat_of_nat_u64) simp
  have us: "unat s = a" by (auto simp: s_def a_def l word_less_nat_alt min_def)
  have "a \<le> length d" by (simp add: a_def)
  then have "unat s + unat sz < 2 ^ 64" using assms us by simp
  then have "unat (s + sz) = a + unat sz" using us by (simp add: unat_add_no_wrap)
  then have ue: "unat e = min (a + unat sz) (length d)" by (auto simp: e_def l word_less_nat_alt min_def)
  have u: "uint sz = int (unat sz)" by simp
  have "int (unat sz) \<le> 2 ^ 48" using assms(2) by (metis of_nat_le_iff of_nat_numeral of_nat_power)
  then have "uint sz \<le> 2 ^ 48" by (simp only: u)
  then have "uint sz < 2 ^ 63" by (rule order_le_less_trans) simp
  then have z: "sint sz = int (unat sz)" using u by (metis sint_eq_uint_u64)
  have "getData d start sz = do { x \<leftarrow> slice d (unat s) (unat e); RightPadBytes x (sint sz) }"
    by (simp only: getData_def Let_def l_def s_def e_def)
  also have "slice d (unat s) (unat e) = Some (take (min (a + unat sz) (length d) - a) (drop a d))"
    unfolding us ue by (intro slice_Some) (simp_all add: a_def)
  finally show ?thesis using pad_window [OF a_def assms(2)] by (simp only: z bind.bind_lunit)
qed

lemma getData_None:
  assumes "length d < 2 ^ 48" "2 ^ 48 < unat sz" "unat sz < 2 ^ 63"
  shows "getData d start sz = None"
proof -
  define l where "l = (of_nat (length d) :: u64)"
  define s where "s = (if start > l then l else start)"
  define e where "e = (if s + sz > l then l else s + sz)"
  have l: "unat l = length d" unfolding l_def using assms(1) by (intro unat_of_nat_u64) simp
  have "unat e \<le> length d" by (auto simp: e_def word_less_nat_alt l [symmetric])
  then have short: "length x < 2 ^ 48" if "slice d (unat s) (unat e) = Some x" for x
    using slice_length [OF that] assms(1) by linarith
  have i: "int (unat sz) < 2 ^ 63" "(2 ^ 48 :: int) < int (unat sz)"
    using assms(2,3) by (metis of_nat_less_iff of_nat_numeral of_nat_power)+
  then have z: "sint sz = int (unat sz)" by (metis sint_eq_uint_u64 uint_nat)
  have "RightPadBytes x (sint sz) = None" if "slice d (unat s) (unat e) = Some x" for x
  proof (rule RightPadBytes_None)
    show "(2 ^ 48 :: int) < sint sz" using i(2) by (simp only: z)
    show "int (length x) < sint sz" using short [OF that] assms(2) unfolding z of_nat_less_iff by (rule less_trans)
  qed
  moreover have "getData d start sz = do { x \<leftarrow> slice d (unat s) (unat e); RightPadBytes x (sint sz) }"
    by (simp only: getData_def Let_def l_def s_def e_def)
  ultimately show ?thesis by (cases "slice d (unat s) (unat e)") simp_all
qed

lemma toWordSize_ceil: "unat (toWordSize sz) = (unat sz + 31) div 32"
proof (cases "sz > MaxUint64 - 31")
  case True
  then have "unat sz > unat (MaxUint64 - 31)" by (simp add: word_less_nat_alt)
  moreover have "unat (MaxUint64 - 31) = 2 ^ 64 - 32" by (simp add: MaxUint64_def)
  ultimately have "2 ^ 64 - 32 < unat sz" "unat sz < 2 ^ 64" using unat_u64_lt by auto
  then have "(unat sz + 31) div 32 = 2 ^ 59" by simp
  moreover have "unat (MaxUint64 div 32 + 1) = 2 ^ 59" by (simp add: MaxUint64_def)
  ultimately show ?thesis using True by (simp add: toWordSize_def)
next
  case False
  then have "unat sz \<le> unat (MaxUint64 - 31)" by (simp add: word_le_nat_alt not_less)
  moreover have "unat (MaxUint64 - 31) = 2 ^ 64 - 32" by (simp add: MaxUint64_def)
  ultimately have "unat (sz + 31) = unat sz + 31" using unat_add_no_wrap [of sz 31] by simp
  then show ?thesis using False by (simp add: toWordSize_def unat_div)
qed

subsection \<open>Jump destinations\<close>

lemma validJumpdest_spec:
  assumes "length (c_Code c) < 2 ^ 62" "0 \<le> dest" "analysed c jumpdests"
  shows "\<exists>c' jd. validJumpdest dest c jumpdests =
      Some (dest < int (length (c_Code c)) \<and> c_Code c ! nat dest = JUMPDEST \<and> instr_at (c_Code c) 0 (nat dest),
            c', jd) \<and>
    analysed c' jd \<and> c'\<lparr>analysis := analysis c\<rparr> = c \<and>
    (\<forall>h. h \<noteq> c_CodeHash c \<longrightarrow> jd h = jumpdests h)"
proof -
  obtain bits where b: "codeBitmap (c_Code c) = Some bits"
    "\<And>p. unat p < length (c_Code c) \<Longrightarrow> codeSegment bits p = Some (instr_at (c_Code c) 0 (unat p))"
    using codeBitmap_segment [of "c_Code c"] assms(1) by auto
  have an: "analysis c = None \<or> analysis c = Some bits"
    "jumpdests (c_CodeHash c) = None \<or> jumpdests (c_CodeHash c) = Some bits"
    using assms(3) b(1) by (cases "analysis c"; cases "jumpdests (c_CodeHash c)"; auto simp: analysed_def)+
  show ?thesis
  proof (cases "dest < int (length (c_Code c))")
    case False
    have "BitLen dest \<ge> 63 \<or> Uint64 dest \<ge> of_nat (length (c_Code c))"
    proof (cases "dest < 2 ^ 62")
      case True
      then have "unat (Uint64 dest) = nat dest" using assms(2) by (intro Uint64_unat) simp_all
      moreover have "unat (of_nat (length (c_Code c)) :: u64) = length (c_Code c)"
        using assms(1) by (intro unat_of_nat_u64) simp
      ultimately show ?thesis using False by (auto simp: word_le_nat_alt)
    next
      case False
      then show ?thesis using BitLen_gt_iff [of 62 dest] assms(2) by auto
    qed
    then have "validJumpdest dest c jumpdests = Some (False, c, jumpdests)"
      by (simp add: validJumpdest_def Let_def)
    then show ?thesis using False assms(3) by auto
  next
    case True
    define d where "d = Uint64 dest"
    have small: "dest < 2 ^ 62" using True assms(1)
      by (metis less_trans of_nat_less_iff of_nat_numeral of_nat_power)
    then have u: "unat d = nat dest" unfolding d_def using assms(2) by (intro Uint64_unat) simp_all
    have "\<not> BitLen dest \<ge> 63" using BitLen_le_iff [of dest 62] small assms(2) by auto
    moreover have "\<not> d \<ge> of_nat (length (c_Code c))"
      using True assms(1,2) u unat_of_nat_u64 [of "length (c_Code c)"] by (simp add: word_le_nat_alt)
    moreover have seg: "codeSegment bits d = Some (instr_at (c_Code c) 0 (nat dest))"
      using b(2) [of d] True assms(2) u by simp
    ultimately show ?thesis
      using True an b(1) assms(3)
      by (cases "c_Code c ! nat dest = JUMPDEST"; cases "c_CodeHash c = 0";
          cases "analysis c"; cases "jumpdests (c_CodeHash c)")
        (simp_all add: validJumpdest_def Let_def d_def [symmetric] u analysed_def)
  qed
qed

subsection \<open>Properties\<close>

text \<open>C10. On every contract whose cached bitmaps are those of its code, a jump destination is accepted
  exactly when it is a \<open>JUMPDEST\<close> byte at which an instruction starts, that is not inside push data; the
  analysis never panics, and a second query, answered from the cache the first one filled, is judged by
  the same rule.\<close>

theorem validJumpdest_correct:
  assumes "length (c_Code c) < 2 ^ 62" "0 \<le> d1" "0 \<le> d2" "analysed c jumpdests"
  defines "valid d \<equiv> d < int (length (c_Code c)) \<and> c_Code c ! nat d = JUMPDEST \<and> instr_at (c_Code c) 0 (nat d)"
  shows "\<exists>c1 jd1 c2 jd2. validJumpdest d1 c jumpdests = Some (valid d1, c1, jd1) \<and>
    validJumpdest d2 c1 jd1 = Some (valid d2, c2, jd2)"
proof -
  obtain c1 jd1 where 1: "validJumpdest d1 c jumpdests = Some (valid d1, c1, jd1)" "analysed c1 jd1"
    "c1\<lparr>analysis := analysis c\<rparr> = c"
    using validJumpdest_spec [OF assms(1,2,4)] unfolding valid_def by blast
  then have "c_Code c1 = c_Code c" by (metis Contract.select_convs(4) Contract.surjective Contract.update_convs(3))
  then show ?thesis
    using 1 validJumpdest_spec [of c1 d2 jd1] assms(1,3) unfolding valid_def by auto
qed

theorem validJumpdest_correct_witness:
  "\<exists>c1 jd1 c2 jd2.
     validJumpdest 1 (SetCallCode None 0 [0x60, 0x5b, 0x5b] (NewContract (AccountRef 0) 0 None 0)) Map.empty
       = Some (False, c1, jd1) \<and>
     validJumpdest 2 c1 jd1 = Some (True, c2, jd2)"
proof -
  define c where "c = SetCallCode None 0 [0x60, 0x5b, 0x5b] (NewContract (AccountRef 0) 0 None 0)"
  have "analysed c Map.empty" by (simp add: c_def analysed_def SetCallCode_def NewContract_def)
  moreover have "\<not> instr_at [0x60, 0x5b, 0x5b] 0 1" "instr_at [0x60, 0x5b, 0x5b] 0 2"
    by (simp_all add: instr_at.simps push_size_def)
  moreover have "c_Code c = [0x60, 0x5b, 0x5b]" by (simp add: c_def SetCallCode_def)
  ultimately show ?thesis
    using validJumpdest_correct [of c 1 2 Map.empty] unfolding c_def [symmetric] by simp
qed

end
