(* ===== verification/Rlp_Encode.thy ===== *)
theory Rlp_Encode
  imports Rlp
begin

text \<open>
  The encoder of \<open>src/lib/rlp/encode.go\<close>. It writes the strings of a value into one buffer, keeps the list
  headers aside as offsets and sizes, and merges the two at the end, so that a list is never copied.
  Reflection only selects a writer by the type of the value; \<open>rval\<close> is what is left after that selection,
  one constructor per writer. The reference \<open>enc\<close> is the textbook recursive encoding, and the lemmas show
  that the buffered encoder produces exactly it, and that \<open>raw.go\<close> takes it apart again.
\<close>

datatype rval =
    RRaw bytes
  | RUint u64
  | RBool bool
  | RBigIntPtr "int option"
  | RBytes bytes
  | RInterfaceNil
  | RSlice "rval list"
  | RTail "rval list"
  | RStruct "rval list"
  | RNilBytes
  | RNilStruct

record listhead =
  lh_offset :: nat
  lh_size :: nat

text \<open>A \<open>*listhead\<close> is its position in \<open>lheads\<close>.\<close>

record encbuf =
  eb_str :: bytes
  lheads :: "listhead list"
  lhsize :: nat

definition eb_reset :: encbuf where
  "eb_reset = \<lparr>eb_str = [], lheads = [], lhsize = 0\<rparr>"

definition eb_Write :: "bytes \<Rightarrow> encbuf \<Rightarrow> encbuf" where
  "eb_Write b w = w\<lparr>eb_str := eb_str w @ b\<rparr>"

definition eb_list :: "encbuf \<Rightarrow> nat \<times> encbuf" where
  "eb_list w = (length (lheads w), w\<lparr>lheads := lheads w @ [\<lparr>lh_offset = length (eb_str w), lh_size = lhsize w\<rparr>]\<rparr>)"

definition eb_size :: "encbuf \<Rightarrow> nat" where
  "eb_size w = length (eb_str w) + lhsize w"

definition listEnd :: "nat \<Rightarrow> encbuf \<Rightarrow> encbuf" where
  "listEnd i w =
     (let lh = lheads w ! i; n = eb_size w - lh_offset lh - lh_size lh
      in w\<lparr>lheads := (lheads w)[i := lh\<lparr>lh_size := n\<rparr>],
           lhsize := lhsize w + (if n < 56 then 1 else 1 + intsize (of_nat n))\<rparr>)"

definition writeUint :: "u64 \<Rightarrow> encbuf \<Rightarrow> encbuf" where
  "writeUint i w =
     eb_Write (if i = 0 then [0x80] else if i < 128 then [ucast i]
               else let s = putint i in (0x80 + of_nat (length s)) # s) w"

definition writeBigInt :: "int \<Rightarrow> encbuf \<Rightarrow> string option \<times> encbuf" where
  "writeBigInt i w =
     (if i < 0 then (Some ''rlp: cannot encode negative *big.Int'', w)
      else if i = 0 then (None, eb_Write [0x80] w)
      else (None, eb_Write (encodeString (big_Bytes i)) w))"

fun eb_encode :: "rval \<Rightarrow> encbuf \<Rightarrow> string option \<times> encbuf"
  and eb_encode_all :: "rval list \<Rightarrow> encbuf \<Rightarrow> string option \<times> encbuf" where
  "eb_encode (RRaw b) w = (None, eb_Write b w)"
| "eb_encode (RUint i) w = (None, writeUint i w)"
| "eb_encode (RBool b) w = (None, eb_Write [if b then 1 else 0x80] w)"
| "eb_encode (RBigIntPtr None) w = (None, eb_Write [0x80] w)"
| "eb_encode (RBigIntPtr (Some i)) w = writeBigInt i w"
| "eb_encode (RBytes b) w = (None, eb_Write (encodeString b) w)"
| "eb_encode RInterfaceNil w = (None, eb_Write [0xC0] w)"
| "eb_encode (RSlice vs) w =
     (let (lh, w1) = eb_list w; (err, w2) = eb_encode_all vs w1 in (err, listEnd lh w2))"
| "eb_encode (RTail vs) w = eb_encode_all vs w"
| "eb_encode (RStruct vs) w =
     (let (lh, w1) = eb_list w; (err, w2) = eb_encode_all vs w1
      in case err of Some e \<Rightarrow> (Some e, w2) | None \<Rightarrow> (None, listEnd lh w2))"
| "eb_encode RNilBytes w = (None, eb_Write [0x80] w)"
| "eb_encode RNilStruct w = (let (lh, w1) = eb_list w in (None, listEnd lh w1))"
| "eb_encode_all [] w = (None, w)"
| "eb_encode_all (v # vs) w =
     (let (err, w1) = eb_encode v w in case err of Some e \<Rightarrow> (Some e, w1) | None \<Rightarrow> eb_encode_all vs w1)"

text \<open>
  \<open>toBytes\<close>: \<open>copy\<close> writes what fits, \<open>head.encode\<close> indexes into the output and panics when it does not fit.
\<close>

definition put_at :: "bytes \<Rightarrow> nat \<Rightarrow> bytes \<Rightarrow> bytes option" where
  "put_at out pos b =
     (if pos + length b \<le> length out then Some (take pos out @ b @ drop (pos + length b) out) else None)"

fun toBytes_loop :: "listhead list \<Rightarrow> bytes \<Rightarrow> nat \<Rightarrow> nat \<Rightarrow> bytes \<Rightarrow> (nat \<times> nat \<times> bytes) option" where
  "toBytes_loop [] str strpos pos out = Some (strpos, pos, out)"
| "toBytes_loop (head # hs) str strpos pos out = do {
     piece \<leftarrow> slice str strpos (lh_offset head);
     out1 \<leftarrow> copy_into out pos (length out) piece;
     let n = min (length out - pos) (length piece);
     let enc = puthead 0xC0 0xF7 (of_nat (lh_size head));
     out2 \<leftarrow> put_at out1 (pos + n) enc;
     toBytes_loop hs str (strpos + n) (pos + n + length enc) out2 }"

definition toBytes :: "encbuf \<Rightarrow> bytes option" where
  "toBytes w = do {
     (strpos, pos, out) \<leftarrow> toBytes_loop (lheads w) (eb_str w) 0 0 (replicate (eb_size w) 0);
     rest \<leftarrow> slice (eb_str w) strpos (length (eb_str w));
     copy_into out pos (length out) rest }"

definition EncodeToBytes :: "rval \<Rightarrow> (string + bytes) option" where
  "EncodeToBytes v =
     (case eb_encode v eb_reset of
        (Some e, w) \<Rightarrow> Some (Inl e)
      | (None, w) \<Rightarrow> map_option Inr (toBytes w))"

subsection \<open>The buffered encoder is the recursive encoding\<close>

text \<open>The reference: a string is its header and its bytes, a list is its header and its elements.\<close>

definition enc_list :: "bytes \<Rightarrow> bytes" where
  "enc_list payload = puthead 0xC0 0xF7 (of_nat (length payload)) @ payload"

fun enc :: "rval \<Rightarrow> bytes option"
  and enc_all :: "rval list \<Rightarrow> bytes option" where
  "enc (RRaw b) = Some b"
| "enc (RUint i) = Some (encodeString (big_Bytes (uint i)))"
| "enc (RBool b) = Some (encodeString (if b then [1] else []))"
| "enc (RBigIntPtr None) = Some (encodeString [])"
| "enc (RBigIntPtr (Some i)) = (if i < 0 then None else Some (encodeString (big_Bytes i)))"
| "enc (RBytes b) = Some (encodeString b)"
| "enc RInterfaceNil = Some (enc_list [])"
| "enc (RSlice vs) = map_option enc_list (enc_all vs)"
| "enc (RTail vs) = enc_all vs"
| "enc (RStruct vs) = map_option enc_list (enc_all vs)"
| "enc RNilBytes = Some (encodeString [])"
| "enc RNilStruct = Some (enc_list [])"
| "enc_all [] = Some []"
| "enc_all (v # vs) = do { b \<leftarrow> enc v; bs \<leftarrow> enc_all vs; Some (b @ bs) }"

lemma big_Bytes_0 [simp]: "big_Bytes 0 = []"
  by (simp add: big_Bytes_def)

lemma putint_big_Bytes:
  assumes "i \<noteq> 0"
  shows "putint i = big_Bytes (uint i)"
proof -
  obtain n where n: "putint i = be_bytes n (uint i)" "0 < n" "uint i < 256 ^ n"
    "n = 1 \<or> 256 ^ (n - 1) \<le> uint i"
    by (rule putint_be_bytes)
  have "0 < uint i" using assms by (simp add: uint_0_iff [symmetric] order_less_le)
  then have "\<not> uint i < 256 ^ (n - 1)" using n(4) by auto
  then have "\<not> BitLen (uint i) \<le> 8 * (n - 1)" by (simp add: BitLen_le_iff power_mult)
  moreover have "BitLen (uint i) \<le> 8 * n" using n(3) by (simp add: BitLen_le_iff power_mult)
  ultimately have "(BitLen (uint i) + 7) div 8 = n" using n(2) by linarith
  then show ?thesis by (simp add: n(1) big_Bytes_def)
qed

lemma writeUint_encodeString: "writeUint i w = eb_Write (encodeString (big_Bytes (uint i))) w"
proof (cases "i = 0")
  case False
  obtain n where n: "putint i = be_bytes n (uint i)" "0 < n" "n \<le> 8" "uint i < 256 ^ n" "n = 1 \<or> 256 ^ (n - 1) \<le> uint i"
    by (rule putint_be_bytes)
  have one: "putint i = [word_of_int (uint i)]" if "n = 1"
    using n(1) that be_bytes_Suc [of 0 "uint i"] by (simp only: One_nat_def) simp
  show ?thesis
  proof (cases "i < 128")
    case True
    then have u: "uint i < 128" by (simp add: word_less_def)
    have "n = 1"
    proof (rule ccontr)
      assume "n \<noteq> 1"
      then have "(256 :: int) ^ 1 \<le> 256 ^ (n - 1)" using n(2) by (intro power_increasing) auto
      then show False using n(5) u \<open>n \<noteq> 1\<close> by (simp only: power_one_right) linarith
    qed
    moreover have "(word_of_int (uint i) :: byte) = ucast i" by simp
    moreover have "(ucast i :: byte) \<le> 0x7F"
      using u by (simp add: word_le_def unsigned_ucast_eq take_bit_eq_mod)
    ultimately show ?thesis using True False one
      unfolding writeUint_def encodeString_def putint_big_Bytes [OF False, symmetric] by simp
  next
    case big: False
    have l: "length (putint i) < 56" using length_putint(2) [of i] by simp
    have "\<not> (length (putint i) = 1 \<and> putint i ! 0 \<le> 0x7F)"
    proof
      assume a: "length (putint i) = 1 \<and> putint i ! 0 \<le> 0x7F"
      then have "n = 1" using n(1) by simp
      then have "uint i < 256" "putint i ! 0 = word_of_int (uint i)" using n(4) one by auto
      moreover have "uint (word_of_int (uint i) :: byte) = uint i" using \<open>uint i < 256\<close>
        by (simp add: unsigned_ucast_eq take_bit_eq_mod)
      ultimately have "uint i \<le> 0x7F" using a unfolding word_le_def by simp
      then show False using big by (simp add: word_less_def)
    qed
    then show ?thesis using big False l
      unfolding writeUint_def encodeString_def encodeStringHeader_def putint_big_Bytes [OF False, symmetric] by (auto simp: Let_def)
  qed
qed (simp add: writeUint_def encodeString_def encodeStringHeader_def)

abbreviation errNegativeBig :: string where
  "errNegativeBig \<equiv> ''rlp: cannot encode negative *big.Int''"

lemma eb_encode_error:
  "fst (eb_encode v w) = (if enc v = None then Some errNegativeBig else None)"
  "fst (eb_encode_all vs w) = (if enc_all vs = None then Some errNegativeBig else None)"
proof (induction v w and vs w rule: eb_encode_eb_encode_all.induct)
  case (10 vs w)
  obtain lh w1 where l: "eb_list w = (lh, w1)" by fastforce
  then show ?case using 10 [OF refl, of lh w1] by (auto simp: Let_def split: prod.splits option.splits if_splits)
qed (auto simp: writeBigInt_def Let_def split: prod.splits option.splits bind_splits if_splits)

text \<open>
  What the strings \<open>s\<close> that start at position \<open>p\<close> and the heads \<open>hs\<close> among them stand for, and how many
  bytes the heads take.
\<close>

abbreviation lhead :: "listhead \<Rightarrow> bytes" where
  "lhead h \<equiv> puthead 0xC0 0xF7 (of_nat (lh_size h))"

fun render :: "nat \<Rightarrow> bytes \<Rightarrow> listhead list \<Rightarrow> bytes" where
  "render p s [] = s"
| "render p s (h # hs) = take (lh_offset h - p) s @ lhead h @ render (lh_offset h) (drop (lh_offset h - p) s) hs"

fun heads_in :: "nat \<Rightarrow> nat \<Rightarrow> listhead list \<Rightarrow> bool" where
  "heads_in p e [] = (p \<le> e)"
| "heads_in p e (h # hs) = (p \<le> lh_offset h \<and> heads_in (lh_offset h) e hs)"

definition heads_size :: "listhead list \<Rightarrow> nat" where
  "heads_size hs = (\<Sum>h\<leftarrow>hs. length (lhead h))"

lemma heads_in_le: "heads_in p e hs \<Longrightarrow> p \<le> e"
  by (induction p e hs rule: heads_in.induct) auto

lemma heads_in_append: "heads_in p m hs \<Longrightarrow> heads_in m e hs' \<Longrightarrow> heads_in p e (hs @ hs')"
proof (induction p m hs rule: heads_in.induct)
  case (1 p m)
  then show ?case by (cases hs') auto
qed auto

lemma render_prefix: "heads_in (p + length s1) e hs \<Longrightarrow> render p (s1 @ s2) hs = s1 @ render (p + length s1) s2 hs"
  by (cases hs) auto

lemma render_append:
  "heads_in p (p + length s1) hs1 \<Longrightarrow> heads_in (p + length s1) e hs2 \<Longrightarrow>
   render p (s1 @ s2) (hs1 @ hs2) = render p s1 hs1 @ render (p + length s1) s2 hs2"
proof (induction hs1 arbitrary: p s1)
  case (Cons h hs1)
  define k where "k = lh_offset h - p"
  have o: "lh_offset h = p + k" using Cons.prems(1) by (simp add: k_def)
  have "k \<le> length s1" using Cons.prems(1) heads_in_le [of "lh_offset h" "p + length s1" hs1] o by simp
  then have "render (p + k) (drop k s1 @ s2) (hs1 @ hs2) =
    render (p + k) (drop k s1) hs1 @ render (p + length s1) s2 hs2"
    using Cons.IH [of "p + k" "drop k s1"] Cons.prems o by simp
  then show ?case using \<open>k \<le> length s1\<close> by (simp add: o)
qed (simp add: render_prefix)

lemma length_render: "heads_in p (p + length s) hs \<Longrightarrow> length (render p s hs) = length s + heads_size hs"
proof (induction hs arbitrary: p s)
  case (Cons h hs)
  define k where "k = lh_offset h - p"
  have o: "lh_offset h = p + k" using Cons.prems by (simp add: k_def)
  have "k \<le> length s" using Cons.prems heads_in_le [of "lh_offset h" "p + length s" hs] o by simp
  then have "length (render (p + k) (drop k s) hs) = length s - k + heads_size hs"
    using Cons.IH [of "p + k" "drop k s"] Cons.prems o by simp
  then show ?case using \<open>k \<le> length s\<close> by (simp add: o heads_size_def)
qed (simp add: heads_size_def)

text \<open>The buffer \<open>w'\<close> is \<open>w\<close> with the encoding \<open>b\<close> added.\<close>

definition adds :: "encbuf \<Rightarrow> encbuf \<Rightarrow> bytes \<Rightarrow> bool" where
  "adds w w' b \<longleftrightarrow> (\<exists>s hs. eb_str w' = eb_str w @ s \<and> lheads w' = lheads w @ hs
     \<and> lhsize w' = lhsize w + heads_size hs
     \<and> heads_in (length (eb_str w)) (length (eb_str w) + length s) hs \<and> render (length (eb_str w)) s hs = b)"

lemma adds_Write: "adds w (eb_Write b w) b"
  unfolding adds_def eb_Write_def by (rule exI [of _ b], rule exI [of _ "[]"]) (simp add: heads_size_def)

lemma adds_refl: "adds w w []"
  unfolding adds_def by (rule exI [of _ "[]"], rule exI [of _ "[]"]) (simp add: heads_size_def)

lemma adds_trans:
  assumes "adds w w1 b1" "adds w1 w2 b2"
  shows "adds w w2 (b1 @ b2)"
proof -
  obtain s1 hs1 where 1: "eb_str w1 = eb_str w @ s1" "lheads w1 = lheads w @ hs1"
    "lhsize w1 = lhsize w + heads_size hs1" "heads_in (length (eb_str w)) (length (eb_str w) + length s1) hs1"
    "render (length (eb_str w)) s1 hs1 = b1"
    using assms(1) unfolding adds_def by blast
  obtain s2 hs2 where 2: "eb_str w2 = eb_str w1 @ s2" "lheads w2 = lheads w1 @ hs2"
    "lhsize w2 = lhsize w1 + heads_size hs2" "heads_in (length (eb_str w1)) (length (eb_str w1) + length s2) hs2"
    "render (length (eb_str w1)) s2 hs2 = b2"
    using assms(2) unfolding adds_def by blast
  show ?thesis unfolding adds_def
    by (rule exI [of _ "s1 @ s2"], rule exI [of _ "hs1 @ hs2"])
       (use 1 2 heads_in_append [OF 1(4), of "length (eb_str w) + length s1 + length s2" hs2]
          render_append [OF 1(4), of "length (eb_str w) + length s1 + length s2" hs2 s2]
        in \<open>simp add: heads_size_def add.assoc\<close>)
qed

lemma adds_listEnd:
  assumes "eb_list w = (i, w1)" "adds w1 w2 b" "length b < 2 ^ 64"
  shows "adds w (listEnd i w2) (enc_list b)"
proof -
  have w1: "i = length (lheads w)" "eb_str w1 = eb_str w" "lhsize w1 = lhsize w"
    "lheads w1 = lheads w @ [\<lparr>lh_offset = length (eb_str w), lh_size = lhsize w\<rparr>]"
    using assms(1) by (auto simp: eb_list_def)
  obtain s hs where 2: "eb_str w2 = eb_str w1 @ s" "lheads w2 = lheads w1 @ hs"
    "lhsize w2 = lhsize w1 + heads_size hs" "heads_in (length (eb_str w1)) (length (eb_str w1) + length s) hs"
    "render (length (eb_str w1)) s hs = b"
    using assms(2) unfolding adds_def by blast
  define h where "h = \<lparr>lh_offset = length (eb_str w), lh_size = length b\<rparr>"
  have n: "length b = length s + heads_size hs" using length_render [OF 2(4)] 2(5) by simp
  have sz: "eb_size w2 - length (eb_str w) - lhsize w = length b" by (simp add: n eb_size_def 2 w1)
  have hd: "(if length b < 56 then 1 else 1 + intsize (of_nat (length b))) = length (lhead h)"
    using assms(3) by (simp add: h_def length_puthead headsize_def word_less_nat_alt unat_of_nat_u64)
  have "listEnd i w2 = w2\<lparr>lheads := lheads w @ h # hs, lhsize := lhsize w2 + length (lhead h)\<rparr>"
    using hd sz by (simp add: listEnd_def Let_def w1 2(2) h_def split: if_splits)
  then show ?thesis unfolding adds_def
    by (intro exI [of _ s] exI [of _ "h # hs"]) (use 2 w1 in \<open>simp add: h_def heads_size_def enc_list_def\<close>)
qed


lemma length_enc_list: "length b \<le> length (enc_list b)"
  by (simp add: enc_list_def)

lemma eb_encode_adds:
  "enc v = Some b \<Longrightarrow> length b < 2 ^ 64 \<Longrightarrow> adds w (snd (eb_encode v w)) b"
  "enc_all vs = Some b \<Longrightarrow> length b < 2 ^ 64 \<Longrightarrow> adds w (snd (eb_encode_all vs w)) b"
proof (induction v w and vs w arbitrary: b and b rule: eb_encode_eb_encode_all.induct)
  case (8 vs w)
  then obtain c where c: "enc_all vs = Some c" "b = enc_list c" by auto
  then show ?case using 8 length_enc_list [of c] by (auto simp: Let_def split: prod.splits intro!: adds_listEnd)
next
  case (10 vs w)
  then obtain c where c: "enc_all vs = Some c" "b = enc_list c" by auto
  then show ?case using 10 length_enc_list [of c] eb_encode_error(2) [of vs "snd (eb_list w)"]
    by (auto simp: Let_def split: prod.splits option.splits intro!: adds_listEnd)
next
  case (12 w)
  then show ?case using adds_listEnd [OF _ adds_refl, of w] by (auto simp: Let_def split: prod.splits)
next
  case (14 v vs w)
  then obtain b1 b2 where b: "enc v = Some b1" "enc_all vs = Some b2" "b = b1 @ b2"
    by (auto elim!: bind_SomeE)
  moreover have "fst (eb_encode v w) = None" using eb_encode_error(1) [of v w] b by simp
  ultimately show ?case using 14 by (auto simp: Let_def split: prod.splits option.splits intro!: adds_trans)
qed (auto simp: adds_Write adds_refl writeUint_encodeString writeBigInt_def encodeString_def encodeStringHeader_def
      enc_list_def puthead_def intro: adds_listEnd split: if_splits)


text \<open>\<open>toBytes\<close> writes the rendering from left to right into the zeroed output.\<close>

lemma toBytes_loop_render:
  assumes "heads_in p (length str) hs" "k = length (render p (drop p str) hs)"
  shows "\<exists>q mid. toBytes_loop hs str p (length pre) (pre @ replicate k 0) =
      Some (q, length (pre @ mid), (pre @ mid) @ replicate (length str - q) 0) \<and>
    q \<le> length str \<and> render p (drop p str) hs = mid @ drop q str"
  using assms
proof (induction hs arbitrary: p k pre)
  case Nil
  then show ?case by (intro exI [of _ p] exI [of _ "[]"]) auto
next
  case (Cons h hs)
  define off where "off = lh_offset h"
  define piece where "piece = take (off - p) (drop p str)"
  define rest where "rest = render off (drop off str) hs"
  have off: "p \<le> off" "heads_in off (length str) hs" "off \<le> length str"
    using Cons.prems(1) heads_in_le by (auto simp: off_def)
  have r: "render p (drop p str) (h # hs) = piece @ lhead h @ rest"
    using off by (simp add: off_def [symmetric] piece_def rest_def)
  have k: "k = length piece + length (lhead h) + length rest" using Cons.prems(2) by (simp only: r length_append)
  have sl: "slice str p off = Some piece" using off by (simp add: slice_def piece_def)
  have c1: "copy_into (pre @ replicate k 0) (length pre) (length pre + k) piece =
      Some ((pre @ piece) @ replicate (length (lhead h) + length rest) 0)"
    by (simp add: copy_into_def Let_def k)
  have p1: "put_at ((pre @ piece) @ replicate (length (lhead h) + length rest) 0) (length (pre @ piece)) (lhead h) =
      Some ((pre @ piece @ lhead h) @ replicate (length rest) 0)"
    by (simp add: put_at_def)
  have m: "min k (length piece) = length piece" using k by simp
  have po: "p + length piece = off" using off by (simp add: piece_def)
  obtain q mid where ih: "toBytes_loop hs str off (length (pre @ piece @ lhead h)) ((pre @ piece @ lhead h) @ replicate (length rest) 0) =
      Some (q, length ((pre @ piece @ lhead h) @ mid), ((pre @ piece @ lhead h) @ mid) @ replicate (length str - q) 0)"
    "q \<le> length str" "rest = mid @ drop q str"
    using Cons.IH [of off "length rest" "pre @ piece @ lhead h"] off unfolding rest_def by blast
  have "toBytes_loop (h # hs) str p (length pre) (pre @ replicate k 0) =
    toBytes_loop hs str off (length (pre @ piece @ lhead h)) ((pre @ piece @ lhead h) @ replicate (length rest) 0)"
    using p1 po by (simp add: off_def [symmetric] sl c1 m Let_def add.assoc del: append_assoc)
  then show ?case
    by (intro exI [of _ q] exI [of _ "piece @ lhead h @ mid"]) (use ih r in simp)
qed

lemma toBytes_render:
  assumes "heads_in 0 (length (eb_str w)) (lheads w)" "lhsize w = heads_size (lheads w)"
  shows "toBytes w = Some (render 0 (eb_str w) (lheads w))"
proof -
  have "eb_size w = length (render 0 (eb_str w) (lheads w))"
    using length_render [of 0 "eb_str w"] assms by (simp add: eb_size_def)
  then obtain q mid where l: "toBytes_loop (lheads w) (eb_str w) 0 0 (replicate (eb_size w) 0) =
      Some (q, length mid, mid @ replicate (length (eb_str w) - q) 0)" "q \<le> length (eb_str w)"
    "render 0 (eb_str w) (lheads w) = mid @ drop q (eb_str w)"
    using toBytes_loop_render [OF assms(1), of "eb_size w" "[]"] by auto
  then show ?thesis by (simp add: toBytes_def slice_def copy_into_def Let_def)
qed

lemma EncodeToBytes_enc:
  assumes "\<And>b. enc v = Some b \<Longrightarrow> length b < 2 ^ 64"
  shows "EncodeToBytes v = Some (case enc v of None \<Rightarrow> Inl errNegativeBig | Some b \<Rightarrow> Inr b)"
proof (cases "enc v")
  case None
  then show ?thesis using eb_encode_error(1) [of v eb_reset]
    by (auto simp: EncodeToBytes_def split: prod.split)
next
  case (Some b)
  then obtain w where w: "eb_encode v eb_reset = (None, w)"
    using eb_encode_error(1) [of v eb_reset] by (cases "eb_encode v eb_reset") auto
  then have "adds eb_reset w b" using eb_encode_adds(1) [OF Some assms, of eb_reset] Some by simp
  then have "toBytes w = Some b" unfolding adds_def eb_reset_def using toBytes_render by auto
  then show ?thesis by (simp add: EncodeToBytes_def w Some)
qed

lemma length_enc_list_le: "length (enc_list b) \<le> length b + 9"
  using length_putint(2) by (simp add: enc_list_def puthead_def Let_def)

subsection \<open>Properties\<close>

text \<open>C14. \<open>EncodeToBytes\<close>, which writes strings and list headers into two buffers and merges them, returns
  the recursive RLP encoding of its argument, and an error exactly when there is a negative integer in it;
  \<open>toBytes\<close> never indexes out of its output.\<close>

theorem EncodeToBytes_correct:
  assumes "\<And>b. enc v = Some b \<Longrightarrow> length b < 2 ^ 64"
  shows "EncodeToBytes v = Some (case enc v of None \<Rightarrow> Inl errNegativeBig | Some b \<Rightarrow> Inr b)"
  using assms by (rule EncodeToBytes_enc)

theorem EncodeToBytes_correct_witness:
  "EncodeToBytes (RSlice [RUint 1024, RSlice [RBytes [1]], RBigIntPtr None]) =
     Some (Inr [0xC6, 0x82, 4, 0, 0xC1, 1, 0x80])"
proof -
  have "big_Bytes 1024 = [4, 0]" by code_simp
  then have "enc (RSlice [RUint 1024, RSlice [RBytes [1]], RBigIntPtr None]) = Some [0xC6, 0x82, 4, 0, 0xC1, 1, 0x80]"
    by (simp add: enc_list_def puthead_def encodeString_def encodeStringHeader_def)
  then show ?thesis using EncodeToBytes_correct [of "RSlice [RUint 1024, RSlice [RBytes [1]], RBigIntPtr None]"] by simp
qed

text \<open>C15. What \<open>EncodeToBytes\<close> writes for a list, \<open>SplitList\<close> takes apart again: it returns the encodings of
  the elements and whatever followed the list.\<close>

theorem EncodeToBytes_SplitList:
  assumes "enc_all vs = Some payload" "length payload + 9 + length rest < 2 ^ 64"
  shows "\<exists>b. EncodeToBytes (RSlice vs) = Some (Inr b) \<and> SplitList (b @ rest) = Some (Inr (payload, rest))"
proof -
  have "EncodeToBytes (RSlice vs) = Some (Inr (enc_list payload))"
    using assms length_enc_list_le [of payload] EncodeToBytes_enc [of "RSlice vs"] by simp
  moreover have "Split (enc_list payload @ rest) = Some (Inr (KList, payload, rest))"
    unfolding enc_list_def append_assoc using assms(2) by (intro Split_puthead) auto
  ultimately show ?thesis by (auto simp: SplitList_def)
qed

theorem EncodeToBytes_SplitList_witness:
  "\<exists>b. EncodeToBytes (RSlice [RBytes [1], RBytes [2]]) = Some (Inr b) \<and> SplitList (b @ [3]) = Some (Inr ([1, 2], [3]))"
  using EncodeToBytes_SplitList [of "[RBytes [1], RBytes [2]]" "[1, 2]" "[3]"]
  by (simp add: encodeString_def)

end
