(* ===== verification/EVM_Core.thy ===== *)
theory EVM_Core
  imports VM_Base State Rlp_Encode
begin

unbundle bit_operations_syntax

text \<open>
  The call layer of \<open>src/kernel/vm\<close>: the precompiled contracts (\<open>contracts.go\<close>), the machine object
  and its \<open>Call\<close>, \<open>CallCode\<close>, \<open>DelegateCall\<close>, \<open>StaticCall\<close>, \<open>Create\<close> and \<open>Create2\<close> (\<open>evm.go\<close>), and the
  address functions of \<open>src/lib/crypto/crypto.go\<close>.

  The machine calls the bytecode interpreter and the interpreter calls the machine. The definitions here
  take the interpreter as the argument \<open>rn\<close>; \<open>Interpreter\<close> ties the knot. The objects \<open>EVM\<close> and
  \<open>EVMInterpreter\<close> point to each other one to one and are one record. Signature recovery, the hash
  functions other than Keccak and the curve operations are the record \<open>crypto\<close>; curve points are opaque.
  Tracing, the integer pool and custom jump tables are not modelled.
\<close>

subsection \<open>Cryptography the machine calls\<close>

record crypto =
  Ecrecover :: "bytes \<Rightarrow> bytes \<Rightarrow> string + bytes"
  sha256_Sum :: "bytes \<Rightarrow> bytes"
  ripemd160_Sum :: "bytes \<Rightarrow> bytes"
  G1_Unmarshal :: "bytes \<Rightarrow> string + bytes"
  G1_Add :: "bytes \<Rightarrow> bytes \<Rightarrow> bytes"
  G1_ScalarMult :: "bytes \<Rightarrow> int \<Rightarrow> bytes"
  G1_Marshal :: "bytes \<Rightarrow> bytes"
  G2_Unmarshal :: "bytes \<Rightarrow> string + bytes"
  PairingCheck :: "bytes list \<Rightarrow> bytes list \<Rightarrow> bool"

definition secp256k1N :: int where
  "secp256k1N = 0xfffffffffffffffffffffffffffffffebaaedce6af48a03bbfd25e8cd0364141"

definition secp256k1halfN :: int where
  "secp256k1halfN = secp256k1N div 2"

definition ValidateSignatureValues :: "byte \<Rightarrow> int \<Rightarrow> int \<Rightarrow> bool \<Rightarrow> bool" where
  "ValidateSignatureValues v r s homestead =
     (if r < 1 \<or> s < 1 then False
      else if homestead \<and> s > secp256k1halfN then False
      else r < secp256k1N \<and> s < secp256k1N \<and> (v = 0 \<or> v = 1))"

definition CreateAddress :: "(bytes \<Rightarrow> hash) \<Rightarrow> address \<Rightarrow> u64 \<Rightarrow> address option" where
  "CreateAddress kec b nonce = do {
     r \<leftarrow> EncodeToBytes (RSlice [RBytes (addr_Bytes b), RUint nonce]);
     let d = (case r of Inl _ \<Rightarrow> [] | Inr d \<Rightarrow> d);
     Some (BytesToAddress (drop 12 (hash_Bytes (kec d)))) }"

definition CreateAddress2 :: "(bytes \<Rightarrow> hash) \<Rightarrow> address \<Rightarrow> hash \<Rightarrow> bytes \<Rightarrow> address" where
  "CreateAddress2 kec b salt inithash =
     BytesToAddress (drop 12 (hash_Bytes (kec (0xff # addr_Bytes b @ hash_Bytes salt @ inithash))))"

subsection \<open>contracts.go\<close>

type_synonym call_result = "gobytes \<times> vm_error option"

record PrecompiledContract =
  RequiredGas :: "bytes \<Rightarrow> u64 option"
  pc_Run :: "gobytes \<Rightarrow> call_result option"

text \<open>
  Fixed-position windows of the padded input; the bounds hold by the padding. The second result is what the
  caller's input slice holds afterwards: \<open>append(input[64:128], v)\<close> has room to write in place when the input is
  longer than 128 bytes, and then byte 128 of the caller's slice becomes \<open>v\<close>. The machine does not read the
  slice again.
\<close>

definition ecrecover_Run :: "crypto \<Rightarrow> (bytes \<Rightarrow> hash) \<Rightarrow> bytes \<Rightarrow> (call_result \<times> bytes) option" where
  "ecrecover_Run cr kec inp = do {
     input \<leftarrow> RightPadBytes inp 128;
     rb \<leftarrow> slice input 64 96;
     sb \<leftarrow> slice input 96 128;
     zs \<leftarrow> slice input 32 63;
     let r = SetBytes rb;
     let s = SetBytes sb;
     let v = input ! 63 - 27;
     if \<not> allZero zs \<or> \<not> ValidateSignatureValues v r s False then Some ((None, None), inp)
     else do {
       hsh \<leftarrow> slice input 0 32;
       sg \<leftarrow> slice input 64 128;
       let inp' = (if length inp > 128 then inp[128 := v] else inp);
       case Ecrecover cr hsh (sg @ [v]) of
         Inl _ \<Rightarrow> Some ((None, None), inp')
       | Inr pubKey \<Rightarrow> do {
           pk \<leftarrow> slice pubKey 1 (length pubKey);
           ret \<leftarrow> LeftPadBytes (drop 12 (hash_Bytes (kec pk))) 32;
           Some ((Some ret, None), inp') } } }"

definition ecrecover :: "crypto \<Rightarrow> (bytes \<Rightarrow> hash) \<Rightarrow> PrecompiledContract" where
  "ecrecover cr kec =
     \<lparr>RequiredGas = (\<lambda>input. Some EcrecoverGas),
      pc_Run = (\<lambda>inp. map_option fst (ecrecover_Run cr kec (sl inp)))\<rparr>"

definition sha256hash :: "crypto \<Rightarrow> PrecompiledContract" where
  "sha256hash cr =
     \<lparr>RequiredGas = (\<lambda>input. Some (of_nat (length input + 31) div 32 * Sha256PerWordGas + Sha256BaseGas)),
      pc_Run = (\<lambda>input. Some (Some (sha256_Sum cr (sl input)), None))\<rparr>"

definition ripemd160hash :: "crypto \<Rightarrow> PrecompiledContract" where
  "ripemd160hash cr =
     \<lparr>RequiredGas = (\<lambda>input. Some (of_nat (length input + 31) div 32 * Ripemd160PerWordGas + Ripemd160BaseGas)),
      pc_Run = (\<lambda>input. do { ret \<leftarrow> LeftPadBytes (ripemd160_Sum cr (sl input)) 32; Some (Some ret, None) })\<rparr>"

definition dataCopy :: PrecompiledContract where
  "dataCopy =
     \<lparr>RequiredGas = (\<lambda>input. Some (of_nat (length input + 31) div 32 * IdentityPerWordGas + IdentityBaseGas)),
      pc_Run = (\<lambda>input. Some (input, None))\<rparr>"

definition modexp_lens :: "bytes \<Rightarrow> (int \<times> int \<times> int \<times> bytes) option" where
  "modexp_lens input = do {
     b \<leftarrow> getData input 0 32;
     e \<leftarrow> getData input 32 32;
     m \<leftarrow> getData input 64 32;
     Some (SetBytes b, SetBytes e, SetBytes m, if length input > 96 then drop 96 input else []) }"

definition bigModExp_RequiredGas :: "bytes \<Rightarrow> u64 option" where
  "bigModExp_RequiredGas inp = do {
     (baseLen, expLen, modLen, input) \<leftarrow> modexp_lens inp;
     expHead \<leftarrow> (if int (length input) \<le> baseLen then Some 0
       else if expLen > 32 then map_option SetBytes (getData input (Uint64 baseLen) 32)
       else map_option SetBytes (getData input (Uint64 baseLen) (Uint64 expLen)));
     let bitlen = BitLen expHead;
     let msb = (if bitlen > 0 then int bitlen - 1 else 0);
     let adjExpLen = (if expLen > 32 then 8 * (expLen - 32) else 0) + msb;
     let x = BigMax modLen baseLen;
     let gas = (if x \<le> 64 then x * x
       else if x \<le> 1024 then x * x div 4 + (96 * x - 3072)
       else x * x div 16 + (480 * x - 199680));
     let gas = gas * BigMax adjExpLen 1;
     let gas = gas div uint ModExpQuadCoeffDiv;
     Some (if BitLen gas > 64 then MaxUint64 else Uint64 gas) }"

text \<open>\<open>big.Int.Exp\<close> with a positive modulus.\<close>

function mod_exp :: "int \<Rightarrow> nat \<Rightarrow> int \<Rightarrow> int" where
  "mod_exp b e m =
     (if e = 0 then 1 mod m
      else let h = mod_exp (b * b mod m) (e div 2) m in if even e then h else b * h mod m)"
  by pat_completeness auto
termination by (relation "measure (\<lambda>(b, e, m). e)") auto

declare mod_exp.simps [simp del]

definition bigModExp_Run :: "bytes \<Rightarrow> call_result option" where
  "bigModExp_Run inp = do {
     (bl, el, ml, input) \<leftarrow> modexp_lens inp;
     let baseLen = Uint64 bl;
     let expLen = Uint64 el;
     let modLen = Uint64 ml;
     if baseLen = 0 \<and> modLen = 0 then Some (Some [], None)
     else do {
       b \<leftarrow> getData input 0 baseLen;
       e \<leftarrow> getData input baseLen expLen;
       m \<leftarrow> getData input (baseLen + expLen) modLen;
       let base = SetBytes b;
       let ex = SetBytes e;
       let md = SetBytes m;
       if BitLen md = 0 then do { ret \<leftarrow> LeftPadBytes [] (sint modLen); Some (Some ret, None) }
       else do { ret \<leftarrow> LeftPadBytes (big_Bytes (mod_exp base (nat ex) md)) (sint modLen); Some (Some ret, None) } } }"

definition bigModExp :: PrecompiledContract where
  "bigModExp = \<lparr>RequiredGas = bigModExp_RequiredGas, pc_Run = (\<lambda>input. bigModExp_Run (sl input))\<rparr>"

definition newCurvePoint :: "crypto \<Rightarrow> bytes \<Rightarrow> vm_error + bytes" where
  "newCurvePoint cr blob = map_sum errCurve id (G1_Unmarshal cr blob)"

definition newTwistPoint :: "crypto \<Rightarrow> bytes \<Rightarrow> vm_error + bytes" where
  "newTwistPoint cr blob = map_sum errCurve id (G2_Unmarshal cr blob)"

definition bn256Add :: "crypto \<Rightarrow> PrecompiledContract" where
  "bn256Add cr =
     \<lparr>RequiredGas = (\<lambda>input. Some Bn256AddGas),
      pc_Run = (\<lambda>input. do {
        xb \<leftarrow> getData (sl input) 0 64;
        case newCurvePoint cr xb of Inl err \<Rightarrow> Some (None, Some err)
        | Inr x \<Rightarrow> do {
            yb \<leftarrow> getData (sl input) 64 64;
            case newCurvePoint cr yb of Inl err \<Rightarrow> Some (None, Some err)
            | Inr y \<Rightarrow> Some (Some (G1_Marshal cr (G1_Add cr x y)), None) } })\<rparr>"

definition bn256ScalarMul :: "crypto \<Rightarrow> PrecompiledContract" where
  "bn256ScalarMul cr =
     \<lparr>RequiredGas = (\<lambda>input. Some Bn256ScalarMulGas),
      pc_Run = (\<lambda>input. do {
        pb \<leftarrow> getData (sl input) 0 64;
        case newCurvePoint cr pb of Inl err \<Rightarrow> Some (None, Some err)
        | Inr p \<Rightarrow> do {
            k \<leftarrow> getData (sl input) 64 32;
            Some (Some (G1_Marshal cr (G1_ScalarMult cr p (SetBytes k))), None) } })\<rparr>"

definition true32Byte :: bytes where "true32Byte = replicate 31 0 @ [1]"

definition false32Byte :: bytes where "false32Byte = replicate 32 0"

text \<open>The loop over the 192-byte records; the input is consumed from the front.\<close>

function pairing_points ::
  "crypto \<Rightarrow> bytes \<Rightarrow> bytes list \<Rightarrow> bytes list \<Rightarrow> (vm_error + (bytes list \<times> bytes list)) option" where
  "pairing_points cr input cs ts =
     (if input = [] then Some (Inr (cs, ts))
      else do {
        cb \<leftarrow> slice input 0 64;
        case newCurvePoint cr cb of Inl err \<Rightarrow> Some (Inl err)
        | Inr c \<Rightarrow> do {
            tb \<leftarrow> slice input 64 192;
            case newTwistPoint cr tb of Inl err \<Rightarrow> Some (Inl err)
            | Inr t \<Rightarrow> pairing_points cr (drop 192 input) (cs @ [c]) (ts @ [t]) } })"
  by pat_completeness auto
termination by (relation "measure (\<lambda>(cr, input, cs, ts). length input)") auto

declare pairing_points.simps [simp del]

definition bn256Pairing :: "crypto \<Rightarrow> PrecompiledContract" where
  "bn256Pairing cr =
     \<lparr>RequiredGas = (\<lambda>input. Some (Bn256PairingBaseGas + of_nat (length input div 192) * Bn256PairingPerPointGas)),
      pc_Run = (\<lambda>input.
        if length (sl input) mod 192 > 0 then Some (None, Some errBadPairingInput)
        else do {
          r \<leftarrow> pairing_points cr (sl input) [] [];
          case r of Inl err \<Rightarrow> Some (None, Some err)
          | Inr (cs, ts) \<Rightarrow>
              Some (Some (if PairingCheck cr cs ts then true32Byte else false32Byte), None) })\<rparr>"

definition PrecompiledContractsHomestead ::
  "crypto \<Rightarrow> (bytes \<Rightarrow> hash) \<Rightarrow> address \<rightharpoonup> PrecompiledContract" where
  "PrecompiledContractsHomestead cr kec =
     [1 \<mapsto> ecrecover cr kec, 2 \<mapsto> sha256hash cr, 3 \<mapsto> ripemd160hash cr, 4 \<mapsto> dataCopy]"

definition PrecompiledContractsByzantium ::
  "crypto \<Rightarrow> (bytes \<Rightarrow> hash) \<Rightarrow> address \<rightharpoonup> PrecompiledContract" where
  "PrecompiledContractsByzantium cr kec =
     [1 \<mapsto> ecrecover cr kec, 2 \<mapsto> sha256hash cr, 3 \<mapsto> ripemd160hash cr, 4 \<mapsto> dataCopy,
      5 \<mapsto> bigModExp, 6 \<mapsto> bn256Add cr, 7 \<mapsto> bn256ScalarMul cr, 8 \<mapsto> bn256Pairing cr]"

definition RunPrecompiledContract ::
  "PrecompiledContract \<Rightarrow> gobytes \<Rightarrow> Contract \<Rightarrow> (call_result \<times> Contract) option" where
  "RunPrecompiledContract p input contract = do {
     gas \<leftarrow> RequiredGas p (sl input);
     let (ok, contract') = UseGas gas contract;
     if ok then do { r \<leftarrow> pc_Run p input; Some (r, contract') }
     else Some ((None, Some ErrOutOfGas), contract') }"

subsection \<open>evm.go\<close>

record 't Context =
  CanTransfer :: "'t StateDB \<Rightarrow> address \<Rightarrow> int \<Rightarrow> bool \<times> 't StateDB"
  Transfer :: "'t StateDB \<Rightarrow> address \<Rightarrow> address \<Rightarrow> int \<Rightarrow> 't StateDB"
  GetHash :: "u64 \<Rightarrow> hash"
  Origin :: address
  GasPrice :: int
  Coinbase :: address
  GasLimit :: u64
  BlockNumber :: int
  ctx_Time :: int
  Difficulty :: int

record Config =
  NoRecursion :: bool
  EnablePreimageRecording :: bool

text \<open>
  \<open>readOnly\<close>, \<open>returnData\<close> and \<open>gasTable\<close> are fields of the interpreter. \<open>jumpdests\<close> is the map that a
  contract shares with the contract that called it.
\<close>

record 't EVM =
  evm_Context :: "'t Context"
  evm_StateDB :: "'t StateDB"
  depth :: nat
  chainConfig :: ChainConfig
  chainRules :: Rules
  vmConfig :: Config
  abort :: bool
  callGasTemp :: u64
  readOnly :: bool
  returnData :: gobytes
  gasTable :: GasTable
  jumpdests :: jumpdest_cache
  evm_crypto :: crypto

type_synonym 't run_fn =
  "Contract \<Rightarrow> gobytes \<Rightarrow> bool \<Rightarrow> 't EVM \<Rightarrow> (call_result \<times> Contract \<times> 't EVM) option"

definition blockNum :: "'t EVM \<Rightarrow> int option" where
  "blockNum evm = Some (BlockNumber (evm_Context evm))"

definition evm_keccak :: "'t EVM \<Rightarrow> bytes \<Rightarrow> hash" where
  "evm_keccak evm = keccak256 (sdb_db (evm_StateDB evm))"

definition NewEVM :: "'t Context \<Rightarrow> 't StateDB \<Rightarrow> ChainConfig \<Rightarrow> Config \<Rightarrow> crypto \<Rightarrow> 't EVM option" where
  "NewEVM ctx statedb config vmcfg cr =
     (if IsEWASM config (Some (BlockNumber ctx)) then None
      else Some \<lparr>evm_Context = ctx, evm_StateDB = statedb, depth = 0, chainConfig = config,
                 chainRules = config_Rules config (Some (BlockNumber ctx)), vmConfig = vmcfg, abort = False,
                 callGasTemp = 0, readOnly = False, returnData = None,
                 gasTable = config_GasTable config (Some (BlockNumber ctx)), jumpdests = Map.empty,
                 evm_crypto = cr\<rparr>)"

definition precompiles :: "'t EVM \<Rightarrow> address \<rightharpoonup> PrecompiledContract" where
  "precompiles evm =
     (if IsByzantium (chainConfig evm) (blockNum evm)
      then PrecompiledContractsByzantium (evm_crypto evm) (evm_keccak evm)
      else PrecompiledContractsHomestead (evm_crypto evm) (evm_keccak evm))"

definition run :: "'t run_fn \<Rightarrow> 't run_fn" where
  "run rn contract input ro evm =
     (case Option.bind (c_CodeAddr contract) (precompiles evm) of
        Some p \<Rightarrow> do { (r, c) \<leftarrow> RunPrecompiledContract p input contract; Some (r, c, evm) }
      | None \<Rightarrow> rn contract input ro evm)"

text \<open>A contract called by a contract shares its map of bitmaps, any other starts with a new one.\<close>

definition share_jumpdests :: "ContractRef \<Rightarrow> 't EVM \<Rightarrow> 't EVM" where
  "share_jumpdests cllr evm =
     (case cllr of OfContract _ \<Rightarrow> evm | AccountRef _ \<Rightarrow> evm\<lparr>jumpdests := Map.empty\<rparr>)"

text \<open>The common tail of the four kinds of call.\<close>

definition settle ::
  "nat \<Rightarrow> call_result \<times> Contract \<times> 't EVM \<Rightarrow> ((gobytes \<times> u64 \<times> vm_error option) \<times> 't EVM) option" where
  "settle snapshot rce =
     (case rce of ((ret, err), contract, evm) \<Rightarrow>
        case err of
          None \<Rightarrow> Some ((ret, c_Gas contract, None), evm)
        | Some e \<Rightarrow> do {
            s \<leftarrow> RevertToSnapshot snapshot (evm_StateDB evm);
            let contract' = (if e \<noteq> errExecutionReverted then snd (UseGas (c_Gas contract) contract) else contract);
            Some ((ret, c_Gas contract', Some e), evm\<lparr>evm_StateDB := s\<rparr>) })"

text \<open>\<open>SetCallCode(&addr, GetCodeHash(addr), GetCode(addr))\<close>.\<close>

definition load_code :: "address \<Rightarrow> Contract \<Rightarrow> 't EVM \<Rightarrow> Contract \<times> 't EVM" where
  "load_code addr contract evm =
     (let (h, s1) = GetCodeHash addr (evm_StateDB evm);
          (code, s2) = GetCode addr s1
      in (SetCallCode (Some addr) h (sl code) contract, evm\<lparr>evm_StateDB := s2\<rparr>))"

definition Call ::
  "'t run_fn \<Rightarrow> ContractRef \<Rightarrow> address \<Rightarrow> gobytes \<Rightarrow> u64 \<Rightarrow> int \<Rightarrow> 't EVM \<Rightarrow>
   ((gobytes \<times> u64 \<times> vm_error option) \<times> 't EVM) option" where
  "Call rn cllr addr input gas v evm =
     (if NoRecursion (vmConfig evm) \<and> depth evm > 0 then Some ((None, gas, None), evm)
      else if depth evm > CallCreateDepth then Some ((None, gas, Some ErrDepth), evm)
      else
        let (can, s0) = CanTransfer (evm_Context evm) (evm_StateDB evm) (ref_Address cllr) v;
            evm0 = evm\<lparr>evm_StateDB := s0\<rparr>
        in if \<not> can then Some ((None, gas, Some ErrInsufficientBalance), evm0)
           else
             let (snapshot, s1) = Snapshot s0;
                 (ex, s2) = Exist addr s1
             in if \<not> ex \<and> precompiles evm addr = None \<and> IsEIP158 (chainConfig evm) (blockNum evm) \<and> v = 0
                then Some ((None, gas, None), evm\<lparr>evm_StateDB := s2\<rparr>)
                else
                  let s3 = (if ex then s2 else CreateAccount addr s2);
                      s4 = Transfer (evm_Context evm) s3 (ref_Address cllr) addr v;
                      contract = NewContract cllr addr (Some v) gas;
                      (contract, evm1) = load_code addr contract (share_jumpdests cllr (evm\<lparr>evm_StateDB := s4\<rparr>))
                  in do { r \<leftarrow> run rn contract input False evm1; settle snapshot r })"

definition CallCode ::
  "'t run_fn \<Rightarrow> ContractRef \<Rightarrow> address \<Rightarrow> gobytes \<Rightarrow> u64 \<Rightarrow> int \<Rightarrow> 't EVM \<Rightarrow>
   ((gobytes \<times> u64 \<times> vm_error option) \<times> 't EVM) option" where
  "CallCode rn cllr addr input gas v evm =
     (if NoRecursion (vmConfig evm) \<and> depth evm > 0 then Some ((None, gas, None), evm)
      else if depth evm > CallCreateDepth then Some ((None, gas, Some ErrDepth), evm)
      else
        let (can, s0) = CanTransfer (evm_Context evm) (evm_StateDB evm) (ref_Address cllr) v
        in if \<not> can then Some ((None, gas, Some ErrInsufficientBalance), evm\<lparr>evm_StateDB := s0\<rparr>)
           else
             let (snapshot, s1) = Snapshot s0;
                 contract = NewContract cllr (ref_Address cllr) (Some v) gas;
                 (contract, evm1) = load_code addr contract (share_jumpdests cllr (evm\<lparr>evm_StateDB := s1\<rparr>))
             in do { r \<leftarrow> run rn contract input False evm1; settle snapshot r })"

definition DelegateCall ::
  "'t run_fn \<Rightarrow> ContractRef \<Rightarrow> address \<Rightarrow> gobytes \<Rightarrow> u64 \<Rightarrow> 't EVM \<Rightarrow>
   ((gobytes \<times> u64 \<times> vm_error option) \<times> 't EVM) option" where
  "DelegateCall rn cllr addr input gas evm =
     (if NoRecursion (vmConfig evm) \<and> depth evm > 0 then Some ((None, gas, None), evm)
      else if depth evm > CallCreateDepth then Some ((None, gas, Some ErrDepth), evm)
      else
        let (snapshot, s1) = Snapshot (evm_StateDB evm)
        in do {
          contract \<leftarrow> AsDelegate cllr (NewContract cllr (ref_Address cllr) None gas);
          let (contract, evm1) = load_code addr contract (share_jumpdests cllr (evm\<lparr>evm_StateDB := s1\<rparr>));
          r \<leftarrow> run rn contract input False evm1;
          settle snapshot r })"

definition StaticCall ::
  "'t run_fn \<Rightarrow> ContractRef \<Rightarrow> address \<Rightarrow> gobytes \<Rightarrow> u64 \<Rightarrow> 't EVM \<Rightarrow>
   ((gobytes \<times> u64 \<times> vm_error option) \<times> 't EVM) option" where
  "StaticCall rn cllr addr input gas evm =
     (if NoRecursion (vmConfig evm) \<and> depth evm > 0 then Some ((None, gas, None), evm)
      else if depth evm > CallCreateDepth then Some ((None, gas, Some ErrDepth), evm)
      else
        let (snapshot, s1) = Snapshot (evm_StateDB evm);
            contract = NewContract cllr addr (Some 0) gas;
            (contract, evm1) = load_code addr contract (share_jumpdests cllr (evm\<lparr>evm_StateDB := s1\<rparr>))
        in do { r \<leftarrow> run rn contract input True evm1; settle snapshot r })"

text \<open>\<open>codeAndHash\<close> is the pair of its fields; the hash is zero until \<open>Hash\<close> is asked for.\<close>

definition cah_Hash :: "(bytes \<Rightarrow> hash) \<Rightarrow> bytes \<times> hash \<Rightarrow> hash \<times> (bytes \<times> hash)" where
  "cah_Hash kec c =
     (let h = (if snd c = 0 then kec (fst c) else snd c) in (h, (fst c, h)))"

text \<open>The end of \<open>create\<close>: the code deposit, then the revert rules.\<close>

definition deposit ::
  "nat \<Rightarrow> address \<Rightarrow> call_result \<times> Contract \<times> 't EVM \<Rightarrow>
   ((gobytes \<times> address \<times> u64 \<times> vm_error option) \<times> 't EVM) option" where
  "deposit snapshot addr rce =
     (case rce of ((ret, err), contract, evm) \<Rightarrow>
        let exceeded = (IsEIP158 (chainConfig evm) (blockNum evm) \<and> length (sl ret) > MaxCodeSize);
            (err, contract, evm) =
              (if err = None \<and> \<not> exceeded
               then let (ok, c) = UseGas (of_nat (length (sl ret)) * CreateDataGas) contract
                    in if ok then (err, c, evm\<lparr>evm_StateDB := SetCode addr ret (evm_StateDB evm)\<rparr>)
                       else (Some ErrCodeStoreOutOfGas, c, evm)
               else (err, contract, evm))
        in do {
          (contract, evm) \<leftarrow>
            (if exceeded \<or> err \<noteq> None
                 \<and> (IsHomestead (chainConfig evm) (blockNum evm) \<or> err \<noteq> Some ErrCodeStoreOutOfGas)
             then do {
               s \<leftarrow> RevertToSnapshot snapshot (evm_StateDB evm);
               Some (if err \<noteq> Some errExecutionReverted then snd (UseGas (c_Gas contract) contract) else contract,
                     evm\<lparr>evm_StateDB := s\<rparr>) }
             else Some (contract, evm));
          Some ((ret, addr, c_Gas contract,
                 if exceeded \<and> err = None then Some errMaxCodeSizeExceeded else err), evm) })"

definition create ::
  "'t run_fn \<Rightarrow> ContractRef \<Rightarrow> bytes \<times> hash \<Rightarrow> u64 \<Rightarrow> int \<Rightarrow> address \<Rightarrow> 't EVM \<Rightarrow>
   ((gobytes \<times> address \<times> u64 \<times> vm_error option) \<times> 't EVM) option" where
  "create rn cllr codeAndHash gas v addr evm =
     (if depth evm > CallCreateDepth then Some ((None, 0, gas, Some ErrDepth), evm)
      else
        let (can, s0) = CanTransfer (evm_Context evm) (evm_StateDB evm) (ref_Address cllr) v
        in if \<not> can then Some ((None, 0, gas, Some ErrInsufficientBalance), evm\<lparr>evm_StateDB := s0\<rparr>)
           else
             let (nonce, s1) = GetNonce (ref_Address cllr) s0;
                 s2 = SetNonce (ref_Address cllr) (nonce + 1) s1;
                 (contractHash, s3) = GetCodeHash addr s2;
                 (n, s4) = GetNonce addr s3
             in if n \<noteq> 0 \<or> contractHash \<noteq> 0 \<and> contractHash \<noteq> evm_keccak evm []
                then Some ((None, 0, 0, Some ErrContractAddressCollision), evm\<lparr>evm_StateDB := s4\<rparr>)
                else
                  let (snapshot, s5) = Snapshot s4;
                      s6 = CreateAccount addr s5;
                      s7 = (if IsEIP158 (chainConfig evm) (blockNum evm) then SetNonce addr 1 s6 else s6);
                      s8 = Transfer (evm_Context evm) s7 (ref_Address cllr) addr v;
                      contract = SetCodeOptionalHash (Some addr) codeAndHash (NewContract cllr addr (Some v) gas);
                      evm1 = share_jumpdests cllr (evm\<lparr>evm_StateDB := s8\<rparr>)
                  in if NoRecursion (vmConfig evm) \<and> depth evm > 0 then Some ((None, addr, gas, None), evm1)
                     else do { r \<leftarrow> run rn contract None False evm1; deposit snapshot addr r })"

definition Create ::
  "'t run_fn \<Rightarrow> ContractRef \<Rightarrow> bytes \<Rightarrow> u64 \<Rightarrow> int \<Rightarrow> 't EVM \<Rightarrow>
   ((gobytes \<times> address \<times> u64 \<times> vm_error option) \<times> 't EVM) option" where
  "Create rn cllr code gas v evm =
     (let (nonce, s) = GetNonce (ref_Address cllr) (evm_StateDB evm)
      in do {
        contractAddr \<leftarrow> CreateAddress (evm_keccak evm) (ref_Address cllr) nonce;
        create rn cllr (code, 0) gas v contractAddr (evm\<lparr>evm_StateDB := s\<rparr>) })"

definition Create2 ::
  "'t run_fn \<Rightarrow> ContractRef \<Rightarrow> bytes \<Rightarrow> u64 \<Rightarrow> int \<Rightarrow> int \<Rightarrow> 't EVM \<Rightarrow>
   ((gobytes \<times> address \<times> u64 \<times> vm_error option) \<times> 't EVM) option" where
  "Create2 rn cllr code gas endowment salt evm =
     (let (h, codeAndHash) = cah_Hash (evm_keccak evm) (code, 0);
          contractAddr = CreateAddress2 (evm_keccak evm) (ref_Address cllr) (BigToHash salt) (hash_Bytes h)
      in create rn cllr codeAndHash gas endowment contractAddr evm)"

end
