(* ===== verification/Gas_Table.thy ===== *)
theory Gas_Table
  imports EVM_Core
begin

text \<open>
  \<open>src/kernel/vm/gas.go\<close> and \<open>gas_table.go\<close>: what each instruction charges before it runs.

  A \<open>frame\<close> is what the loop of the interpreter passes around: the program counter, the machine, the
  contract, the memory and the operand stack. A gas function reads the frame, may change it (the memory
  fee counter, the refund counter, the call gas), and returns the charge or an error. Every error return
  of the source carries the charge zero, so the two results are one value \<open>vm_error + u64\<close>.
\<close>

record 't frame =
  f_pc :: u64
  f_evm :: "'t EVM"
  f_contract :: Contract
  f_mem :: Memory
  f_stack :: Stack

abbreviation f_db :: "'t frame \<Rightarrow> 't StateDB" where
  "f_db f \<equiv> evm_StateDB (f_evm f)"

definition with_db :: "'t StateDB \<Rightarrow> 't frame \<Rightarrow> 't frame" where
  "with_db s f = f\<lparr>f_evm := (f_evm f)\<lparr>evm_StateDB := s\<rparr>\<rparr>"

type_synonym ('t, 'a) gas_m = "'t frame \<Rightarrow> ((vm_error + 'a) \<times> 't frame) option"

type_synonym 't gasFunc = "GasTable \<Rightarrow> u64 \<Rightarrow> ('t, u64) gas_m"

subsection \<open>Sequencing\<close>

definition gret :: "'a \<Rightarrow> ('t, 'a) gas_m" where
  "gret x f = Some (Inr x, f)"

definition gerr :: "vm_error \<Rightarrow> ('t, 'a) gas_m" where
  "gerr e f = Some (Inl e, f)"

definition gbind :: "('t, 'a) gas_m \<Rightarrow> ('a \<Rightarrow> ('t, 'b) gas_m) \<Rightarrow> ('t, 'b) gas_m" where
  "gbind m k f =
     (case m f of
        None \<Rightarrow> None
      | Some (Inl e, f') \<Rightarrow> Some (Inl e, f')
      | Some (Inr x, f') \<Rightarrow> k x f')"

text \<open>
  The frame itself, a value with an overflow flag, an operand, a query of the database, an update of it.
\<close>

definition gask :: "('t frame \<Rightarrow> ('t, 'a) gas_m) \<Rightarrow> ('t, 'a) gas_m" where
  "gask k f = k f f"

definition gcheck :: "u64 \<times> bool \<Rightarrow> ('t, u64) gas_m" where
  "gcheck vo = (case vo of (v, overflow) \<Rightarrow> if overflow then gerr errGasUintOverflow else gret v)"

definition gback :: "nat \<Rightarrow> ('t, int) gas_m" where
  "gback n f = (case Back (f_stack f) n of None \<Rightarrow> None | Some x \<Rightarrow> gret x f)"

definition gget :: "('t StateDB \<Rightarrow> 'a \<times> 't StateDB) \<Rightarrow> ('t, 'a) gas_m" where
  "gget q f = (let (x, s) = q (f_db f) in gret x (with_db s f))"

definition ggetM :: "('t StateDB \<Rightarrow> ('a \<times> 't StateDB) option) \<Rightarrow> ('t, 'a) gas_m" where
  "ggetM q f = (case q (f_db f) of None \<Rightarrow> None | Some (x, s) \<Rightarrow> gret x (with_db s f))"

definition gmod :: "('t StateDB \<Rightarrow> 't StateDB) \<Rightarrow> ('t, unit) gas_m" where
  "gmod g f = gret () (with_db (g (f_db f)) f)"

definition gmodM :: "('t StateDB \<Rightarrow> 't StateDB option) \<Rightarrow> ('t, unit) gas_m" where
  "gmodM g f = (case g (f_db f) of None \<Rightarrow> None | Some s \<Rightarrow> gret () (with_db s f))"

subsection \<open>gas.go\<close>

definition GasQuickStep :: u64 where [params]: "GasQuickStep = 2"
definition GasFastestStep :: u64 where [params]: "GasFastestStep = 3"
definition GasFastStep :: u64 where [params]: "GasFastStep = 5"
definition GasMidStep :: u64 where [params]: "GasMidStep = 8"
definition GasSlowStep :: u64 where [params]: "GasSlowStep = 10"
definition GasExtStep :: u64 where [params]: "GasExtStep = 20"

definition callGas :: "GasTable \<Rightarrow> u64 \<Rightarrow> u64 \<Rightarrow> int \<Rightarrow> vm_error + u64" where
  "callGas gt availableGas base callCost =
     (let av = availableGas - base;
          gas = av - av div 64
      in if CreateBySuicide gt > 0 \<and> (BitLen callCost > 64 \<or> gas < Uint64 callCost) then Inr gas
         else if BitLen callCost > 64 then Inl errGasUintOverflow
         else Inr (Uint64 callCost))"

subsection \<open>gas_table.go\<close>

definition memoryGasCost :: "Memory \<Rightarrow> u64 \<Rightarrow> (vm_error + u64) \<times> Memory" where
  "memoryGasCost mem newMemSize =
     (if newMemSize = 0 then (Inr 0, mem)
      else if newMemSize > 0xffffffffe0 then (Inl errGasUintOverflow, mem)
      else
        let newMemSizeWords = toWordSize newMemSize;
            newMemSize = newMemSizeWords * 32
        in if newMemSize > of_nat (mem_Len mem)
           then
             let square = newMemSizeWords * newMemSizeWords;
                 linCoef = newMemSizeWords * MemoryGas;
                 quadCoef = square div QuadCoeffDiv;
                 newTotalFee = linCoef + quadCoef;
                 fee = newTotalFee - lastGasCost mem
             in (Inr fee, mem\<lparr>lastGasCost := newTotalFee\<rparr>)
           else (Inr 0, mem))"

definition gmemory :: "u64 \<Rightarrow> ('t, u64) gas_m" where
  "gmemory memorySize f =
     (let (r, mem) = memoryGasCost (f_mem f) memorySize in Some (r, f\<lparr>f_mem := mem\<rparr>))"

definition constGasFunc :: "u64 \<Rightarrow> 't gasFunc" where
  "constGasFunc gas gt memorySize = gret gas"

text \<open>The charge that the copying instructions share: memory, a base and so much per word of operand \<open>n\<close>.\<close>

definition gwords :: "nat \<Rightarrow> u64 \<Rightarrow> u64 \<Rightarrow> u64 \<Rightarrow> ('t, u64) gas_m" where
  "gwords n base perWord memorySize =
     gbind (gmemory memorySize) (\<lambda>gas.
     gbind (gcheck (SafeAdd gas base)) (\<lambda>gas.
     gbind (gback n) (\<lambda>b.
     gbind (gcheck (bigUint64 b)) (\<lambda>words.
     gbind (gcheck (SafeMul (toWordSize words) perWord)) (\<lambda>words.
     gcheck (SafeAdd gas words))))))"

definition gasCallDataCopy :: "'t gasFunc" where
  "gasCallDataCopy gt memorySize = gwords 2 GasFastestStep CopyGas memorySize"

definition gasReturnDataCopy :: "'t gasFunc" where
  "gasReturnDataCopy gt memorySize = gwords 2 GasFastestStep CopyGas memorySize"

definition gasSStore_net :: "address \<Rightarrow> hash \<Rightarrow> hash \<Rightarrow> hash \<Rightarrow> ('t, u64) gas_m" where
  "gasSStore_net addr key current v =
     (if current = v then gret NetSstoreNoopGas
      else
        gbind (ggetM (GetCommittedState addr key)) (\<lambda>original.
        if original = current then
          (if original = 0 then gret NetSstoreInitGas
           else gbind (if v = 0 then gmod (AddRefund NetSstoreClearRefund) else gret ()) (\<lambda>_.
                gret NetSstoreCleanGas))
        else
          gbind (if original \<noteq> 0 then
                   (if current = 0 then gmodM (SubRefund NetSstoreClearRefund)
                    else if v = 0 then gmod (AddRefund NetSstoreClearRefund) else gret ())
                 else gret ()) (\<lambda>_.
          gbind (if original = v then
                   (if original = 0 then gmod (AddRefund NetSstoreResetClearRefund)
                    else gmod (AddRefund NetSstoreResetRefund))
                 else gret ()) (\<lambda>_.
          gret NetSstoreDirtyGas))))"

definition gasSStore :: "'t gasFunc" where
  "gasSStore gt memorySize =
     gbind (gback 1) (\<lambda>y.
     gbind (gback 0) (\<lambda>x.
     gask (\<lambda>f.
       gbind (ggetM (GetState (self (f_contract f)) (BigToHash x))) (\<lambda>current.
       if \<not> r_IsConstantinople (chainRules (f_evm f)) then
         (if current = 0 \<and> y \<noteq> 0 then gret SstoreSetGas
          else if current \<noteq> 0 \<and> y = 0 then
            gbind (gmod (AddRefund SstoreRefundGas)) (\<lambda>_. gret SstoreClearGas)
          else gret SstoreResetGas)
       else gasSStore_net (self (f_contract f)) (BigToHash x) current (BigToHash y)))))"

definition makeGasLog :: "u64 \<Rightarrow> 't gasFunc" where
  "makeGasLog n gt memorySize =
     gbind (gback 1) (\<lambda>b.
     gbind (gcheck (bigUint64 b)) (\<lambda>requestedSize.
     gbind (gmemory memorySize) (\<lambda>gas.
     gbind (gcheck (SafeAdd gas LogGas)) (\<lambda>gas.
     gbind (gcheck (SafeAdd gas (n * LogTopicGas))) (\<lambda>gas.
     gbind (gcheck (SafeMul requestedSize LogDataGas)) (\<lambda>memorySizeGas.
     gcheck (SafeAdd gas memorySizeGas)))))))"

definition gasSha3 :: "'t gasFunc" where
  "gasSha3 gt memorySize = gwords 1 Sha3Gas Sha3WordGas memorySize"

definition gasCodeCopy :: "'t gasFunc" where
  "gasCodeCopy gt memorySize = gwords 2 GasFastestStep CopyGas memorySize"

definition gasExtCodeCopy :: "'t gasFunc" where
  "gasExtCodeCopy gt memorySize = gwords 3 (ExtcodeCopy gt) CopyGas memorySize"

definition gasExtCodeHash :: "'t gasFunc" where
  "gasExtCodeHash gt memorySize = gret (ExtcodeHash gt)"

definition gasMLoad :: "'t gasFunc" where
  "gasMLoad gt memorySize = gbind (gmemory memorySize) (\<lambda>gas. gcheck (SafeAdd gas GasFastestStep))"

definition gasMStore8 :: "'t gasFunc" where
  "gasMStore8 gt memorySize = gbind (gmemory memorySize) (\<lambda>gas. gcheck (SafeAdd gas GasFastestStep))"

definition gasMStore :: "'t gasFunc" where
  "gasMStore gt memorySize = gbind (gmemory memorySize) (\<lambda>gas. gcheck (SafeAdd gas GasFastestStep))"

definition gasCreate :: "'t gasFunc" where
  "gasCreate gt memorySize = gbind (gmemory memorySize) (\<lambda>gas. gcheck (SafeAdd gas CreateGas))"

definition gasCreate2 :: "'t gasFunc" where
  "gasCreate2 gt memorySize = gwords 2 Create2Gas Sha3WordGas memorySize"

definition gasBalance :: "'t gasFunc" where
  "gasBalance gt memorySize = gret (gt_Balance gt)"

definition gasExtCodeSize :: "'t gasFunc" where
  "gasExtCodeSize gt memorySize = gret (ExtcodeSize gt)"

definition gasSLoad :: "'t gasFunc" where
  "gasSLoad gt memorySize = gret (SLoad gt)"

definition gasExp :: "'t gasFunc" where
  "gasExp gt memorySize =
     gbind (gback 1) (\<lambda>e.
     gcheck (SafeAdd (of_nat ((BitLen e + 7) div 8) * ExpByte gt) GasSlowStep))"

text \<open>The end of the four call charges: the gas the callee will get is stored and added.\<close>

definition gcall :: "GasTable \<Rightarrow> u64 \<Rightarrow> ('t, u64) gas_m" where
  "gcall gt gas =
     gbind (gback 0) (\<lambda>callCost. \<lambda>f.
       case callGas gt (c_Gas (f_contract f)) gas callCost of
         Inl err \<Rightarrow> gerr err (f\<lparr>f_evm := (f_evm f)\<lparr>callGasTemp := 0\<rparr>\<rparr>)
       | Inr g \<Rightarrow> gcheck (SafeAdd gas g) (f\<lparr>f_evm := (f_evm f)\<lparr>callGasTemp := g\<rparr>\<rparr>))"

definition gasCall :: "'t gasFunc" where
  "gasCall gt memorySize =
     gbind (gback 2) (\<lambda>v.
     gbind (gback 1) (\<lambda>a.
     gask (\<lambda>f.
       gbind (if IsEIP158 (chainConfig (f_evm f)) (blockNum (f_evm f)) then
                (if v \<noteq> 0
                 then gbind (gget (Empty (BigToAddress a))) (\<lambda>emp.
                      gret (if emp then Calls gt + CallNewAccountGas else Calls gt))
                 else gret (Calls gt))
              else gbind (gget (Exist (BigToAddress a))) (\<lambda>ex.
                   gret (if \<not> ex then Calls gt + CallNewAccountGas else Calls gt))) (\<lambda>gas.
       gbind (gmemory memorySize) (\<lambda>memoryGas.
       gbind (gcheck (SafeAdd (if v \<noteq> 0 then gas + CallValueTransferGas else gas) memoryGas)) (\<lambda>gas.
       gcall gt gas))))))"

definition gasCallCode :: "'t gasFunc" where
  "gasCallCode gt memorySize =
     gbind (gback 2) (\<lambda>v.
     gbind (gmemory memorySize) (\<lambda>memoryGas.
     gbind (gcheck (SafeAdd (if v \<noteq> 0 then Calls gt + CallValueTransferGas else Calls gt) memoryGas)) (\<lambda>gas.
     gcall gt gas)))"

definition gasReturn :: "'t gasFunc" where
  "gasReturn gt memorySize = gmemory memorySize"

definition gasRevert :: "'t gasFunc" where
  "gasRevert gt memorySize = gmemory memorySize"

definition gasSuicide :: "'t gasFunc" where
  "gasSuicide gt memorySize =
     gask (\<lambda>f. gbind
       (if IsEIP150 (chainConfig (f_evm f)) (blockNum (f_evm f)) then
          gbind (gback 0) (\<lambda>a.
          if IsEIP158 (chainConfig (f_evm f)) (blockNum (f_evm f)) then
            gbind (gget (Empty (BigToAddress a))) (\<lambda>emp.
            if emp then
              gbind (gget (GetBalance (self (f_contract f)))) (\<lambda>bal.
              gret (if bal \<noteq> 0 then gt_Suicide gt + CreateBySuicide gt else gt_Suicide gt))
            else gret (gt_Suicide gt))
          else
            gbind (gget (Exist (BigToAddress a))) (\<lambda>ex.
            gret (if \<not> ex then gt_Suicide gt + CreateBySuicide gt else gt_Suicide gt)))
        else gret 0) (\<lambda>gas.
     gbind (gget (HasSuicided (self (f_contract f)))) (\<lambda>has.
     gbind (if \<not> has then gmod (AddRefund SuicideRefundGas) else gret ()) (\<lambda>_.
     gret gas))))"

definition gasDelegateCall :: "'t gasFunc" where
  "gasDelegateCall gt memorySize =
     gbind (gmemory memorySize) (\<lambda>gas.
     gbind (gcheck (SafeAdd gas (Calls gt))) (\<lambda>gas.
     gcall gt gas))"

definition gasStaticCall :: "'t gasFunc" where
  "gasStaticCall gt memorySize =
     gbind (gmemory memorySize) (\<lambda>gas.
     gbind (gcheck (SafeAdd gas (Calls gt))) (\<lambda>gas.
     gcall gt gas))"

definition gasPush :: "'t gasFunc" where "gasPush gt memorySize = gret GasFastestStep"

definition gasSwap :: "'t gasFunc" where "gasSwap gt memorySize = gret GasFastestStep"

definition gasDup :: "'t gasFunc" where "gasDup gt memorySize = gret GasFastestStep"

end
