(* ===== verification/Instructions.thy ===== *)
theory Instructions
  imports Gas_Table
begin

unbundle bit_operations_syntax

text \<open>
  \<open>src/kernel/vm/instructions.go\<close>: one definition per instruction.

  An execution function gets the interpreter (for the calls), changes the frame and returns the bytes and
  the error of the source. \<open>None\<close> is a panic: an operand that is not on the stack, an index or slice
  out of range, a nil value. Storage reuse through the integer pool leaves no trace in the model. The
  operands of \<open>Div\<close> and \<open>Mod\<close> are never negative here, so Go's Euclidean division is \<open>div\<close> and \<open>mod\<close>.
\<close>

type_synonym 't exec_result = "(call_result \<times> 't frame) option"

type_synonym 't executionFunc = "'t run_fn \<Rightarrow> 't frame \<Rightarrow> 't exec_result"

definition ok :: "'t frame \<Rightarrow> 't exec_result" where
  "ok f = Some ((None, None), f)"

text \<open>Instructions that only replace one, two or three operands by a result, or push one.\<close>

definition stack0 :: "('t frame \<Rightarrow> int) \<Rightarrow> 't frame \<Rightarrow> 't exec_result" where
  "stack0 g f = ok (f\<lparr>f_stack := push (g f) (f_stack f)\<rparr>)"

definition stack1 :: "(int \<Rightarrow> int) \<Rightarrow> 't frame \<Rightarrow> 't exec_result" where
  "stack1 g f = do {
     (x, st) \<leftarrow> pop (f_stack f);
     ok (f\<lparr>f_stack := push (g x) st\<rparr>) }"

definition stack2 :: "(int \<Rightarrow> int \<Rightarrow> int) \<Rightarrow> 't frame \<Rightarrow> 't exec_result" where
  "stack2 g f = do {
     (x, st) \<leftarrow> pop (f_stack f);
     (y, st) \<leftarrow> pop st;
     ok (f\<lparr>f_stack := push (g x y) st\<rparr>) }"

definition stack3 :: "(int \<Rightarrow> int \<Rightarrow> int \<Rightarrow> int) \<Rightarrow> 't frame \<Rightarrow> 't exec_result" where
  "stack3 g f = do {
     (x, st) \<leftarrow> pop (f_stack f);
     (y, st) \<leftarrow> pop st;
     (z, st) \<leftarrow> pop st;
     ok (f\<lparr>f_stack := push (g x y z) st\<rparr>) }"

subsection \<open>Arithmetic and comparison\<close>

definition opAdd :: "'t executionFunc" where "opAdd rn = stack2 (\<lambda>x y. U256 (x + y))"

definition opSub :: "'t executionFunc" where "opSub rn = stack2 (\<lambda>x y. U256 (x - y))"

definition opMul :: "'t executionFunc" where "opMul rn = stack2 (\<lambda>x y. U256 (x * y))"

definition opDiv :: "'t executionFunc" where
  "opDiv rn = stack2 (\<lambda>x y. if y \<noteq> 0 then U256 (x div y) else 0)"

definition opSdiv :: "'t executionFunc" where
  "opSdiv rn = stack2 (\<lambda>a b.
     let x = S256 a; y = S256 b
     in if y = 0 \<or> x = 0 then 0
        else if sgn x \<noteq> sgn y then U256 (- (\<bar>x\<bar> div \<bar>y\<bar>))
        else U256 (\<bar>x\<bar> div \<bar>y\<bar>))"

definition opMod :: "'t executionFunc" where
  "opMod rn = stack2 (\<lambda>x y. if y = 0 then 0 else U256 (x mod y))"

definition opSmod :: "'t executionFunc" where
  "opSmod rn = stack2 (\<lambda>a b.
     let x = S256 a; y = S256 b
     in if y = 0 then 0
        else if x < 0 then U256 (- (\<bar>x\<bar> mod \<bar>y\<bar>))
        else U256 (\<bar>x\<bar> mod \<bar>y\<bar>))"

definition opExp :: "'t executionFunc" where
  "opExp rn = stack2 (\<lambda>base ex.
     if ex < 1 then 1 else if base = 0 then 0 else if ex = 1 then base else Exp base ex)"

definition opSignExtend :: "'t executionFunc" where
  "opSignExtend rn f = do {
     (back, st) \<leftarrow> pop (f_stack f);
     if back < 31 then do {
       let n = unat (Uint64 back * 8 + 7);
       (num, st) \<leftarrow> pop st;
       let mask = push_bit n 1 - 1;
       let r = (if bit num n then num OR NOT mask else num AND mask);
       ok (f\<lparr>f_stack := push (U256 r) st\<rparr>) }
     else ok (f\<lparr>f_stack := st\<rparr>) }"

definition opNot :: "'t executionFunc" where "opNot rn = stack1 (\<lambda>x. U256 (NOT x))"

definition opLt :: "'t executionFunc" where "opLt rn = stack2 (\<lambda>x y. if x < y then 1 else 0)"

definition opGt :: "'t executionFunc" where "opGt rn = stack2 (\<lambda>x y. if x > y then 1 else 0)"

definition opSlt :: "'t executionFunc" where
  "opSlt rn = stack2 (\<lambda>x y.
     if x \<ge> tt255 \<and> y < tt255 then 1
     else if x < tt255 \<and> y \<ge> tt255 then 0
     else if x < y then 1 else 0)"

definition opSgt :: "'t executionFunc" where
  "opSgt rn = stack2 (\<lambda>x y.
     if x \<ge> tt255 \<and> y < tt255 then 0
     else if x < tt255 \<and> y \<ge> tt255 then 1
     else if x > y then 1 else 0)"

definition opEq :: "'t executionFunc" where "opEq rn = stack2 (\<lambda>x y. if x = y then 1 else 0)"

definition opIszero :: "'t executionFunc" where "opIszero rn = stack1 (\<lambda>x. if x > 0 then 0 else 1)"

definition opAnd :: "'t executionFunc" where "opAnd rn = stack2 (\<lambda>x y. x AND y)"

definition opOr :: "'t executionFunc" where "opOr rn = stack2 (\<lambda>x y. x OR y)"

definition opXor :: "'t executionFunc" where "opXor rn = stack2 (\<lambda>x y. x XOR y)"

definition opByte :: "'t executionFunc" where
  "opByte rn = stack2 (\<lambda>th val. if th < 32 then uint (Byte val 32 (nat (Int64 th))) else 0)"

definition opAddmod :: "'t executionFunc" where
  "opAddmod rn = stack3 (\<lambda>x y z. if z > 0 then U256 ((x + y) mod z) else 0)"

definition opMulmod :: "'t executionFunc" where
  "opMulmod rn = stack3 (\<lambda>x y z. if z > 0 then U256 ((x * y) mod z) else 0)"

definition opSHL :: "'t executionFunc" where
  "opSHL rn = stack2 (\<lambda>s v.
     let shift = U256 s; val = U256 v
     in if shift \<ge> 256 then 0 else U256 (push_bit (unat (Uint64 shift)) val))"

definition opSHR :: "'t executionFunc" where
  "opSHR rn = stack2 (\<lambda>s v.
     let shift = U256 s; val = U256 v
     in if shift \<ge> 256 then 0 else U256 (drop_bit (unat (Uint64 shift)) val))"

definition opSAR :: "'t executionFunc" where
  "opSAR rn = stack2 (\<lambda>s v.
     let shift = U256 s; val = S256 v
     in if shift \<ge> 256 then U256 (if val \<ge> 0 then 0 else - 1)
        else U256 (drop_bit (unat (Uint64 shift)) val))"

subsection \<open>Environment\<close>

definition opSha3 :: "'t executionFunc" where
  "opSha3 rn f = do {
     (offset, st) \<leftarrow> pop (f_stack f);
     (sz, st) \<leftarrow> pop st;
     d \<leftarrow> mem_Get (Int64 offset) (Int64 sz) (f_mem f);
     let h = evm_keccak (f_evm f) (sl d);
     let f1 = (if EnablePreimageRecording (vmConfig (f_evm f)) then with_db (AddPreimage h (sl d) (f_db f)) f else f);
     ok (f1\<lparr>f_stack := push (hash_Big h) st\<rparr>) }"

definition opAddress :: "'t executionFunc" where
  "opAddress rn = stack0 (\<lambda>f. addr_Big (self (f_contract f)))"

definition opBalance :: "'t executionFunc" where
  "opBalance rn f = do {
     (slot, st) \<leftarrow> pop (f_stack f);
     let (b, s) = GetBalance (BigToAddress slot) (f_db f);
     ok (with_db s (f\<lparr>f_stack := push b st\<rparr>)) }"

definition opOrigin :: "'t executionFunc" where
  "opOrigin rn = stack0 (\<lambda>f. addr_Big (Origin (evm_Context (f_evm f))))"

definition opCaller :: "'t executionFunc" where
  "opCaller rn = stack0 (\<lambda>f. addr_Big (CallerAddress (f_contract f)))"

definition opCallValue :: "'t executionFunc" where
  "opCallValue rn f = do {
     v \<leftarrow> c_value (f_contract f);
     ok (f\<lparr>f_stack := push v (f_stack f)\<rparr>) }"

definition opCallDataLoad :: "'t executionFunc" where
  "opCallDataLoad rn f = do {
     (i, st) \<leftarrow> pop (f_stack f);
     d \<leftarrow> getDataBig (c_Input (f_contract f)) i 32;
     ok (f\<lparr>f_stack := push (SetBytes d) st\<rparr>) }"

definition opCallDataSize :: "'t executionFunc" where
  "opCallDataSize rn = stack0 (\<lambda>f. int (length (c_Input (f_contract f))))"

text \<open>\<open>memory.Set(memOffset.Uint64(), length.Uint64(), getDataBig(src, dataOffset, length))\<close>.\<close>

definition copy_data :: "bytes \<Rightarrow> int \<Rightarrow> int \<Rightarrow> int \<Rightarrow> 't frame \<Rightarrow> 't exec_result" where
  "copy_data src memOffset dataOffset len f = do {
     d \<leftarrow> getDataBig src dataOffset len;
     m \<leftarrow> mem_Set (Uint64 memOffset) (Uint64 len) d (f_mem f);
     ok (f\<lparr>f_mem := m\<rparr>) }"

definition opCallDataCopy :: "'t executionFunc" where
  "opCallDataCopy rn f = do {
     (memOffset, st) \<leftarrow> pop (f_stack f);
     (dataOffset, st) \<leftarrow> pop st;
     (len, st) \<leftarrow> pop st;
     copy_data (c_Input (f_contract f)) memOffset dataOffset len (f\<lparr>f_stack := st\<rparr>) }"

definition opReturnDataSize :: "'t executionFunc" where
  "opReturnDataSize rn = stack0 (\<lambda>f. int (length (sl (returnData (f_evm f)))))"

definition opReturnDataCopy :: "'t executionFunc" where
  "opReturnDataCopy rn f = do {
     (memOffset, st) \<leftarrow> pop (f_stack f);
     (dataOffset, st) \<leftarrow> pop st;
     (len, st) \<leftarrow> pop st;
     let e = dataOffset + len;
     let f1 = f\<lparr>f_stack := st\<rparr>;
     if BitLen e > 64 \<or> of_nat (length (sl (returnData (f_evm f)))) < Uint64 e
     then Some ((None, Some errReturnDataOutOfBounds), f1)
     else do {
       d \<leftarrow> slice (sl (returnData (f_evm f))) (unat (Uint64 dataOffset)) (unat (Uint64 e));
       m \<leftarrow> mem_Set (Uint64 memOffset) (Uint64 len) d (f_mem f);
       ok (f1\<lparr>f_mem := m\<rparr>) } }"

definition opExtCodeSize :: "'t executionFunc" where
  "opExtCodeSize rn f = do {
     (slot, st) \<leftarrow> pop (f_stack f);
     let (n, s) = GetCodeSize (BigToAddress slot) (f_db f);
     ok (with_db s (f\<lparr>f_stack := push (uint (word_of_int n :: u64)) st\<rparr>)) }"

definition opCodeSize :: "'t executionFunc" where
  "opCodeSize rn = stack0 (\<lambda>f. int (length (c_Code (f_contract f))))"

definition opCodeCopy :: "'t executionFunc" where
  "opCodeCopy rn f = do {
     (memOffset, st) \<leftarrow> pop (f_stack f);
     (codeOffset, st) \<leftarrow> pop st;
     (len, st) \<leftarrow> pop st;
     copy_data (c_Code (f_contract f)) memOffset codeOffset len (f\<lparr>f_stack := st\<rparr>) }"

definition opExtCodeCopy :: "'t executionFunc" where
  "opExtCodeCopy rn f = do {
     (a, st) \<leftarrow> pop (f_stack f);
     (memOffset, st) \<leftarrow> pop st;
     (codeOffset, st) \<leftarrow> pop st;
     (len, st) \<leftarrow> pop st;
     let (code, s) = GetCode (BigToAddress a) (f_db f);
     copy_data (sl code) memOffset codeOffset len (with_db s (f\<lparr>f_stack := st\<rparr>)) }"

definition opExtCodeHash :: "'t executionFunc" where
  "opExtCodeHash rn f = do {
     (slot, st) \<leftarrow> pop (f_stack f);
     let addr = BigToAddress slot;
     let (emp, s) = Empty addr (f_db f);
     if emp then ok (with_db s (f\<lparr>f_stack := push 0 st\<rparr>))
     else do {
       let (h, s) = GetCodeHash addr s;
       ok (with_db s (f\<lparr>f_stack := push (hash_Big h) st\<rparr>)) } }"

definition opGasprice :: "'t executionFunc" where
  "opGasprice rn = stack0 (\<lambda>f. GasPrice (evm_Context (f_evm f)))"

definition opBlockhash :: "'t executionFunc" where
  "opBlockhash rn f = do {
     (num, st) \<leftarrow> pop (f_stack f);
     let n = BlockNumber (evm_Context (f_evm f)) - 257;
     ok (f\<lparr>f_stack := push (if num > n \<and> num < BlockNumber (evm_Context (f_evm f))
                            then hash_Big (GetHash (evm_Context (f_evm f)) (Uint64 num)) else 0) st\<rparr>) }"

definition opCoinbase :: "'t executionFunc" where
  "opCoinbase rn = stack0 (\<lambda>f. addr_Big (Coinbase (evm_Context (f_evm f))))"

definition opTimestamp :: "'t executionFunc" where
  "opTimestamp rn = stack0 (\<lambda>f. U256 (ctx_Time (evm_Context (f_evm f))))"

definition opNumber :: "'t executionFunc" where
  "opNumber rn = stack0 (\<lambda>f. U256 (BlockNumber (evm_Context (f_evm f))))"

definition opDifficulty :: "'t executionFunc" where
  "opDifficulty rn = stack0 (\<lambda>f. U256 (Difficulty (evm_Context (f_evm f))))"

definition opGasLimit :: "'t executionFunc" where
  "opGasLimit rn = stack0 (\<lambda>f. U256 (uint (GasLimit (evm_Context (f_evm f)))))"

subsection \<open>Stack, memory, storage, jumps\<close>

definition opPop :: "'t executionFunc" where
  "opPop rn f = do { (x, st) \<leftarrow> pop (f_stack f); ok (f\<lparr>f_stack := st\<rparr>) }"

definition opMload :: "'t executionFunc" where
  "opMload rn f = do {
     (offset, st) \<leftarrow> pop (f_stack f);
     d \<leftarrow> mem_Get (Int64 offset) 32 (f_mem f);
     ok (f\<lparr>f_stack := push (SetBytes (sl d)) st\<rparr>) }"

definition opMstore :: "'t executionFunc" where
  "opMstore rn f = do {
     (mStart, st) \<leftarrow> pop (f_stack f);
     (val, st) \<leftarrow> pop st;
     m \<leftarrow> mem_Set32 (Uint64 mStart) val (f_mem f);
     ok (f\<lparr>f_stack := st, f_mem := m\<rparr>) }"

definition opMstore8 :: "'t executionFunc" where
  "opMstore8 rn f = do {
     (o1, st) \<leftarrow> pop (f_stack f);
     (v1, st) \<leftarrow> pop st;
     let off = Int64 o1;
     let val = Int64 v1;
     if 0 \<le> off \<and> off < int (mem_Len (f_mem f))
     then ok (f\<lparr>f_stack := st, f_mem := (f_mem f)\<lparr>store := (store (f_mem f))[nat off := word_of_int (val AND 0xff)]\<rparr>\<rparr>)
     else None }"

definition opSload :: "'t executionFunc" where
  "opSload rn f = do {
     (loc, st) \<leftarrow> pop (f_stack f);
     (val, s) \<leftarrow> GetState (self (f_contract f)) (BigToHash loc) (f_db f);
     ok (with_db s (f\<lparr>f_stack := push (hash_Big val) st\<rparr>)) }"

definition opSstore :: "'t executionFunc" where
  "opSstore rn f = do {
     (loc, st) \<leftarrow> pop (f_stack f);
     (val, st) \<leftarrow> pop st;
     s \<leftarrow> SetState (self (f_contract f)) (BigToHash loc) (BigToHash val) (f_db f);
     ok (with_db s (f\<lparr>f_stack := st\<rparr>)) }"

text \<open>\<open>contract.validJumpdest\<close> with the contract and the shared bitmaps written back.\<close>

definition jump_to :: "int \<Rightarrow> 't frame \<Rightarrow> 't exec_result" where
  "jump_to pos f = do {
     (valid, c, jd) \<leftarrow> validJumpdest pos (f_contract f) (jumpdests (f_evm f));
     let f1 = f\<lparr>f_contract := c, f_evm := (f_evm f)\<lparr>jumpdests := jd\<rparr>\<rparr>;
     if \<not> valid then Some ((None, Some (errInvalidJump (GetOp c (Uint64 pos)) pos)), f1)
     else ok (f1\<lparr>f_pc := Uint64 pos\<rparr>) }"

definition opJump :: "'t executionFunc" where
  "opJump rn f = do {
     (pos, st) \<leftarrow> pop (f_stack f);
     jump_to pos (f\<lparr>f_stack := st\<rparr>) }"

definition opJumpi :: "'t executionFunc" where
  "opJumpi rn f = do {
     (pos, st) \<leftarrow> pop (f_stack f);
     (cond, st) \<leftarrow> pop st;
     if cond \<noteq> 0 then jump_to pos (f\<lparr>f_stack := st\<rparr>)
     else ok (f\<lparr>f_stack := st, f_pc := f_pc f + 1\<rparr>) }"

definition opJumpdest :: "'t executionFunc" where "opJumpdest rn = ok"

definition opPc :: "'t executionFunc" where "opPc rn = stack0 (\<lambda>f. uint (f_pc f))"

definition opMsize :: "'t executionFunc" where "opMsize rn = stack0 (\<lambda>f. int (mem_Len (f_mem f)))"

definition opGas :: "'t executionFunc" where "opGas rn = stack0 (\<lambda>f. uint (c_Gas (f_contract f)))"

subsection \<open>Calls and creation\<close>

definition use_gas :: "u64 \<Rightarrow> 't frame \<Rightarrow> 't frame" where
  "use_gas g f = f\<lparr>f_contract := snd (UseGas g (f_contract f))\<rparr>"

definition add_gas :: "u64 \<Rightarrow> 't frame \<Rightarrow> 't frame" where
  "add_gas g f = f\<lparr>f_contract := (f_contract f)\<lparr>c_Gas := c_Gas (f_contract f) + g\<rparr>\<rparr>"

definition opCreate :: "'t executionFunc" where
  "opCreate rn f = do {
     (v, st) \<leftarrow> pop (f_stack f);
     (offset, st) \<leftarrow> pop st;
     (sz, st) \<leftarrow> pop st;
     input \<leftarrow> mem_Get (Int64 offset) (Int64 sz) (f_mem f);
     let g = c_Gas (f_contract f);
     let gas = (if IsEIP150 (chainConfig (f_evm f)) (blockNum (f_evm f)) then g - g div 64 else g);
     let f1 = use_gas gas f;
     ((res, addr, returnGas, suberr), evm) \<leftarrow> Create rn (OfContract (f_contract f1)) (sl input) gas v (f_evm f1);
     let r = (if IsHomestead (chainConfig evm) (blockNum evm) \<and> suberr = Some ErrCodeStoreOutOfGas then 0
              else if suberr \<noteq> None \<and> suberr \<noteq> Some ErrCodeStoreOutOfGas then 0
              else addr_Big addr);
     Some ((if suberr = Some errExecutionReverted then res else None, None),
           add_gas returnGas (f1\<lparr>f_stack := push r st, f_evm := evm\<rparr>)) }"

definition opCreate2 :: "'t executionFunc" where
  "opCreate2 rn f = do {
     (endowment, st) \<leftarrow> pop (f_stack f);
     (offset, st) \<leftarrow> pop st;
     (sz, st) \<leftarrow> pop st;
     (salt, st) \<leftarrow> pop st;
     input \<leftarrow> mem_Get (Int64 offset) (Int64 sz) (f_mem f);
     let g = c_Gas (f_contract f);
     let gas = g - g div 64;
     let f1 = use_gas gas f;
     ((res, addr, returnGas, suberr), evm) \<leftarrow>
       Create2 rn (OfContract (f_contract f1)) (sl input) gas endowment salt (f_evm f1);
     let r = (if suberr \<noteq> None then 0 else addr_Big addr);
     Some ((if suberr = Some errExecutionReverted then res else None, None),
           add_gas returnGas (f1\<lparr>f_stack := push r st, f_evm := evm\<rparr>)) }"

text \<open>The end of the four call instructions.\<close>

definition finish_call ::
  "int \<Rightarrow> int \<Rightarrow> Stack \<Rightarrow> 't frame \<Rightarrow> (gobytes \<times> u64 \<times> vm_error option) \<times> 't EVM \<Rightarrow> 't exec_result" where
  "finish_call retOffset retSize st f r = do {
     let ((ret, returnGas, err), evm) = r;
     m \<leftarrow> (if err = None \<or> err = Some errExecutionReverted
           then mem_Set (Uint64 retOffset) (Uint64 retSize) (sl ret) (f_mem f) else Some (f_mem f));
     Some ((ret, None),
           add_gas returnGas (f\<lparr>f_stack := push (if err \<noteq> None then 0 else 1) st, f_mem := m, f_evm := evm\<rparr>)) }"

definition opCall :: "'t executionFunc" where
  "opCall rn f = do {
     (_, st) \<leftarrow> pop (f_stack f);
     let gas = callGasTemp (f_evm f);
     (a, st) \<leftarrow> pop st;
     (v, st) \<leftarrow> pop st;
     (inOffset, st) \<leftarrow> pop st;
     (inSize, st) \<leftarrow> pop st;
     (retOffset, st) \<leftarrow> pop st;
     (retSize, st) \<leftarrow> pop st;
     let toAddr = BigToAddress a;
     let v = U256 v;
     args \<leftarrow> mem_Get (Int64 inOffset) (Int64 inSize) (f_mem f);
     let gas = (if v \<noteq> 0 then gas + CallStipend else gas);
     r \<leftarrow> Call rn (OfContract (f_contract f)) toAddr args gas v (f_evm f);
     finish_call retOffset retSize st f r }"

definition opCallCode :: "'t executionFunc" where
  "opCallCode rn f = do {
     (_, st) \<leftarrow> pop (f_stack f);
     let gas = callGasTemp (f_evm f);
     (a, st) \<leftarrow> pop st;
     (v, st) \<leftarrow> pop st;
     (inOffset, st) \<leftarrow> pop st;
     (inSize, st) \<leftarrow> pop st;
     (retOffset, st) \<leftarrow> pop st;
     (retSize, st) \<leftarrow> pop st;
     let toAddr = BigToAddress a;
     let v = U256 v;
     args \<leftarrow> mem_Get (Int64 inOffset) (Int64 inSize) (f_mem f);
     let gas = (if v \<noteq> 0 then gas + CallStipend else gas);
     r \<leftarrow> CallCode rn (OfContract (f_contract f)) toAddr args gas v (f_evm f);
     finish_call retOffset retSize st f r }"

definition opDelegateCall :: "'t executionFunc" where
  "opDelegateCall rn f = do {
     (_, st) \<leftarrow> pop (f_stack f);
     let gas = callGasTemp (f_evm f);
     (a, st) \<leftarrow> pop st;
     (inOffset, st) \<leftarrow> pop st;
     (inSize, st) \<leftarrow> pop st;
     (retOffset, st) \<leftarrow> pop st;
     (retSize, st) \<leftarrow> pop st;
     let toAddr = BigToAddress a;
     args \<leftarrow> mem_Get (Int64 inOffset) (Int64 inSize) (f_mem f);
     r \<leftarrow> DelegateCall rn (OfContract (f_contract f)) toAddr args gas (f_evm f);
     finish_call retOffset retSize st f r }"

definition opStaticCall :: "'t executionFunc" where
  "opStaticCall rn f = do {
     (_, st) \<leftarrow> pop (f_stack f);
     let gas = callGasTemp (f_evm f);
     (a, st) \<leftarrow> pop st;
     (inOffset, st) \<leftarrow> pop st;
     (inSize, st) \<leftarrow> pop st;
     (retOffset, st) \<leftarrow> pop st;
     (retSize, st) \<leftarrow> pop st;
     let toAddr = BigToAddress a;
     args \<leftarrow> mem_Get (Int64 inOffset) (Int64 inSize) (f_mem f);
     r \<leftarrow> StaticCall rn (OfContract (f_contract f)) toAddr args gas (f_evm f);
     finish_call retOffset retSize st f r }"

definition opReturn :: "'t executionFunc" where
  "opReturn rn f = do {
     (offset, st) \<leftarrow> pop (f_stack f);
     (sz, st) \<leftarrow> pop st;
     ret \<leftarrow> GetPtr (Int64 offset) (Int64 sz) (f_mem f);
     Some ((ret, None), f\<lparr>f_stack := st\<rparr>) }"

definition opRevert :: "'t executionFunc" where
  "opRevert rn f = do {
     (offset, st) \<leftarrow> pop (f_stack f);
     (sz, st) \<leftarrow> pop st;
     ret \<leftarrow> GetPtr (Int64 offset) (Int64 sz) (f_mem f);
     Some ((ret, None), f\<lparr>f_stack := st\<rparr>) }"

definition opStop :: "'t executionFunc" where "opStop rn = ok"

definition opSuicide :: "'t executionFunc" where
  "opSuicide rn f = do {
     let addr = self (f_contract f);
     let (balance, s1) = GetBalance addr (f_db f);
     (b, st) \<leftarrow> pop (f_stack f);
     let s2 = AddBalance (BigToAddress b) balance s1;
     let (_, s3) = Suicide addr s2;
     ok (with_db s3 (f\<lparr>f_stack := st\<rparr>)) }"

subsection \<open>Parametrised instructions\<close>

fun pop_topics :: "nat \<Rightarrow> Stack \<Rightarrow> (hash list \<times> Stack) option" where
  "pop_topics 0 st = Some ([], st)"
| "pop_topics (Suc n) st = do {
     (x, st) \<leftarrow> pop st;
     (hs, st) \<leftarrow> pop_topics n st;
     Some (BigToHash x # hs, st) }"

definition makeLog :: "nat \<Rightarrow> 't executionFunc" where
  "makeLog n rn f = do {
     (mStart, st) \<leftarrow> pop (f_stack f);
     (mSize, st) \<leftarrow> pop st;
     (topics, st) \<leftarrow> pop_topics n st;
     d \<leftarrow> mem_Get (Int64 mStart) (Int64 mSize) (f_mem f);
     let log = \<lparr>log_Address = self (f_contract f), log_Topics = topics, log_Data = sl d,
                log_BlockNumber = Uint64 (BlockNumber (evm_Context (f_evm f))),
                log_TxHash = 0, log_TxIndex = 0, log_BlockHash = 0, log_Index = 0, log_Removed = False\<rparr>;
     ok (with_db (AddLog log (f_db f)) (f\<lparr>f_stack := st\<rparr>)) }"

definition makePush :: "u64 \<Rightarrow> nat \<Rightarrow> 't executionFunc" where
  "makePush sz pushByteSize rn f = do {
     let code = c_Code (f_contract f);
     let codeLen = int (length code);
     let startMin = (if sint (f_pc f + 1) < codeLen then sint (f_pc f + 1) else codeLen);
     let endMin = (if startMin + int pushByteSize < codeLen then startMin + int pushByteSize else codeLen);
     d \<leftarrow> (if startMin < 0 then None else slice code (nat startMin) (nat endMin));
     d \<leftarrow> RightPadBytes d (int pushByteSize);
     ok (f\<lparr>f_stack := push (SetBytes d) (f_stack f), f_pc := f_pc f + sz\<rparr>) }"

definition makeDup :: "nat \<Rightarrow> 't executionFunc" where
  "makeDup n rn f = do { st \<leftarrow> dup n (f_stack f); ok (f\<lparr>f_stack := st\<rparr>) }"

definition makeSwap :: "nat \<Rightarrow> 't executionFunc" where
  "makeSwap n rn f = do { st \<leftarrow> swap (n + 1) (f_stack f); ok (f\<lparr>f_stack := st\<rparr>) }"

end
