(* ===== verification/Opcodes.thy ===== *)
theory Opcodes
  imports Instructions
begin

text \<open>
  \<open>src/kernel/vm/opcodes.go\<close>: the instruction bytes and the two tables between bytes and mnemonics.
  The names \<open>AND\<close>, \<open>OR\<close>, \<open>XOR\<close> and \<open>NOT\<close> of the source are operators of the logic and carry a prefix.
\<close>

abbreviation STOP :: byte where "STOP \<equiv> 0x0"
abbreviation ADD :: byte where "ADD \<equiv> 0x1"
abbreviation MUL :: byte where "MUL \<equiv> 0x2"
abbreviation SUB :: byte where "SUB \<equiv> 0x3"
abbreviation DIV :: byte where "DIV \<equiv> 0x4"
abbreviation SDIV :: byte where "SDIV \<equiv> 0x5"
abbreviation MOD :: byte where "MOD \<equiv> 0x6"
abbreviation SMOD :: byte where "SMOD \<equiv> 0x7"
abbreviation ADDMOD :: byte where "ADDMOD \<equiv> 0x8"
abbreviation MULMOD :: byte where "MULMOD \<equiv> 0x9"
abbreviation EXP :: byte where "EXP \<equiv> 0xa"
abbreviation SIGNEXTEND :: byte where "SIGNEXTEND \<equiv> 0xb"
abbreviation LT :: byte where "LT \<equiv> 0x10"
abbreviation GT :: byte where "GT \<equiv> 0x11"
abbreviation SLT :: byte where "SLT \<equiv> 0x12"
abbreviation SGT :: byte where "SGT \<equiv> 0x13"
abbreviation EQ :: byte where "EQ \<equiv> 0x14"
abbreviation ISZERO :: byte where "ISZERO \<equiv> 0x15"
abbreviation op_AND :: byte where "op_AND \<equiv> 0x16"
abbreviation op_OR :: byte where "op_OR \<equiv> 0x17"
abbreviation op_XOR :: byte where "op_XOR \<equiv> 0x18"
abbreviation op_NOT :: byte where "op_NOT \<equiv> 0x19"
abbreviation BYTE :: byte where "BYTE \<equiv> 0x1a"
abbreviation SHL :: byte where "SHL \<equiv> 0x1b"
abbreviation SHR :: byte where "SHR \<equiv> 0x1c"
abbreviation SAR :: byte where "SAR \<equiv> 0x1d"
abbreviation SHA3 :: byte where "SHA3 \<equiv> 0x20"
abbreviation ADDRESS :: byte where "ADDRESS \<equiv> 0x30"
abbreviation BALANCE :: byte where "BALANCE \<equiv> 0x31"
abbreviation ORIGIN :: byte where "ORIGIN \<equiv> 0x32"
abbreviation CALLER :: byte where "CALLER \<equiv> 0x33"
abbreviation CALLVALUE :: byte where "CALLVALUE \<equiv> 0x34"
abbreviation CALLDATALOAD :: byte where "CALLDATALOAD \<equiv> 0x35"
abbreviation CALLDATASIZE :: byte where "CALLDATASIZE \<equiv> 0x36"
abbreviation CALLDATACOPY :: byte where "CALLDATACOPY \<equiv> 0x37"
abbreviation CODESIZE :: byte where "CODESIZE \<equiv> 0x38"
abbreviation CODECOPY :: byte where "CODECOPY \<equiv> 0x39"
abbreviation GASPRICE :: byte where "GASPRICE \<equiv> 0x3a"
abbreviation EXTCODESIZE :: byte where "EXTCODESIZE \<equiv> 0x3b"
abbreviation EXTCODECOPY :: byte where "EXTCODECOPY \<equiv> 0x3c"
abbreviation RETURNDATASIZE :: byte where "RETURNDATASIZE \<equiv> 0x3d"
abbreviation RETURNDATACOPY :: byte where "RETURNDATACOPY \<equiv> 0x3e"
abbreviation EXTCODEHASH :: byte where "EXTCODEHASH \<equiv> 0x3f"
abbreviation BLOCKHASH :: byte where "BLOCKHASH \<equiv> 0x40"
abbreviation COINBASE :: byte where "COINBASE \<equiv> 0x41"
abbreviation TIMESTAMP :: byte where "TIMESTAMP \<equiv> 0x42"
abbreviation NUMBER :: byte where "NUMBER \<equiv> 0x43"
abbreviation DIFFICULTY :: byte where "DIFFICULTY \<equiv> 0x44"
abbreviation GASLIMIT :: byte where "GASLIMIT \<equiv> 0x45"
abbreviation POP :: byte where "POP \<equiv> 0x50"
abbreviation MLOAD :: byte where "MLOAD \<equiv> 0x51"
abbreviation MSTORE :: byte where "MSTORE \<equiv> 0x52"
abbreviation MSTORE8 :: byte where "MSTORE8 \<equiv> 0x53"
abbreviation SLOAD :: byte where "SLOAD \<equiv> 0x54"
abbreviation SSTORE :: byte where "SSTORE \<equiv> 0x55"
abbreviation JUMP :: byte where "JUMP \<equiv> 0x56"
abbreviation JUMPI :: byte where "JUMPI \<equiv> 0x57"
abbreviation PC :: byte where "PC \<equiv> 0x58"
abbreviation MSIZE :: byte where "MSIZE \<equiv> 0x59"
abbreviation GAS :: byte where "GAS \<equiv> 0x5a"
abbreviation PUSH2 :: byte where "PUSH2 \<equiv> 0x61"
abbreviation PUSH3 :: byte where "PUSH3 \<equiv> 0x62"
abbreviation PUSH4 :: byte where "PUSH4 \<equiv> 0x63"
abbreviation PUSH5 :: byte where "PUSH5 \<equiv> 0x64"
abbreviation PUSH6 :: byte where "PUSH6 \<equiv> 0x65"
abbreviation PUSH7 :: byte where "PUSH7 \<equiv> 0x66"
abbreviation PUSH8 :: byte where "PUSH8 \<equiv> 0x67"
abbreviation PUSH9 :: byte where "PUSH9 \<equiv> 0x68"
abbreviation PUSH10 :: byte where "PUSH10 \<equiv> 0x69"
abbreviation PUSH11 :: byte where "PUSH11 \<equiv> 0x6a"
abbreviation PUSH12 :: byte where "PUSH12 \<equiv> 0x6b"
abbreviation PUSH13 :: byte where "PUSH13 \<equiv> 0x6c"
abbreviation PUSH14 :: byte where "PUSH14 \<equiv> 0x6d"
abbreviation PUSH15 :: byte where "PUSH15 \<equiv> 0x6e"
abbreviation PUSH16 :: byte where "PUSH16 \<equiv> 0x6f"
abbreviation PUSH17 :: byte where "PUSH17 \<equiv> 0x70"
abbreviation PUSH18 :: byte where "PUSH18 \<equiv> 0x71"
abbreviation PUSH19 :: byte where "PUSH19 \<equiv> 0x72"
abbreviation PUSH20 :: byte where "PUSH20 \<equiv> 0x73"
abbreviation PUSH21 :: byte where "PUSH21 \<equiv> 0x74"
abbreviation PUSH22 :: byte where "PUSH22 \<equiv> 0x75"
abbreviation PUSH23 :: byte where "PUSH23 \<equiv> 0x76"
abbreviation PUSH24 :: byte where "PUSH24 \<equiv> 0x77"
abbreviation PUSH25 :: byte where "PUSH25 \<equiv> 0x78"
abbreviation PUSH26 :: byte where "PUSH26 \<equiv> 0x79"
abbreviation PUSH27 :: byte where "PUSH27 \<equiv> 0x7a"
abbreviation PUSH28 :: byte where "PUSH28 \<equiv> 0x7b"
abbreviation PUSH29 :: byte where "PUSH29 \<equiv> 0x7c"
abbreviation PUSH30 :: byte where "PUSH30 \<equiv> 0x7d"
abbreviation PUSH31 :: byte where "PUSH31 \<equiv> 0x7e"
abbreviation DUP1 :: byte where "DUP1 \<equiv> 0x80"
abbreviation DUP2 :: byte where "DUP2 \<equiv> 0x81"
abbreviation DUP3 :: byte where "DUP3 \<equiv> 0x82"
abbreviation DUP4 :: byte where "DUP4 \<equiv> 0x83"
abbreviation DUP5 :: byte where "DUP5 \<equiv> 0x84"
abbreviation DUP6 :: byte where "DUP6 \<equiv> 0x85"
abbreviation DUP7 :: byte where "DUP7 \<equiv> 0x86"
abbreviation DUP8 :: byte where "DUP8 \<equiv> 0x87"
abbreviation DUP9 :: byte where "DUP9 \<equiv> 0x88"
abbreviation DUP10 :: byte where "DUP10 \<equiv> 0x89"
abbreviation DUP11 :: byte where "DUP11 \<equiv> 0x8a"
abbreviation DUP12 :: byte where "DUP12 \<equiv> 0x8b"
abbreviation DUP13 :: byte where "DUP13 \<equiv> 0x8c"
abbreviation DUP14 :: byte where "DUP14 \<equiv> 0x8d"
abbreviation DUP15 :: byte where "DUP15 \<equiv> 0x8e"
abbreviation DUP16 :: byte where "DUP16 \<equiv> 0x8f"
abbreviation SWAP1 :: byte where "SWAP1 \<equiv> 0x90"
abbreviation SWAP2 :: byte where "SWAP2 \<equiv> 0x91"
abbreviation SWAP3 :: byte where "SWAP3 \<equiv> 0x92"
abbreviation SWAP4 :: byte where "SWAP4 \<equiv> 0x93"
abbreviation SWAP5 :: byte where "SWAP5 \<equiv> 0x94"
abbreviation SWAP6 :: byte where "SWAP6 \<equiv> 0x95"
abbreviation SWAP7 :: byte where "SWAP7 \<equiv> 0x96"
abbreviation SWAP8 :: byte where "SWAP8 \<equiv> 0x97"
abbreviation SWAP9 :: byte where "SWAP9 \<equiv> 0x98"
abbreviation SWAP10 :: byte where "SWAP10 \<equiv> 0x99"
abbreviation SWAP11 :: byte where "SWAP11 \<equiv> 0x9a"
abbreviation SWAP12 :: byte where "SWAP12 \<equiv> 0x9b"
abbreviation SWAP13 :: byte where "SWAP13 \<equiv> 0x9c"
abbreviation SWAP14 :: byte where "SWAP14 \<equiv> 0x9d"
abbreviation SWAP15 :: byte where "SWAP15 \<equiv> 0x9e"
abbreviation SWAP16 :: byte where "SWAP16 \<equiv> 0x9f"
abbreviation LOG0 :: byte where "LOG0 \<equiv> 0xa0"
abbreviation LOG1 :: byte where "LOG1 \<equiv> 0xa1"
abbreviation LOG2 :: byte where "LOG2 \<equiv> 0xa2"
abbreviation LOG3 :: byte where "LOG3 \<equiv> 0xa3"
abbreviation LOG4 :: byte where "LOG4 \<equiv> 0xa4"
abbreviation PUSH :: byte where "PUSH \<equiv> 0xb0"
abbreviation DUP :: byte where "DUP \<equiv> 0xb1"
abbreviation SWAP :: byte where "SWAP \<equiv> 0xb2"
abbreviation CREATE :: byte where "CREATE \<equiv> 0xf0"
abbreviation CALLCODE :: byte where "CALLCODE \<equiv> 0xf2"
abbreviation RETURN :: byte where "RETURN \<equiv> 0xf3"
abbreviation DELEGATECALL :: byte where "DELEGATECALL \<equiv> 0xf4"
abbreviation CREATE2 :: byte where "CREATE2 \<equiv> 0xf5"
abbreviation STATICCALL :: byte where "STATICCALL \<equiv> 0xfa"
abbreviation REVERT :: byte where "REVERT \<equiv> 0xfd"
abbreviation SELFDESTRUCT :: byte where "SELFDESTRUCT \<equiv> 0xff"

definition IsPush :: "byte \<Rightarrow> bool" where
  "IsPush op = (op \<in> set [PUSH1, PUSH2, PUSH3, PUSH4, PUSH5, PUSH6, PUSH7, PUSH8, PUSH9, PUSH10, PUSH11, PUSH12, PUSH13, PUSH14, PUSH15, PUSH16, PUSH17, PUSH18, PUSH19, PUSH20, PUSH21, PUSH22, PUSH23, PUSH24, PUSH25, PUSH26, PUSH27, PUSH28, PUSH29, PUSH30, PUSH31, PUSH32])"

definition IsStaticJump :: "byte \<Rightarrow> bool" where
  "IsStaticJump op = (op = JUMP)"

definition opCodeToString :: "(byte \<times> string) list" where
  "opCodeToString = [
    (STOP, ''STOP''), (ADD, ''ADD''), (MUL, ''MUL''), (SUB, ''SUB''), (DIV, ''DIV''),
    (SDIV, ''SDIV''), (MOD, ''MOD''), (SMOD, ''SMOD''), (EXP, ''EXP''), (op_NOT, ''NOT''),
    (LT, ''LT''), (GT, ''GT''), (SLT, ''SLT''), (SGT, ''SGT''), (EQ, ''EQ''),
    (ISZERO, ''ISZERO''), (SIGNEXTEND, ''SIGNEXTEND''), (op_AND, ''AND''), (op_OR, ''OR''), (op_XOR, ''XOR''),
    (BYTE, ''BYTE''), (SHL, ''SHL''), (SHR, ''SHR''), (SAR, ''SAR''), (ADDMOD, ''ADDMOD''),
    (MULMOD, ''MULMOD''), (SHA3, ''SHA3''), (ADDRESS, ''ADDRESS''), (BALANCE, ''BALANCE''), (ORIGIN, ''ORIGIN''),
    (CALLER, ''CALLER''), (CALLVALUE, ''CALLVALUE''), (CALLDATALOAD, ''CALLDATALOAD''), (CALLDATASIZE, ''CALLDATASIZE''), (CALLDATACOPY, ''CALLDATACOPY''),
    (CODESIZE, ''CODESIZE''), (CODECOPY, ''CODECOPY''), (GASPRICE, ''GASPRICE''), (EXTCODESIZE, ''EXTCODESIZE''), (EXTCODECOPY, ''EXTCODECOPY''),
    (RETURNDATASIZE, ''RETURNDATASIZE''), (RETURNDATACOPY, ''RETURNDATACOPY''), (EXTCODEHASH, ''EXTCODEHASH''), (BLOCKHASH, ''BLOCKHASH''), (COINBASE, ''COINBASE''),
    (TIMESTAMP, ''TIMESTAMP''), (NUMBER, ''NUMBER''), (DIFFICULTY, ''DIFFICULTY''), (GASLIMIT, ''GASLIMIT''), (POP, ''POP''),
    (MLOAD, ''MLOAD''), (MSTORE, ''MSTORE''), (MSTORE8, ''MSTORE8''), (SLOAD, ''SLOAD''), (SSTORE, ''SSTORE''),
    (JUMP, ''JUMP''), (JUMPI, ''JUMPI''), (PC, ''PC''), (MSIZE, ''MSIZE''), (GAS, ''GAS''),
    (JUMPDEST, ''JUMPDEST''), (PUSH1, ''PUSH1''), (PUSH2, ''PUSH2''), (PUSH3, ''PUSH3''), (PUSH4, ''PUSH4''),
    (PUSH5, ''PUSH5''), (PUSH6, ''PUSH6''), (PUSH7, ''PUSH7''), (PUSH8, ''PUSH8''), (PUSH9, ''PUSH9''),
    (PUSH10, ''PUSH10''), (PUSH11, ''PUSH11''), (PUSH12, ''PUSH12''), (PUSH13, ''PUSH13''), (PUSH14, ''PUSH14''),
    (PUSH15, ''PUSH15''), (PUSH16, ''PUSH16''), (PUSH17, ''PUSH17''), (PUSH18, ''PUSH18''), (PUSH19, ''PUSH19''),
    (PUSH20, ''PUSH20''), (PUSH21, ''PUSH21''), (PUSH22, ''PUSH22''), (PUSH23, ''PUSH23''), (PUSH24, ''PUSH24''),
    (PUSH25, ''PUSH25''), (PUSH26, ''PUSH26''), (PUSH27, ''PUSH27''), (PUSH28, ''PUSH28''), (PUSH29, ''PUSH29''),
    (PUSH30, ''PUSH30''), (PUSH31, ''PUSH31''), (PUSH32, ''PUSH32''), (DUP1, ''DUP1''), (DUP2, ''DUP2''),
    (DUP3, ''DUP3''), (DUP4, ''DUP4''), (DUP5, ''DUP5''), (DUP6, ''DUP6''), (DUP7, ''DUP7''),
    (DUP8, ''DUP8''), (DUP9, ''DUP9''), (DUP10, ''DUP10''), (DUP11, ''DUP11''), (DUP12, ''DUP12''),
    (DUP13, ''DUP13''), (DUP14, ''DUP14''), (DUP15, ''DUP15''), (DUP16, ''DUP16''), (SWAP1, ''SWAP1''),
    (SWAP2, ''SWAP2''), (SWAP3, ''SWAP3''), (SWAP4, ''SWAP4''), (SWAP5, ''SWAP5''), (SWAP6, ''SWAP6''),
    (SWAP7, ''SWAP7''), (SWAP8, ''SWAP8''), (SWAP9, ''SWAP9''), (SWAP10, ''SWAP10''), (SWAP11, ''SWAP11''),
    (SWAP12, ''SWAP12''), (SWAP13, ''SWAP13''), (SWAP14, ''SWAP14''), (SWAP15, ''SWAP15''), (SWAP16, ''SWAP16''),
    (LOG0, ''LOG0''), (LOG1, ''LOG1''), (LOG2, ''LOG2''), (LOG3, ''LOG3''), (LOG4, ''LOG4''),
    (CREATE, ''CREATE''), (CALL, ''CALL''), (RETURN, ''RETURN''), (CALLCODE, ''CALLCODE''), (DELEGATECALL, ''DELEGATECALL''),
    (CREATE2, ''CREATE2''), (STATICCALL, ''STATICCALL''), (REVERT, ''REVERT''), (SELFDESTRUCT, ''SELFDESTRUCT''), (PUSH, ''PUSH''),
    (DUP, ''DUP''), (SWAP, ''SWAP'')]"

definition stringToOp :: "(string \<times> byte) list" where
  "stringToOp = [
    (''STOP'', STOP), (''ADD'', ADD), (''MUL'', MUL), (''SUB'', SUB), (''DIV'', DIV),
    (''SDIV'', SDIV), (''MOD'', MOD), (''SMOD'', SMOD), (''EXP'', EXP), (''NOT'', op_NOT),
    (''LT'', LT), (''GT'', GT), (''SLT'', SLT), (''SGT'', SGT), (''EQ'', EQ),
    (''ISZERO'', ISZERO), (''SIGNEXTEND'', SIGNEXTEND), (''AND'', op_AND), (''OR'', op_OR), (''XOR'', op_XOR),
    (''BYTE'', BYTE), (''SHL'', SHL), (''SHR'', SHR), (''SAR'', SAR), (''ADDMOD'', ADDMOD),
    (''MULMOD'', MULMOD), (''SHA3'', SHA3), (''ADDRESS'', ADDRESS), (''BALANCE'', BALANCE), (''ORIGIN'', ORIGIN),
    (''CALLER'', CALLER), (''CALLVALUE'', CALLVALUE), (''CALLDATALOAD'', CALLDATALOAD), (''CALLDATASIZE'', CALLDATASIZE), (''CALLDATACOPY'', CALLDATACOPY),
    (''DELEGATECALL'', DELEGATECALL), (''STATICCALL'', STATICCALL), (''CODESIZE'', CODESIZE), (''CODECOPY'', CODECOPY), (''GASPRICE'', GASPRICE),
    (''EXTCODESIZE'', EXTCODESIZE), (''EXTCODECOPY'', EXTCODECOPY), (''RETURNDATASIZE'', RETURNDATASIZE), (''RETURNDATACOPY'', RETURNDATACOPY), (''EXTCODEHASH'', EXTCODEHASH),
    (''BLOCKHASH'', BLOCKHASH), (''COINBASE'', COINBASE), (''TIMESTAMP'', TIMESTAMP), (''NUMBER'', NUMBER), (''DIFFICULTY'', DIFFICULTY),
    (''GASLIMIT'', GASLIMIT), (''POP'', POP), (''MLOAD'', MLOAD), (''MSTORE'', MSTORE), (''MSTORE8'', MSTORE8),
    (''SLOAD'', SLOAD), (''SSTORE'', SSTORE), (''JUMP'', JUMP), (''JUMPI'', JUMPI), (''PC'', PC),
    (''MSIZE'', MSIZE), (''GAS'', GAS), (''JUMPDEST'', JUMPDEST), (''PUSH1'', PUSH1), (''PUSH2'', PUSH2),
    (''PUSH3'', PUSH3), (''PUSH4'', PUSH4), (''PUSH5'', PUSH5), (''PUSH6'', PUSH6), (''PUSH7'', PUSH7),
    (''PUSH8'', PUSH8), (''PUSH9'', PUSH9), (''PUSH10'', PUSH10), (''PUSH11'', PUSH11), (''PUSH12'', PUSH12),
    (''PUSH13'', PUSH13), (''PUSH14'', PUSH14), (''PUSH15'', PUSH15), (''PUSH16'', PUSH16), (''PUSH17'', PUSH17),
    (''PUSH18'', PUSH18), (''PUSH19'', PUSH19), (''PUSH20'', PUSH20), (''PUSH21'', PUSH21), (''PUSH22'', PUSH22),
    (''PUSH23'', PUSH23), (''PUSH24'', PUSH24), (''PUSH25'', PUSH25), (''PUSH26'', PUSH26), (''PUSH27'', PUSH27),
    (''PUSH28'', PUSH28), (''PUSH29'', PUSH29), (''PUSH30'', PUSH30), (''PUSH31'', PUSH31), (''PUSH32'', PUSH32),
    (''DUP1'', DUP1), (''DUP2'', DUP2), (''DUP3'', DUP3), (''DUP4'', DUP4), (''DUP5'', DUP5),
    (''DUP6'', DUP6), (''DUP7'', DUP7), (''DUP8'', DUP8), (''DUP9'', DUP9), (''DUP10'', DUP10),
    (''DUP11'', DUP11), (''DUP12'', DUP12), (''DUP13'', DUP13), (''DUP14'', DUP14), (''DUP15'', DUP15),
    (''DUP16'', DUP16), (''SWAP1'', SWAP1), (''SWAP2'', SWAP2), (''SWAP3'', SWAP3), (''SWAP4'', SWAP4),
    (''SWAP5'', SWAP5), (''SWAP6'', SWAP6), (''SWAP7'', SWAP7), (''SWAP8'', SWAP8), (''SWAP9'', SWAP9),
    (''SWAP10'', SWAP10), (''SWAP11'', SWAP11), (''SWAP12'', SWAP12), (''SWAP13'', SWAP13), (''SWAP14'', SWAP14),
    (''SWAP15'', SWAP15), (''SWAP16'', SWAP16), (''LOG0'', LOG0), (''LOG1'', LOG1), (''LOG2'', LOG2),
    (''LOG3'', LOG3), (''LOG4'', LOG4), (''CREATE'', CREATE), (''CREATE2'', CREATE2), (''CALL'', CALL),
    (''RETURN'', RETURN), (''CALLCODE'', CALLCODE), (''REVERT'', REVERT), (''SELFDESTRUCT'', SELFDESTRUCT)]"

text \<open>\<open>String\<close> of a byte without a name prints the byte; the text of that message is the argument \<open>missing\<close>.\<close>

definition op_String :: "(byte \<Rightarrow> string) \<Rightarrow> byte \<Rightarrow> string" where
  "op_String missing op =
     (let str = (case map_of opCodeToString op of None \<Rightarrow> [] | Some s \<Rightarrow> s)
      in if length str = 0 then missing op else str)"

definition StringToOp :: "string \<Rightarrow> byte" where
  "StringToOp str = (case map_of stringToOp str of None \<Rightarrow> 0 | Some op \<Rightarrow> op)"

end
