(* ===== verification/Jump_Table.thy ===== *)
theory Jump_Table
  imports Opcodes
begin

text \<open>
  \<open>src/kernel/vm/jump_table.go\<close>: for each instruction byte its execution function, gas function, stack
  check, memory size and flags, for the four generations of the protocol. The array literal of the first
  generation is the list of its entries, cut where the source has its groups; a byte without an entry has
  the zero operation, which is not \<open>valid\<close>.
\<close>

record 't operation =
  execute :: "'t executionFunc"
  gasCost :: "'t gasFunc"
  validateStack :: "Stack \<Rightarrow> vm_error option"
  memorySize :: "(Stack \<Rightarrow> int option) option"
  halts :: bool
  jumps :: bool
  writes :: bool
  valid :: bool
  reverts :: bool
  returns :: bool

definition mkop :: "'t executionFunc \<Rightarrow> 't gasFunc \<Rightarrow> (Stack \<Rightarrow> vm_error option) \<Rightarrow> 't operation" where
  "mkop e g s = \<lparr>execute = e, gasCost = g, validateStack = s, memorySize = None, halts = False,
     jumps = False, writes = False, valid = False, reverts = False, returns = False\<rparr>"

text \<open>The zero value of the struct; its function fields are nil and calling one panics.\<close>

definition no_operation :: "'t operation" where
  "no_operation = mkop (\<lambda>rn f. None) (\<lambda>gt n f. None) (\<lambda>st. None)"

type_synonym 't instruction_set = "byte \<Rightarrow> 't operation"

definition frontier_arith :: "(byte \<times> 't operation) list" where
  "frontier_arith = [
    (STOP, (mkop opStop (constGasFunc 0) (makeStackFunc 0 0))\<lparr>halts := True, valid := True\<rparr>),
    (ADD, (mkop opAdd (constGasFunc GasFastestStep) (makeStackFunc 2 1))\<lparr>valid := True\<rparr>),
    (MUL, (mkop opMul (constGasFunc GasFastStep) (makeStackFunc 2 1))\<lparr>valid := True\<rparr>),
    (SUB, (mkop opSub (constGasFunc GasFastestStep) (makeStackFunc 2 1))\<lparr>valid := True\<rparr>),
    (DIV, (mkop opDiv (constGasFunc GasFastStep) (makeStackFunc 2 1))\<lparr>valid := True\<rparr>),
    (SDIV, (mkop opSdiv (constGasFunc GasFastStep) (makeStackFunc 2 1))\<lparr>valid := True\<rparr>),
    (MOD, (mkop opMod (constGasFunc GasFastStep) (makeStackFunc 2 1))\<lparr>valid := True\<rparr>),
    (SMOD, (mkop opSmod (constGasFunc GasFastStep) (makeStackFunc 2 1))\<lparr>valid := True\<rparr>),
    (ADDMOD, (mkop opAddmod (constGasFunc GasMidStep) (makeStackFunc 3 1))\<lparr>valid := True\<rparr>),
    (MULMOD, (mkop opMulmod (constGasFunc GasMidStep) (makeStackFunc 3 1))\<lparr>valid := True\<rparr>),
    (EXP, (mkop opExp gasExp (makeStackFunc 2 1))\<lparr>valid := True\<rparr>),
    (SIGNEXTEND, (mkop opSignExtend (constGasFunc GasFastStep) (makeStackFunc 2 1))\<lparr>valid := True\<rparr>),
    (LT, (mkop opLt (constGasFunc GasFastestStep) (makeStackFunc 2 1))\<lparr>valid := True\<rparr>),
    (GT, (mkop opGt (constGasFunc GasFastestStep) (makeStackFunc 2 1))\<lparr>valid := True\<rparr>),
    (SLT, (mkop opSlt (constGasFunc GasFastestStep) (makeStackFunc 2 1))\<lparr>valid := True\<rparr>),
    (SGT, (mkop opSgt (constGasFunc GasFastestStep) (makeStackFunc 2 1))\<lparr>valid := True\<rparr>),
    (EQ, (mkop opEq (constGasFunc GasFastestStep) (makeStackFunc 2 1))\<lparr>valid := True\<rparr>),
    (ISZERO, (mkop opIszero (constGasFunc GasFastestStep) (makeStackFunc 1 1))\<lparr>valid := True\<rparr>),
    (op_AND, (mkop opAnd (constGasFunc GasFastestStep) (makeStackFunc 2 1))\<lparr>valid := True\<rparr>),
    (op_XOR, (mkop opXor (constGasFunc GasFastestStep) (makeStackFunc 2 1))\<lparr>valid := True\<rparr>),
    (op_OR, (mkop opOr (constGasFunc GasFastestStep) (makeStackFunc 2 1))\<lparr>valid := True\<rparr>),
    (op_NOT, (mkop opNot (constGasFunc GasFastestStep) (makeStackFunc 1 1))\<lparr>valid := True\<rparr>),
    (BYTE, (mkop opByte (constGasFunc GasFastestStep) (makeStackFunc 2 1))\<lparr>valid := True\<rparr>)]"

definition frontier_env :: "(byte \<times> 't operation) list" where
  "frontier_env = [
    (SHA3, (mkop opSha3 gasSha3 (makeStackFunc 2 1))\<lparr>memorySize := Some memorySha3, valid := True\<rparr>),
    (ADDRESS, (mkop opAddress (constGasFunc GasQuickStep) (makeStackFunc 0 1))\<lparr>valid := True\<rparr>),
    (BALANCE, (mkop opBalance gasBalance (makeStackFunc 1 1))\<lparr>valid := True\<rparr>),
    (ORIGIN, (mkop opOrigin (constGasFunc GasQuickStep) (makeStackFunc 0 1))\<lparr>valid := True\<rparr>),
    (CALLER, (mkop opCaller (constGasFunc GasQuickStep) (makeStackFunc 0 1))\<lparr>valid := True\<rparr>),
    (CALLVALUE, (mkop opCallValue (constGasFunc GasQuickStep) (makeStackFunc 0 1))\<lparr>valid := True\<rparr>),
    (CALLDATALOAD, (mkop opCallDataLoad (constGasFunc GasFastestStep) (makeStackFunc 1 1))\<lparr>valid := True\<rparr>),
    (CALLDATASIZE, (mkop opCallDataSize (constGasFunc GasQuickStep) (makeStackFunc 0 1))\<lparr>valid := True\<rparr>),
    (CALLDATACOPY, (mkop opCallDataCopy gasCallDataCopy (makeStackFunc 3 0))\<lparr>memorySize := Some memoryCallDataCopy, valid := True\<rparr>),
    (CODESIZE, (mkop opCodeSize (constGasFunc GasQuickStep) (makeStackFunc 0 1))\<lparr>valid := True\<rparr>),
    (CODECOPY, (mkop opCodeCopy gasCodeCopy (makeStackFunc 3 0))\<lparr>memorySize := Some memoryCodeCopy, valid := True\<rparr>),
    (GASPRICE, (mkop opGasprice (constGasFunc GasQuickStep) (makeStackFunc 0 1))\<lparr>valid := True\<rparr>),
    (EXTCODESIZE, (mkop opExtCodeSize gasExtCodeSize (makeStackFunc 1 1))\<lparr>valid := True\<rparr>),
    (EXTCODECOPY, (mkop opExtCodeCopy gasExtCodeCopy (makeStackFunc 4 0))\<lparr>memorySize := Some memoryExtCodeCopy, valid := True\<rparr>),
    (BLOCKHASH, (mkop opBlockhash (constGasFunc GasExtStep) (makeStackFunc 1 1))\<lparr>valid := True\<rparr>),
    (COINBASE, (mkop opCoinbase (constGasFunc GasQuickStep) (makeStackFunc 0 1))\<lparr>valid := True\<rparr>),
    (TIMESTAMP, (mkop opTimestamp (constGasFunc GasQuickStep) (makeStackFunc 0 1))\<lparr>valid := True\<rparr>),
    (NUMBER, (mkop opNumber (constGasFunc GasQuickStep) (makeStackFunc 0 1))\<lparr>valid := True\<rparr>),
    (DIFFICULTY, (mkop opDifficulty (constGasFunc GasQuickStep) (makeStackFunc 0 1))\<lparr>valid := True\<rparr>),
    (GASLIMIT, (mkop opGasLimit (constGasFunc GasQuickStep) (makeStackFunc 0 1))\<lparr>valid := True\<rparr>)]"

definition frontier_flow :: "(byte \<times> 't operation) list" where
  "frontier_flow = [
    (POP, (mkop opPop (constGasFunc GasQuickStep) (makeStackFunc 1 0))\<lparr>valid := True\<rparr>),
    (MLOAD, (mkop opMload gasMLoad (makeStackFunc 1 1))\<lparr>memorySize := Some memoryMLoad, valid := True\<rparr>),
    (MSTORE, (mkop opMstore gasMStore (makeStackFunc 2 0))\<lparr>memorySize := Some memoryMStore, valid := True\<rparr>),
    (MSTORE8, (mkop opMstore8 gasMStore8 (makeStackFunc 2 0))\<lparr>memorySize := Some memoryMStore8, valid := True\<rparr>),
    (SLOAD, (mkop opSload gasSLoad (makeStackFunc 1 1))\<lparr>valid := True\<rparr>),
    (SSTORE, (mkop opSstore gasSStore (makeStackFunc 2 0))\<lparr>writes := True, valid := True\<rparr>),
    (JUMP, (mkop opJump (constGasFunc GasMidStep) (makeStackFunc 1 0))\<lparr>jumps := True, valid := True\<rparr>),
    (JUMPI, (mkop opJumpi (constGasFunc GasSlowStep) (makeStackFunc 2 0))\<lparr>jumps := True, valid := True\<rparr>),
    (PC, (mkop opPc (constGasFunc GasQuickStep) (makeStackFunc 0 1))\<lparr>valid := True\<rparr>),
    (MSIZE, (mkop opMsize (constGasFunc GasQuickStep) (makeStackFunc 0 1))\<lparr>valid := True\<rparr>),
    (GAS, (mkop opGas (constGasFunc GasQuickStep) (makeStackFunc 0 1))\<lparr>valid := True\<rparr>),
    (JUMPDEST, (mkop opJumpdest (constGasFunc JumpdestGas) (makeStackFunc 0 0))\<lparr>valid := True\<rparr>)]"

definition frontier_push_lo :: "(byte \<times> 't operation) list" where
  "frontier_push_lo = [
    (PUSH1, (mkop (makePush 1 1) gasPush (makeStackFunc 0 1))\<lparr>valid := True\<rparr>),
    (PUSH2, (mkop (makePush 2 2) gasPush (makeStackFunc 0 1))\<lparr>valid := True\<rparr>),
    (PUSH3, (mkop (makePush 3 3) gasPush (makeStackFunc 0 1))\<lparr>valid := True\<rparr>),
    (PUSH4, (mkop (makePush 4 4) gasPush (makeStackFunc 0 1))\<lparr>valid := True\<rparr>),
    (PUSH5, (mkop (makePush 5 5) gasPush (makeStackFunc 0 1))\<lparr>valid := True\<rparr>),
    (PUSH6, (mkop (makePush 6 6) gasPush (makeStackFunc 0 1))\<lparr>valid := True\<rparr>),
    (PUSH7, (mkop (makePush 7 7) gasPush (makeStackFunc 0 1))\<lparr>valid := True\<rparr>),
    (PUSH8, (mkop (makePush 8 8) gasPush (makeStackFunc 0 1))\<lparr>valid := True\<rparr>),
    (PUSH9, (mkop (makePush 9 9) gasPush (makeStackFunc 0 1))\<lparr>valid := True\<rparr>),
    (PUSH10, (mkop (makePush 10 10) gasPush (makeStackFunc 0 1))\<lparr>valid := True\<rparr>),
    (PUSH11, (mkop (makePush 11 11) gasPush (makeStackFunc 0 1))\<lparr>valid := True\<rparr>),
    (PUSH12, (mkop (makePush 12 12) gasPush (makeStackFunc 0 1))\<lparr>valid := True\<rparr>),
    (PUSH13, (mkop (makePush 13 13) gasPush (makeStackFunc 0 1))\<lparr>valid := True\<rparr>),
    (PUSH14, (mkop (makePush 14 14) gasPush (makeStackFunc 0 1))\<lparr>valid := True\<rparr>),
    (PUSH15, (mkop (makePush 15 15) gasPush (makeStackFunc 0 1))\<lparr>valid := True\<rparr>),
    (PUSH16, (mkop (makePush 16 16) gasPush (makeStackFunc 0 1))\<lparr>valid := True\<rparr>)]"

definition frontier_push_hi :: "(byte \<times> 't operation) list" where
  "frontier_push_hi = [
    (PUSH17, (mkop (makePush 17 17) gasPush (makeStackFunc 0 1))\<lparr>valid := True\<rparr>),
    (PUSH18, (mkop (makePush 18 18) gasPush (makeStackFunc 0 1))\<lparr>valid := True\<rparr>),
    (PUSH19, (mkop (makePush 19 19) gasPush (makeStackFunc 0 1))\<lparr>valid := True\<rparr>),
    (PUSH20, (mkop (makePush 20 20) gasPush (makeStackFunc 0 1))\<lparr>valid := True\<rparr>),
    (PUSH21, (mkop (makePush 21 21) gasPush (makeStackFunc 0 1))\<lparr>valid := True\<rparr>),
    (PUSH22, (mkop (makePush 22 22) gasPush (makeStackFunc 0 1))\<lparr>valid := True\<rparr>),
    (PUSH23, (mkop (makePush 23 23) gasPush (makeStackFunc 0 1))\<lparr>valid := True\<rparr>),
    (PUSH24, (mkop (makePush 24 24) gasPush (makeStackFunc 0 1))\<lparr>valid := True\<rparr>),
    (PUSH25, (mkop (makePush 25 25) gasPush (makeStackFunc 0 1))\<lparr>valid := True\<rparr>),
    (PUSH26, (mkop (makePush 26 26) gasPush (makeStackFunc 0 1))\<lparr>valid := True\<rparr>),
    (PUSH27, (mkop (makePush 27 27) gasPush (makeStackFunc 0 1))\<lparr>valid := True\<rparr>),
    (PUSH28, (mkop (makePush 28 28) gasPush (makeStackFunc 0 1))\<lparr>valid := True\<rparr>),
    (PUSH29, (mkop (makePush 29 29) gasPush (makeStackFunc 0 1))\<lparr>valid := True\<rparr>),
    (PUSH30, (mkop (makePush 30 30) gasPush (makeStackFunc 0 1))\<lparr>valid := True\<rparr>),
    (PUSH31, (mkop (makePush 31 31) gasPush (makeStackFunc 0 1))\<lparr>valid := True\<rparr>),
    (PUSH32, (mkop (makePush 32 32) gasPush (makeStackFunc 0 1))\<lparr>valid := True\<rparr>)]"

definition frontier_dup :: "(byte \<times> 't operation) list" where
  "frontier_dup = [
    (DUP1, (mkop (makeDup 1) gasDup (makeDupStackFunc 1))\<lparr>valid := True\<rparr>),
    (DUP2, (mkop (makeDup 2) gasDup (makeDupStackFunc 2))\<lparr>valid := True\<rparr>),
    (DUP3, (mkop (makeDup 3) gasDup (makeDupStackFunc 3))\<lparr>valid := True\<rparr>),
    (DUP4, (mkop (makeDup 4) gasDup (makeDupStackFunc 4))\<lparr>valid := True\<rparr>),
    (DUP5, (mkop (makeDup 5) gasDup (makeDupStackFunc 5))\<lparr>valid := True\<rparr>),
    (DUP6, (mkop (makeDup 6) gasDup (makeDupStackFunc 6))\<lparr>valid := True\<rparr>),
    (DUP7, (mkop (makeDup 7) gasDup (makeDupStackFunc 7))\<lparr>valid := True\<rparr>),
    (DUP8, (mkop (makeDup 8) gasDup (makeDupStackFunc 8))\<lparr>valid := True\<rparr>),
    (DUP9, (mkop (makeDup 9) gasDup (makeDupStackFunc 9))\<lparr>valid := True\<rparr>),
    (DUP10, (mkop (makeDup 10) gasDup (makeDupStackFunc 10))\<lparr>valid := True\<rparr>),
    (DUP11, (mkop (makeDup 11) gasDup (makeDupStackFunc 11))\<lparr>valid := True\<rparr>),
    (DUP12, (mkop (makeDup 12) gasDup (makeDupStackFunc 12))\<lparr>valid := True\<rparr>),
    (DUP13, (mkop (makeDup 13) gasDup (makeDupStackFunc 13))\<lparr>valid := True\<rparr>),
    (DUP14, (mkop (makeDup 14) gasDup (makeDupStackFunc 14))\<lparr>valid := True\<rparr>),
    (DUP15, (mkop (makeDup 15) gasDup (makeDupStackFunc 15))\<lparr>valid := True\<rparr>),
    (DUP16, (mkop (makeDup 16) gasDup (makeDupStackFunc 16))\<lparr>valid := True\<rparr>)]"

definition frontier_swap :: "(byte \<times> 't operation) list" where
  "frontier_swap = [
    (SWAP1, (mkop (makeSwap 1) gasSwap (makeSwapStackFunc 2))\<lparr>valid := True\<rparr>),
    (SWAP2, (mkop (makeSwap 2) gasSwap (makeSwapStackFunc 3))\<lparr>valid := True\<rparr>),
    (SWAP3, (mkop (makeSwap 3) gasSwap (makeSwapStackFunc 4))\<lparr>valid := True\<rparr>),
    (SWAP4, (mkop (makeSwap 4) gasSwap (makeSwapStackFunc 5))\<lparr>valid := True\<rparr>),
    (SWAP5, (mkop (makeSwap 5) gasSwap (makeSwapStackFunc 6))\<lparr>valid := True\<rparr>),
    (SWAP6, (mkop (makeSwap 6) gasSwap (makeSwapStackFunc 7))\<lparr>valid := True\<rparr>),
    (SWAP7, (mkop (makeSwap 7) gasSwap (makeSwapStackFunc 8))\<lparr>valid := True\<rparr>),
    (SWAP8, (mkop (makeSwap 8) gasSwap (makeSwapStackFunc 9))\<lparr>valid := True\<rparr>),
    (SWAP9, (mkop (makeSwap 9) gasSwap (makeSwapStackFunc 10))\<lparr>valid := True\<rparr>),
    (SWAP10, (mkop (makeSwap 10) gasSwap (makeSwapStackFunc 11))\<lparr>valid := True\<rparr>),
    (SWAP11, (mkop (makeSwap 11) gasSwap (makeSwapStackFunc 12))\<lparr>valid := True\<rparr>),
    (SWAP12, (mkop (makeSwap 12) gasSwap (makeSwapStackFunc 13))\<lparr>valid := True\<rparr>),
    (SWAP13, (mkop (makeSwap 13) gasSwap (makeSwapStackFunc 14))\<lparr>valid := True\<rparr>),
    (SWAP14, (mkop (makeSwap 14) gasSwap (makeSwapStackFunc 15))\<lparr>valid := True\<rparr>),
    (SWAP15, (mkop (makeSwap 15) gasSwap (makeSwapStackFunc 16))\<lparr>valid := True\<rparr>),
    (SWAP16, (mkop (makeSwap 16) gasSwap (makeSwapStackFunc 17))\<lparr>valid := True\<rparr>)]"

definition frontier_system :: "(byte \<times> 't operation) list" where
  "frontier_system = [
    (LOG0, (mkop (makeLog 0) (makeGasLog 0) (makeStackFunc 2 0))\<lparr>memorySize := Some memoryLog, writes := True, valid := True\<rparr>),
    (LOG1, (mkop (makeLog 1) (makeGasLog 1) (makeStackFunc 3 0))\<lparr>memorySize := Some memoryLog, writes := True, valid := True\<rparr>),
    (LOG2, (mkop (makeLog 2) (makeGasLog 2) (makeStackFunc 4 0))\<lparr>memorySize := Some memoryLog, writes := True, valid := True\<rparr>),
    (LOG3, (mkop (makeLog 3) (makeGasLog 3) (makeStackFunc 5 0))\<lparr>memorySize := Some memoryLog, writes := True, valid := True\<rparr>),
    (LOG4, (mkop (makeLog 4) (makeGasLog 4) (makeStackFunc 6 0))\<lparr>memorySize := Some memoryLog, writes := True, valid := True\<rparr>),
    (CREATE, (mkop opCreate gasCreate (makeStackFunc 3 1))\<lparr>memorySize := Some memoryCreate, writes := True, valid := True, returns := True\<rparr>),
    (CALL, (mkop opCall gasCall (makeStackFunc 7 1))\<lparr>memorySize := Some memoryCall, valid := True, returns := True\<rparr>),
    (CALLCODE, (mkop opCallCode gasCallCode (makeStackFunc 7 1))\<lparr>memorySize := Some memoryCall, valid := True, returns := True\<rparr>),
    (RETURN, (mkop opReturn gasReturn (makeStackFunc 2 0))\<lparr>memorySize := Some memoryReturn, halts := True, valid := True\<rparr>),
    (SELFDESTRUCT, (mkop opSuicide gasSuicide (makeStackFunc 1 0))\<lparr>halts := True, writes := True, valid := True\<rparr>)]"

definition newFrontierInstructionSet :: "'t instruction_set" where
  "newFrontierInstructionSet op =
     (case map_of (frontier_arith @ frontier_env @ frontier_flow @ frontier_push_lo @ frontier_push_hi
                   @ frontier_dup @ frontier_swap @ frontier_system) op of
        Some operation \<Rightarrow> operation
      | None \<Rightarrow> no_operation)"

definition newHomesteadInstructionSet :: "'t instruction_set" where
  "newHomesteadInstructionSet =
     newFrontierInstructionSet(
       DELEGATECALL := (mkop opDelegateCall gasDelegateCall (makeStackFunc 6 1))\<lparr>memorySize := Some memoryDelegateCall, valid := True, returns := True\<rparr>)"

definition newByzantiumInstructionSet :: "'t instruction_set" where
  "newByzantiumInstructionSet =
     newHomesteadInstructionSet(
       STATICCALL := (mkop opStaticCall gasStaticCall (makeStackFunc 6 1))\<lparr>memorySize := Some memoryStaticCall, valid := True, returns := True\<rparr>,
       RETURNDATASIZE := (mkop opReturnDataSize (constGasFunc GasQuickStep) (makeStackFunc 0 1))\<lparr>valid := True\<rparr>,
       RETURNDATACOPY := (mkop opReturnDataCopy gasReturnDataCopy (makeStackFunc 3 0))\<lparr>memorySize := Some memoryReturnDataCopy, valid := True\<rparr>,
       REVERT := (mkop opRevert gasRevert (makeStackFunc 2 0))\<lparr>memorySize := Some memoryRevert, valid := True, reverts := True, returns := True\<rparr>)"

definition newConstantinopleInstructionSet :: "'t instruction_set" where
  "newConstantinopleInstructionSet =
     newByzantiumInstructionSet(
       SHL := (mkop opSHL (constGasFunc GasFastestStep) (makeStackFunc 2 1))\<lparr>valid := True\<rparr>,
       SHR := (mkop opSHR (constGasFunc GasFastestStep) (makeStackFunc 2 1))\<lparr>valid := True\<rparr>,
       SAR := (mkop opSAR (constGasFunc GasFastestStep) (makeStackFunc 2 1))\<lparr>valid := True\<rparr>,
       EXTCODEHASH := (mkop opExtCodeHash gasExtCodeHash (makeStackFunc 1 1))\<lparr>valid := True\<rparr>,
       CREATE2 := (mkop opCreate2 gasCreate2 (makeStackFunc 4 1))\<lparr>memorySize := Some memoryCreate2, writes := True, valid := True, returns := True\<rparr>)"

end
