(* ===== verification/Interpreter.thy ===== *)
theory Interpreter
  imports Jump_Table
begin

text \<open>
  \<open>src/kernel/vm/interpreter.go\<close>: the bytecode loop. \<open>step\<close> is one round of the loop of \<open>Run\<close>; it ends
  with the next frame or with the results of \<open>Run\<close>. \<open>Run\<close> and its loop share one fuel, which the theorems
  of \<open>Machine_Total\<close> bound by the gas: a run with more fuel than twice its gas is never cut short.
\<close>

datatype 't outcome = Next "'t frame" | Done call_result "'t frame"

definition instruction_set :: "'t EVM \<Rightarrow> 't instruction_set" where
  "instruction_set evm =
     (if IsConstantinople (chainConfig evm) (blockNum evm) then newConstantinopleInstructionSet
      else if IsByzantium (chainConfig evm) (blockNum evm) then newByzantiumInstructionSet
      else if IsHomestead (chainConfig evm) (blockNum evm) then newHomesteadInstructionSet
      else newFrontierInstructionSet)"

definition enforceRestrictions ::
  "'t EVM \<Rightarrow> byte \<Rightarrow> 't operation \<Rightarrow> Stack \<Rightarrow> vm_error option option" where
  "enforceRestrictions evm op oper st =
     (if r_IsByzantium (chainRules evm) \<and> readOnly evm then
        (if writes oper then Some (Some errWriteProtection)
         else if op = CALL then do {
           v \<leftarrow> Back st 2;
           Some (if BitLen v > 0 then Some errWriteProtection else None) }
         else Some None)
      else Some None)"

definition memory_size :: "'t operation \<Rightarrow> Stack \<Rightarrow> (vm_error + u64) option" where
  "memory_size oper st =
     (case memorySize oper of
        None \<Rightarrow> Some (Inr 0)
      | Some ms \<Rightarrow> do {
          x \<leftarrow> ms st;
          let (memSize, overflow) = bigUint64 x;
          let (sz, overflow') = SafeMul (toWordSize memSize) 32;
          Some (if overflow \<or> overflow' then Inl errGasUintOverflow else Inr sz) })"

definition dispatch :: "'t run_fn \<Rightarrow> 't operation \<Rightarrow> 't frame \<Rightarrow> 't outcome option" where
  "dispatch rn oper f = do {
     ((res, err), f) \<leftarrow> execute oper rn f;
     let f = (if returns oper then f\<lparr>f_evm := (f_evm f)\<lparr>returnData := res\<rparr>\<rparr> else f);
     Some (case err of
         Some e \<Rightarrow> Done (None, Some e) f
       | None \<Rightarrow>
           if reverts oper then Done (res, Some errExecutionReverted) f
           else if halts oper then Done (res, None) f
           else if \<not> jumps oper then Next (f\<lparr>f_pc := f_pc f + 1\<rparr>)
           else Next f) }"

definition charge :: "'t operation \<Rightarrow> u64 \<Rightarrow> 't frame \<Rightarrow> (bool \<times> 't frame) option" where
  "charge oper sz f = do {
     (r, f) \<leftarrow> gasCost oper (gasTable (f_evm f)) sz f;
     case r of
       Inl _ \<Rightarrow> Some (False, f)
     | Inr cost \<Rightarrow> do {
         let (ok, c) = UseGas cost (f_contract f);
         m \<leftarrow> (if ok \<and> sz > 0 then Resize sz (f_mem f) else Some (f_mem f));
         Some (ok, f\<lparr>f_contract := c, f_mem := m\<rparr>) } }"

definition step :: "'t run_fn \<Rightarrow> 't frame \<Rightarrow> 't outcome option" where
  "step rn f =
     (let op = GetOp (f_contract f) (f_pc f);
          oper = instruction_set (f_evm f) op
      in if \<not> valid oper then Some (Done (None, Some (errInvalidOpcode op)) f)
         else case validateStack oper (f_stack f) of
           Some err \<Rightarrow> Some (Done (None, Some err) f)
         | None \<Rightarrow> do {
             restricted \<leftarrow> enforceRestrictions (f_evm f) op oper (f_stack f);
             case restricted of
               Some err \<Rightarrow> Some (Done (None, Some err) f)
             | None \<Rightarrow> do {
                 ms \<leftarrow> memory_size oper (f_stack f);
                 case ms of
                   Inl err \<Rightarrow> Some (Done (None, Some err) f)
                 | Inr sz \<Rightarrow> do {
                     (paid, f) \<leftarrow> charge oper sz f;
                     if \<not> paid then Some (Done (None, Some ErrOutOfGas) f)
                     else dispatch rn oper f } } })"

definition enter :: "bool \<Rightarrow> 't EVM \<Rightarrow> 't EVM" where
  "enter ro evm = evm\<lparr>depth := depth evm + 1, readOnly := readOnly evm \<or> ro, returnData := None\<rparr>"

text \<open>The deferred functions: \<open>readOnly\<close> is reset by the call that set it.\<close>

definition leave :: "bool \<Rightarrow> 't EVM \<Rightarrow> 't EVM" where
  "leave setRO evm = evm\<lparr>depth := depth evm - 1, readOnly := readOnly evm \<and> \<not> setRO\<rparr>"

definition start_frame :: "Contract \<Rightarrow> gobytes \<Rightarrow> 't EVM \<Rightarrow> 't frame" where
  "start_frame contract input evm =
     \<lparr>f_pc = 0, f_evm = evm, f_contract = contract\<lparr>c_Input := sl input\<rparr>, f_mem = NewMemory, f_stack = newstack\<rparr>"

fun Run :: "nat \<Rightarrow> 't run_fn"
  and Run_loop :: "nat \<Rightarrow> 't frame \<Rightarrow> (call_result \<times> 't frame) option" where
  "Run 0 = (\<lambda>contract input ro evm. None)"
| "Run (Suc n) = (\<lambda>contract input ro evm.
     let setRO = (ro \<and> \<not> readOnly evm); evm1 = enter ro evm
     in if length (c_Code contract) = 0 then Some ((None, None), contract, leave setRO evm1)
        else do {
          (r, f) \<leftarrow> Run_loop n (start_frame contract input evm1);
          Some (r, f_contract f, leave setRO (f_evm f)) })"
| "Run_loop 0 f = None"
| "Run_loop (Suc n) f =
     (if abort (f_evm f) then Some ((None, None), f)
      else do {
        out \<leftarrow> step (Run n) f;
        case out of Done r f' \<Rightarrow> Some (r, f') | Next f' \<Rightarrow> Run_loop n f' })"

end
