(* ===== verification/State_Transition.thy ===== *)
theory State_Transition
  imports Interpreter
begin

text \<open>
  \<open>src/kernel/state_transition.go\<close>, \<open>gaspool.go\<close> and the two balance functions of \<open>evm.go\<close>: the gas a
  transaction buys, what it pays before it runs, the call or creation, the refund and the fee.
  \<open>rn\<close> is the interpreter, as in \<open>EVM_Core\<close>.
\<close>

subsection \<open>gaspool.go\<close>

datatype tx_error =
    errInsufficientBalanceForGas | ErrGasLimitReached | ErrNonceTooHigh | ErrNonceTooLow | VmError vm_error

definition AddGas :: "u64 \<Rightarrow> u64 \<Rightarrow> u64 option" where
  "AddGas gp amount = (if gp > MaxUint64 - amount then None else Some (gp + amount))"

definition SubGas :: "u64 \<Rightarrow> u64 \<Rightarrow> tx_error + u64" where
  "SubGas gp amount = (if gp < amount then Inl ErrGasLimitReached else Inr (gp - amount))"

subsection \<open>evm.go\<close>

definition kernel_CanTransfer :: "'t StateDB \<Rightarrow> address \<Rightarrow> int \<Rightarrow> bool \<times> 't StateDB" where
  "kernel_CanTransfer db addr amount = (let (b, s) = GetBalance addr db in (b \<ge> amount, s))"

definition kernel_Transfer :: "'t StateDB \<Rightarrow> address \<Rightarrow> address \<Rightarrow> int \<Rightarrow> 't StateDB" where
  "kernel_Transfer db sender recipient amount = AddBalance recipient amount (SubBalance sender amount db)"

subsection \<open>state_transition.go\<close>

record Message =
  msg_to :: "address option"
  msg_from :: address
  msg_nonce :: u64
  msg_amount :: int
  msg_gasLimit :: u64
  msg_gasPrice :: int
  msg_data :: bytes
  msg_checkNonce :: bool

record 't StateTransition =
  st_gp :: u64
  st_msg :: Message
  st_gas :: u64
  st_gasPrice :: int
  st_initialGas :: u64
  st_value :: int
  st_data :: bytes
  st_evm :: "'t EVM"

abbreviation st_state :: "'t StateTransition \<Rightarrow> 't StateDB" where
  "st_state st \<equiv> evm_StateDB (st_evm st)"

definition st_db :: "'t StateDB \<Rightarrow> 't StateTransition \<Rightarrow> 't StateTransition" where
  "st_db s st = st\<lparr>st_evm := (st_evm st)\<lparr>evm_StateDB := s\<rparr>\<rparr>"

definition IntrinsicGas :: "bytes \<Rightarrow> bool \<Rightarrow> bool \<Rightarrow> vm_error + u64" where
  "IntrinsicGas d contractCreation homestead =
     (let gas = (if contractCreation \<and> homestead then TxGasContractCreation else TxGas)
      in if length d > 0 then
           let nz = of_nat (length (filter (\<lambda>b. b \<noteq> 0) d))
           in if (MaxUint64 - gas) div TxDataNonZeroGas < nz then Inl ErrOutOfGas
              else
                let gas = gas + nz * TxDataNonZeroGas;
                    z = of_nat (length d) - nz
                in if (MaxUint64 - gas) div TxDataZeroGas < z then Inl ErrOutOfGas
                   else Inr (gas + z * TxDataZeroGas)
         else Inr gas)"

definition NewStateTransition :: "'t EVM \<Rightarrow> Message \<Rightarrow> u64 \<Rightarrow> 't StateTransition" where
  "NewStateTransition evm msg gp =
     \<lparr>st_gp = gp, st_msg = msg, st_gas = 0, st_gasPrice = msg_gasPrice msg, st_initialGas = 0,
      st_value = msg_amount msg, st_data = msg_data msg, st_evm = evm\<rparr>"

definition st_to :: "'t StateTransition \<Rightarrow> address" where
  "st_to st = (case msg_to (st_msg st) of None \<Rightarrow> 0 | Some a \<Rightarrow> a)"

definition useGas :: "u64 \<Rightarrow> 't StateTransition \<Rightarrow> tx_error + 't StateTransition" where
  "useGas amount st =
     (if st_gas st < amount then Inl (VmError ErrOutOfGas) else Inr (st\<lparr>st_gas := st_gas st - amount\<rparr>))"

text \<open>An error leaves the changes made so far in place, so both results come with the state.\<close>

definition buyGas :: "'t StateTransition \<Rightarrow> tx_error option \<times> 't StateTransition" where
  "buyGas st =
     (let mgval = uint (msg_gasLimit (st_msg st)) * st_gasPrice st;
          (bal, s) = GetBalance (msg_from (st_msg st)) (st_state st);
          st = st_db s st
      in if bal < mgval then (Some errInsufficientBalanceForGas, st)
         else case SubGas (st_gp st) (msg_gasLimit (st_msg st)) of
           Inl err \<Rightarrow> (Some err, st)
         | Inr gp \<Rightarrow>
             (None, st_db (SubBalance (msg_from (st_msg st)) mgval (st_state st))
                (st\<lparr>st_gp := gp, st_gas := st_gas st + msg_gasLimit (st_msg st),
                    st_initialGas := msg_gasLimit (st_msg st)\<rparr>)))"

definition preCheck :: "'t StateTransition \<Rightarrow> tx_error option \<times> 't StateTransition" where
  "preCheck st =
     (if msg_checkNonce (st_msg st) then
        let (nonce, s) = GetNonce (msg_from (st_msg st)) (st_state st);
            st = st_db s st
        in if nonce < msg_nonce (st_msg st) then (Some ErrNonceTooHigh, st)
           else if nonce > msg_nonce (st_msg st) then (Some ErrNonceTooLow, st)
           else buyGas st
      else buyGas st)"

definition gasUsed :: "'t StateTransition \<Rightarrow> u64" where
  "gasUsed st = st_initialGas st - st_gas st"

definition refundGas :: "'t StateTransition \<Rightarrow> 't StateTransition option" where
  "refundGas st =
     (let half = gasUsed st div 2;
          ref = (if half > GetRefund (st_state st) then GetRefund (st_state st) else half);
          gas = st_gas st + ref;
          remaining = uint gas * st_gasPrice st
      in do {
        gp \<leftarrow> AddGas (st_gp st) gas;
        Some (st_db (AddBalance (msg_from (st_msg st)) remaining (st_state st))
                (st\<lparr>st_gas := gas, st_gp := gp\<rparr>)) })"

text \<open>The call or creation of \<open>TransitionDb\<close>, with the gas it leaves.\<close>

definition run_message ::
  "'t run_fn \<Rightarrow> 't StateTransition \<Rightarrow> (gobytes \<times> vm_error option \<times> 't StateTransition) option" where
  "run_message rn st =
     (let sender = AccountRef (msg_from (st_msg st))
      in if msg_to (st_msg st) = None then do {
           ((ret, _, gas, vmerr), evm) \<leftarrow> Create rn sender (st_data st) (st_gas st) (st_value st) (st_evm st);
           Some (ret, vmerr, st\<lparr>st_gas := gas, st_evm := evm\<rparr>) }
         else
           let (nonce, s) = GetNonce (msg_from (st_msg st)) (st_state st);
               st = st_db (SetNonce (msg_from (st_msg st)) (nonce + 1) s) st
           in do {
             ((ret, gas, vmerr), evm) \<leftarrow>
               Call rn sender (st_to st) (Some (st_data st)) (st_gas st) (st_value st) (st_evm st);
             Some (ret, vmerr, st\<lparr>st_gas := gas, st_evm := evm\<rparr>) })"

text \<open>The end of \<open>TransitionDb\<close>: the refund and the fee.\<close>

definition settle_message ::
  "gobytes \<Rightarrow> vm_error option \<Rightarrow> 't StateTransition \<Rightarrow> ((tx_error + gobytes \<times> u64 \<times> bool) \<times> 't StateTransition) option" where
  "settle_message ret vmerr st =
     (if vmerr = Some ErrInsufficientBalance then Some (Inl (VmError ErrInsufficientBalance), st)
      else do {
        st \<leftarrow> refundGas st;
        let st = st_db (AddBalance (Coinbase (evm_Context (st_evm st)))
                          (uint (gasUsed st) * st_gasPrice st) (st_state st)) st;
        Some (Inr (ret, gasUsed st, vmerr \<noteq> None), st) })"

definition TransitionDb ::
  "'t run_fn \<Rightarrow> 't StateTransition \<Rightarrow> ((tx_error + gobytes \<times> u64 \<times> bool) \<times> 't StateTransition) option" where
  "TransitionDb rn st =
     (let (err, st) = preCheck st
      in case err of
        Some e \<Rightarrow> Some (Inl e, st)
      | None \<Rightarrow>
          let homestead = IsHomestead (chainConfig (st_evm st)) (blockNum (st_evm st));
              contractCreation = (msg_to (st_msg st) = None)
          in case IntrinsicGas (st_data st) contractCreation homestead of
            Inl e \<Rightarrow> Some (Inl (VmError e), st)
          | Inr gas \<Rightarrow>
              (case useGas gas st of
                 Inl e \<Rightarrow> Some (Inl e, st)
               | Inr st \<Rightarrow> do {
                   (ret, vmerr, st) \<leftarrow> run_message rn st;
                   settle_message ret vmerr st }))"

definition ApplyMessage ::
  "'t run_fn \<Rightarrow> 't EVM \<Rightarrow> Message \<Rightarrow> u64 \<Rightarrow> ((tx_error + gobytes \<times> u64 \<times> bool) \<times> u64 \<times> 't EVM) option" where
  "ApplyMessage rn evm msg gp = do {
     (r, st) \<leftarrow> TransitionDb rn (NewStateTransition evm msg gp);
     Some (r, st_gp st, st_evm st) }"

end
