(* ===== verification/Precompile_Props.thy ===== *)
theory Precompile_Props
  imports EVM_Core
begin

text \<open>
  What the precompiled contracts compute and when they return: \<open>bigModExp\<close> is modular exponentiation on the
  padded windows of its input, and no precompiled contract panics on an input whose gas was paid for, unless
  the gas exceeds \<open>2 ^ 45\<close>: beyond that the price of \<open>bigModExp\<close> no longer keeps its lengths within what \<open>make\<close>
  can allocate.
\<close>

subsection \<open>Modular exponentiation\<close>

lemma mod_exp_eq: "0 < m \<Longrightarrow> mod_exp b e m = b ^ e mod m"
proof (induction b e m rule: mod_exp.induct)
  case (1 b e m)
  show ?case
  proof (cases "e = 0")
    case True
    then show ?thesis by (subst mod_exp.simps) simp
  next
    case False
    have "mod_exp (b * b mod m) (e div 2) m = (b * b) ^ (e div 2) mod m"
      using 1 False by (simp add: power_mod)
    also have "(b * b) ^ (e div 2) = b ^ (2 * (e div 2))" by (simp add: power_mult power2_eq_square)
    finally have h: "mod_exp (b * b mod m) (e div 2) m = b ^ (2 * (e div 2)) mod m" .
    show ?thesis
    proof (cases "even e")
      case True
      then show ?thesis using False h by (subst mod_exp.simps) simp
    next
      case odd: False
      then have "b ^ e = b * b ^ (2 * (e div 2))" by (metis odd_two_times_div_two_succ power_Suc Suc_eq_plus1)
      then show ?thesis using False odd h by (subst mod_exp.simps) (simp add: Let_def mod_mult_right_eq)
    qed
  qed
qed

lemma LeftPad_big_Bytes:
  assumes "0 \<le> x" "x < 256 ^ n" "int n \<le> 2 ^ 48"
  shows "LeftPadBytes (big_Bytes x) (int n) = Some (be_bytes n x)"
proof -
  have "BitLen x \<le> 8 * n" using assms by (simp add: BitLen_le_iff power_mult)
  then have l: "length (big_Bytes x) \<le> n" by (simp add: big_Bytes_def)
  have "SetBytes (replicate (n - length (big_Bytes x)) 0 @ big_Bytes x) = x"
    using assms(1) by (simp add: SetBytes_append SetBytes_big_Bytes)
  then have "replicate (n - length (big_Bytes x)) 0 @ big_Bytes x = be_bytes n x" using assms(1,2) l
    by (intro SetBytes_inj) (simp_all add: SetBytes_be_bytes)
  then show ?thesis using assms(3) by (simp add: LeftPadBytes_Some)
qed

text \<open>The three lengths at the head of the input, and the three numbers behind them.\<close>

definition me_len :: "bytes \<Rightarrow> nat \<Rightarrow> int" where
  "me_len inp k = SetBytes (window inp (32 * k) 32)"

definition me_num :: "bytes \<Rightarrow> nat \<Rightarrow> nat \<Rightarrow> int" where
  "me_num inp i n = SetBytes (window (drop 96 inp) i n)"

lemma modexp_lens_eq:
  assumes "length inp < 2 ^ 62"
  shows "modexp_lens inp = Some (me_len inp 0, me_len inp 1, me_len inp 2, drop 96 inp)"
  using assms by (simp add: modexp_lens_def getData_window me_len_def)

lemma me_len_nonneg [simp]: "0 \<le> me_len inp k"
  by (simp add: me_len_def)

lemma me_num_bounds: "0 \<le> me_num inp i n" "me_num inp i n < 256 ^ n"
  using SetBytes_bounds [of "window (drop 96 inp) i n"] by (simp_all add: me_num_def)

lemma u64_of_len:
  assumes "0 \<le> x" "x < 2 ^ 62"
  shows "unat (Uint64 x) = nat x" "sint (Uint64 x) = x" "Uint64 x = 0 \<longleftrightarrow> x = 0"
  using assms Uint64_unat [of x] Uint64_small [of x] sint_eq_uint_u64 [of "Uint64 x"]
  by (auto simp: unat_eq_0 [symmetric])

lemma bigModExp_Run_eq:
  assumes "length inp < 2 ^ 62" "me_len inp 0 \<le> 2 ^ 48" "me_len inp 1 \<le> 2 ^ 48" "me_len inp 2 \<le> 2 ^ 48"
  defines "bl \<equiv> nat (me_len inp 0)" and "el \<equiv> nat (me_len inp 1)" and "ml \<equiv> nat (me_len inp 2)"
  shows "bigModExp_Run inp = Some (Some (be_bytes ml
    (if me_num inp (bl + el) ml = 0 then 0 else me_num inp 0 bl ^ nat (me_num inp bl el) mod me_num inp (bl + el) ml)), None)"
proof -
  have s62: "x < 2 ^ 62" if "x \<le> 2 ^ 48" for x :: int using that by simp
  note u = u64_of_len [OF me_len_nonneg s62 [OF assms(2)]] u64_of_len [OF me_len_nonneg s62 [OF assms(3)]]
    u64_of_len [OF me_len_nonneg s62 [OF assms(4)]]
  have d: "getData (drop 96 inp) s (Uint64 (me_len inp k)) = Some (window (drop 96 inp) (unat s) (nat (me_len inp k)))"
    if "me_len inp k \<le> 2 ^ 48" for s k
    using that assms(1) by (subst getData_window) (simp_all add: u64_of_len [OF _ s62])
  have be: "unat (Uint64 (me_len inp 0) + Uint64 (me_len inp 1)) = bl + el"
    using assms(2,3) by (subst unat_add_no_wrap) (simp_all add: u bl_def el_def nat_less_iff del: One_nat_def)
  define M where "M = me_num inp (bl + el) ml"
  have M: "0 \<le> M" "M < 256 ^ ml" by (simp_all add: M_def me_num_bounds)
  have m48: "int ml \<le> 2 ^ 48" using assms(4) by (simp add: ml_def)
  have pad: "LeftPadBytes (big_Bytes (x mod M)) (int ml) = Some (be_bytes ml (x mod M))" if "M \<noteq> 0" for x
    using M that m48 by (intro LeftPad_big_Bytes) (auto intro: order_less_trans [OF pos_mod_bound])
  have pad0: "LeftPadBytes [] (int ml) = Some (be_bytes ml 0)"
    using LeftPad_big_Bytes [of 0 ml, OF _ _ m48] by (simp add: big_Bytes_def)
  note d = d [OF assms(2), of 0] d [OF assms(3), of "Uint64 (me_len inp 0)"]
    d [OF assms(4), of "Uint64 (me_len inp 0) + Uint64 (me_len inp 1)"]
  have ml: "sint (Uint64 (me_len inp 2)) = int ml" "me_len inp 2 = 0 \<longleftrightarrow> ml = 0" "me_len inp 0 = 0 \<longleftrightarrow> bl = 0"
    using u(8) by (simp_all add: ml_def bl_def order_antisym_conv)
  have "bigModExp_Run inp = (if bl = 0 \<and> ml = 0 then Some (Some [], None)
    else if M = 0 then do { ret \<leftarrow> LeftPadBytes [] (int ml); Some (Some ret, None) }
    else do { ret \<leftarrow> LeftPadBytes (big_Bytes (mod_exp (me_num inp 0 bl) (nat (me_num inp bl el)) M)) (int ml); Some (Some ret, None) })"
    unfolding bigModExp_Run_def modexp_lens_eq [OF assms(1)] Let_def bind.simps prod.case d
    by (simp add: u ml be me_num_def M_def bl_def el_def ml_def del: One_nat_def)
  then show ?thesis using M pad pad0 by (auto simp: mod_exp_eq M_def [symmetric])
qed


subsection \<open>Precompiled contracts return\<close>

text \<open>
  The contract of a precompiled contract: the price is always computed, and once a price below \<open>2 ^ 45\<close> is
  paid the run returns a short result.
\<close>

definition pre_ok :: "PrecompiledContract \<Rightarrow> bool" where
  "pre_ok p \<longleftrightarrow> (\<forall>input. length (sl input) < 2 ^ 62 \<longrightarrow>
     (\<exists>gas. RequiredGas p (sl input) = Some gas \<and>
       (unat gas < 2 ^ 45 \<longrightarrow> (\<exists>ret err. pc_Run p input = Some (ret, err) \<and> length (sl ret) < 2 ^ 62))))"

text \<open>
  What the machine relies on of the cryptographic functions: short results, and public keys that are not
  empty.
\<close>

definition crypto_ok :: "crypto \<Rightarrow> bool" where
  "crypto_ok cr \<longleftrightarrow>
     (\<forall>x. length (sha256_Sum cr x) < 2 ^ 62) \<and> (\<forall>x. length (ripemd160_Sum cr x) < 2 ^ 62)
     \<and> (\<forall>x. length (G1_Marshal cr x) < 2 ^ 62) \<and> (\<forall>x y k. Ecrecover cr x y = Inr k \<longrightarrow> k \<noteq> [])"

lemma pre_ok_ecrecover:
  assumes "crypto_ok cr"
  shows "pre_ok (ecrecover cr kec)"
proof -
  have "\<exists>ret err. pc_Run (ecrecover cr kec) input = Some (ret, err) \<and> length (sl ret) < 2 ^ 62" for input
  proof -
    obtain inp where inp: "RightPadBytes (sl input) 128 = Some inp" and l: "128 \<le> length inp"
      by (simp add: RightPadBytes_Some)
    have k: "1 \<le> length key" if "Ecrecover cr x y = Inr key" for x y key
      using assms that unfolding crypto_ok_def by (metis One_nat_def Suc_leI length_greater_0_conv)
    show ?thesis using l
      by (auto simp: ecrecover_def ecrecover_Run_def inp slice_Some Let_def LeftPadBytes_Some hash_Bytes_def
          split: sum.split dest!: k)
  qed
  then show ?thesis by (simp add: pre_ok_def) (simp add: ecrecover_def)
qed

lemma pre_ok_hashes:
  assumes "crypto_ok cr"
  shows "pre_ok (sha256hash cr)" "pre_ok (ripemd160hash cr)" "pre_ok dataCopy"
proof -
  have pad: "32 - n + n < 2 ^ 62" if "n < 2 ^ 62" for n :: nat using that by simp
  show "pre_ok (sha256hash cr)" "pre_ok (ripemd160hash cr)" "pre_ok dataCopy"
    using assms pad by (auto simp: pre_ok_def crypto_ok_def sha256hash_def ripemd160hash_def dataCopy_def LeftPadBytes_Some)
qed

lemma pre_ok_bn256:
  assumes "crypto_ok cr"
  shows "pre_ok (bn256Add cr)" "pre_ok (bn256ScalarMul cr)"
  using assms
  by (auto simp: pre_ok_def crypto_ok_def bn256Add_def bn256ScalarMul_def getData_window split: sum.split)

lemma pairing_points_total:
  "length input mod 192 = 0 \<Longrightarrow> \<exists>r. pairing_points cr input cs ts = Some r"
proof (induction cr input cs ts rule: pairing_points.induct)
  case (1 cr input cs ts)
  show ?case
  proof (cases "input = []")
    case True
    then show ?thesis by (subst pairing_points.simps) simp
  next
    case False
    then have l: "192 \<le> length input" using 1(2) by (metis length_0_conv linorder_not_less mod_less)
    have sl: "slice input 0 64 = Some (take 64 input)" "slice input 64 192 = Some (take 128 (drop 64 input))"
      using l by (simp_all add: slice_def)
    have "length (drop 192 input) mod 192 = 0" using 1(2) l by (simp add: le_mod_geq [symmetric])
    then show ?thesis using 1(1) [OF False _ _ _ _] sl False
      by (subst pairing_points.simps) (auto split: sum.split)
  qed
qed

lemma pre_ok_pairing: "pre_ok (bn256Pairing cr)"
proof -
  have "\<exists>ret err. pc_Run (bn256Pairing cr) input = Some (ret, err) \<and> length (sl ret) < 2 ^ 62" for input
  proof (cases "length (sl input) mod 192 = 0")
    case True
    obtain r where "pairing_points cr (sl input) [] [] = Some r" using pairing_points_total [OF True] ..
    then show ?thesis using True
      by (auto simp: bn256Pairing_def true32Byte_def false32Byte_def split: sum.split)
  qed (simp add: bn256Pairing_def)
  then show ?thesis by (simp add: pre_ok_def) (simp add: bn256Pairing_def)
qed


subsubsection \<open>The price of \<open>bigModExp\<close> bounds its lengths\<close>

definition me_mult :: "int \<Rightarrow> int" where
  "me_mult x = (if x \<le> 64 then x * x
     else if x \<le> 1024 then x * x div 4 + (96 * x - 3072) else x * x div 16 + (480 * x - 199680))"

lemma me_mult_ge:
  assumes "0 \<le> x"
  shows "x * x div 16 \<le> me_mult x" "0 < x \<Longrightarrow> 1 \<le> me_mult x"
proof -
  define y where "y = x * x"
  have y: "0 \<le> y" "0 \<le> y div 16" "y div 16 \<le> y div 4" "y div 4 \<le> y"
    by (simp_all add: y_def zdiv_mono2 int_div_less_self pos_imp_zdiv_nonneg_iff)
       (metis zdiv_mono2 [of "x * x" 1 4] div_by_1 zero_le_square zero_less_one one_le_numeral)
  show "x * x div 16 \<le> me_mult x"
    unfolding me_mult_def y_def [symmetric] using y by (simp split: if_split)
  assume "0 < x"
  then have "1 \<le> y" using mult_mono [of 1 x 1 x] by (simp add: y_def)
  then show "1 \<le> me_mult x"
    unfolding me_mult_def y_def [symmetric] using y by (simp split: if_split)
qed

lemma BigMax_max: "BigMax x y = max x y"
  by (simp add: BigMax_def max_def)

definition me_adj :: "bytes \<Rightarrow> int" where
  "me_adj inp =
     (let baseLen = me_len inp 0; expLen = me_len inp 1;
          expHead = (if int (length (drop 96 inp)) \<le> baseLen then 0 else me_num inp (nat baseLen) (nat (min expLen 32)))
      in (if expLen > 32 then 8 * (expLen - 32) else 0) + (if BitLen expHead > 0 then int (BitLen expHead) - 1 else 0))"

lemma bigModExp_RequiredGas_eq:
  assumes "length inp < 2 ^ 62"
  defines "G \<equiv> me_mult (max (me_len inp 2) (me_len inp 0)) * max (me_adj inp) 1 div 20"
  shows "bigModExp_RequiredGas inp = Some (if BitLen G > 64 then MaxUint64 else Uint64 G)"
proof -
  define rest where "rest = drop 96 inp"
  define bl where "bl = me_len inp 0"
  define el where "el = me_len inp 1"
  have quad: "uint ModExpQuadCoeffDiv = 20" by (simp add: ModExpQuadCoeffDiv_def)
  have len: "length rest < 2 ^ 62" using assms(1) by (simp add: rest_def)
  have nn: "0 \<le> bl" "0 \<le> el" by (simp_all add: bl_def el_def)
  have head: "(if int (length rest) \<le> bl then Some 0
       else if el > 32 then map_option SetBytes (getData rest (Uint64 bl) 32)
       else map_option SetBytes (getData rest (Uint64 bl) (Uint64 el))) =
     Some (if int (length rest) \<le> bl then 0 else me_num inp (nat bl) (nat (min el 32)))"
  proof (cases "int (length rest) \<le> bl")
    case False
    then have b: "unat (Uint64 bl) = nat bl" using nn len by (intro Uint64_unat) simp_all
    show ?thesis
    proof (cases "el > 32")
      case True
      then show ?thesis using False len b by (simp add: getData_window me_num_def rest_def)
    next
      case small: False
      then have e: "unat (Uint64 el) = nat el" using nn by (intro Uint64_unat) simp_all
      have "nat el \<le> 32" using small by simp
      then show ?thesis using False small len b e nn by (simp add: getData_window me_num_def rest_def min_absorb1)
    qed
  qed simp
  show ?thesis
    unfolding bigModExp_RequiredGas_def modexp_lens_eq [OF assms(1)] bind.simps prod.case
      rest_def [symmetric] bl_def [symmetric] el_def [symmetric] head
    by (simp only: Let_def G_def me_mult_def me_adj_def rest_def bl_def el_def BigMax_max quad)
qed


lemma me_adj_ge: "8 * (me_len inp 1 - 32) \<le> me_adj inp"
  by (simp add: me_adj_def Let_def)

lemma bigModExp_lens_small:
  assumes "length inp < 2 ^ 62" "bigModExp_RequiredGas inp = Some gas" "unat gas < 2 ^ 45"
    and pos: "0 < me_len inp 2 \<or> 0 < me_len inp 0"
  shows "me_len inp 0 < 2 ^ 47" "me_len inp 1 < 2 ^ 47" "me_len inp 2 < 2 ^ 47"
proof -
  define x where "x = max (me_len inp 2) (me_len inp 0)"
  define A where "A = max (me_adj inp) 1"
  define G where "G = me_mult x * A div 20"
  have x: "0 < x" using pos by (auto simp: x_def)
  have m: "1 \<le> me_mult x" "x * x div 16 \<le> me_mult x" using me_mult_ge [of x] x by auto
  have A: "1 \<le> A" "8 * (me_len inp 1 - 32) \<le> A" using me_adj_ge [of inp] by (auto simp: A_def)
  have g: "gas = (if BitLen G > 64 then MaxUint64 else Uint64 G)"
    using bigModExp_RequiredGas_eq [OF assms(1)] assms(2) by (simp add: G_def x_def A_def)
  have "0 \<le> me_mult x * A" using m A by simp
  then have G0: "0 \<le> G" by (simp add: G_def pos_imp_zdiv_nonneg_iff)
  have nb: "\<not> BitLen G > 64" using assms(3) g unat_MaxUint64 by auto
  then have "G < 2 ^ 64" using G0 by (simp add: BitLen_gt_iff)
  then have "unat gas = nat G" using nb g G0 Uint64_unat [of G] by simp
  then have "G < 2 ^ 45" using assms(3) G0 by (simp add: nat_less_iff)
  then have p: "me_mult x * A < 20 * 2 ^ 45" by (simp add: G_def)
  have "A \<le> me_mult x * A" "me_mult x \<le> me_mult x * A"
    using m(1) A(1) mult_right_mono [of 1 "me_mult x" A] mult_left_mono [of 1 A "me_mult x"] by auto
  then have "A < 20 * 2 ^ 45" "x * x div 16 < 20 * 2 ^ 45" using p m(2) by auto
  then show "me_len inp 1 < 2 ^ 47" using A(2) by simp
  have "x < 2 ^ 47"
  proof (rule ccontr)
    assume "\<not> x < 2 ^ 47"
    then have "(2 ^ 47 :: int) * 2 ^ 47 \<le> x * x" by (intro mult_mono) auto
    then show False using \<open>x * x div 16 < 20 * 2 ^ 45\<close> by simp
  qed
  then show "me_len inp 0 < 2 ^ 47" "me_len inp 2 < 2 ^ 47" by (auto simp: x_def)
qed

lemma pre_ok_bigModExp: "pre_ok bigModExp"
proof -
  have "\<exists>ret err. bigModExp_Run inp = Some (ret, err) \<and> length (sl ret) < 2 ^ 62"
    if len: "length inp < 2 ^ 62" and g: "bigModExp_RequiredGas inp = Some gas" "unat gas < 2 ^ 45" for inp gas
  proof (cases "0 < me_len inp 2 \<or> 0 < me_len inp 0")
    case True
    note b = bigModExp_lens_small [OF len g True]
    show ?thesis using bigModExp_Run_eq [OF len] b by (simp add: nat_less_iff)
  next
    case False
    then have "me_len inp 2 = 0" "me_len inp 0 = 0" by (auto simp: order_antisym_conv linorder_not_less)
    then show ?thesis by (simp add: bigModExp_Run_def modexp_lens_eq [OF len] Uint64_def)
  qed
  then show ?thesis using bigModExp_RequiredGas_eq by (fastforce simp: pre_ok_def bigModExp_def)
qed

text \<open>\<open>RunPrecompiledContract\<close> returns, and only ever takes gas.\<close>

lemma RunPrecompiled_total:
  assumes "pre_ok p" "length (sl input) < 2 ^ 62" "unat (c_Gas c) < 2 ^ 45"
  obtains ret err g where "RunPrecompiledContract p input c = Some ((ret, err), c\<lparr>c_Gas := g\<rparr>)"
    "g \<le> c_Gas c" "length (sl ret) < 2 ^ 62"
proof -
  obtain gas where gas: "RequiredGas p (sl input) = Some gas"
    "unat gas < 2 ^ 45 \<Longrightarrow> \<exists>ret err. pc_Run p input = Some (ret, err) \<and> length (sl ret) < 2 ^ 62"
    using assms(1,2) unfolding pre_ok_def by blast
  show ?thesis
  proof (cases "c_Gas c < gas")
    case True
    then show ?thesis using that [of None "Some ErrOutOfGas" "c_Gas c"] gas(1)
      by (simp add: RunPrecompiledContract_def UseGas_def)
  next
    case False
    then have le: "gas \<le> c_Gas c" by simp
    then have "unat gas < 2 ^ 45" using assms(3) by (simp add: word_le_nat_alt)
    then obtain ret err where "pc_Run p input = Some (ret, err)" "length (sl ret) < 2 ^ 62" using gas(2) by blast
    moreover have "c_Gas c - gas \<le> c_Gas c" using le by (simp add: word_le_nat_alt unat_sub_no_wrap)
    ultimately show ?thesis using that [of ret err "c_Gas c - gas"] gas(1) False
      by (simp add: RunPrecompiledContract_def UseGas_def)
  qed
qed


lemma pre_ok_precompiles:
  assumes "crypto_ok (evm_crypto evm)" "precompiles evm a = Some p"
  shows "pre_ok p"
  using assms pre_ok_ecrecover [OF assms(1)] pre_ok_hashes [OF assms(1)] pre_ok_bn256 [OF assms(1)]
    pre_ok_pairing pre_ok_bigModExp
  by (auto simp: precompiles_def PrecompiledContractsByzantium_def PrecompiledContractsHomestead_def
      split: if_splits)

subsection \<open>Properties\<close>



text \<open>C17. The length arithmetic of \<open>bigModExp\<close> can wrap: with an exponent length of \<open>2 ^ 64 - 1\<close> and a base of
  one byte, \<open>getData\<close> slices from one to zero and the node panics. The price of such a call is below \<open>2 ^ 63\<close>,
  the largest gas limit a block header may carry.\<close>

theorem bigModExp_panics:
  assumes "rest \<noteq> []" "length rest < 2 ^ 60"
  defines "inp \<equiv> be_bytes 32 1 @ be_bytes 32 (2 ^ 64 - 1) @ be_bytes 32 0 @ rest"
  shows "bigModExp_Run inp = None \<and> (\<exists>gas. bigModExp_RequiredGas inp = Some gas \<and> unat gas < 2 ^ 63)"
proof -
  have len: "length inp < 2 ^ 62" using assms(2) by (simp add: inp_def)
  have l: "me_len inp 0 = 1" "me_len inp 1 = 2 ^ 64 - 1" "me_len inp 2 = 0" "drop 96 inp = rest"
    by (simp_all add: inp_def me_len_def window_def SetBytes_be_bytes)
  have u: "Uint64 1 = 1" "Uint64 0 = 0" "Uint64 (2 ^ 64 - 1) = - 1"
    by (simp_all add: Uint64_def)
  have r: "\<not> (1 :: u64) > of_nat (length rest)"
    using assms(1,2) by (simp add: word_less_nat_alt unat_of_nat_u64)
  have "getData rest 1 (- 1) = None"
    using r by (simp only: getData_def Let_def if_False) (simp add: slice_def)
  then have "bigModExp_Run inp = None"
    using assms(2) by (simp add: bigModExp_Run_def modexp_lens_eq [OF len] l u u(3) [simplified] getData_window Let_def del: One_nat_def)
  moreover have "\<exists>gas. bigModExp_RequiredGas inp = Some gas \<and> unat gas < 2 ^ 63"
  proof -
    define b where "b = BitLen (if int (length rest) \<le> 1 then 0 else me_num inp 1 32)"
    have "b \<le> 256"
      using me_num_bounds [of inp 1 32] by (auto simp: b_def BitLen_le_iff)
    define A where "A = 8 * (2 ^ 64 - 33) + (if b > 0 then int b - 1 else 0)"
    have A: "0 \<le> A" "A < 8 * 2 ^ 64" using \<open>b \<le> 256\<close> by (auto simp: A_def)
    have "me_adj inp = A" using l(2) [unfolded One_nat_def] by (auto simp: me_adj_def Let_def l(1,3,4) b_def A_def BitLen_0_iff [THEN iffD2, OF refl])
    then have "bigModExp_RequiredGas inp = Some (if BitLen (A div 20) > 64 then MaxUint64 else Uint64 (A div 20))"
      using bigModExp_RequiredGas_eq [OF len] A(1) \<open>b \<le> 256\<close> by (simp add: l me_mult_def A_def max_def)
    moreover have "0 \<le> A div 20" "A div 20 < 2 ^ 63" using A by auto
    ultimately show ?thesis using Uint64_unat [of "A div 20"] by (simp add: BitLen_gt_iff nat_less_iff)
  qed
  ultimately show ?thesis ..
qed


theorem bigModExp_panics_witness:
  "bigModExp_Run (be_bytes 32 1 @ be_bytes 32 (2 ^ 64 - 1) @ be_bytes 32 0 @ [7]) = None"
  using bigModExp_panics [of "[7]"] by simp

text \<open>C18. The price of \<open>bigModExp\<close> does not keep it from asking for more memory than the address space has: an exponent of
  \<open>2 ^ 48 + 1\<close> bytes to base and modulus of one byte costs less than \<open>2 ^ 47\<close> gas, and \<open>make\<close> in \<open>RightPadBytes\<close> panics.\<close>

theorem bigModExp_make_panics:
  assumes "length rest < 2 ^ 48"
  defines "inp \<equiv> be_bytes 32 1 @ be_bytes 32 (2 ^ 48 + 1) @ be_bytes 32 1 @ rest"
  shows "bigModExp_Run inp = None \<and> (\<exists>gas. bigModExp_RequiredGas inp = Some gas \<and> unat gas < 2 ^ 47)"
proof -
  have len: "length inp < 2 ^ 62" using assms(1) by (simp add: inp_def)
  have l: "me_len inp 0 = 1" "me_len inp 1 = 2 ^ 48 + 1" "me_len inp 2 = 1" "drop 96 inp = rest"
    by (simp_all add: inp_def me_len_def window_def SetBytes_be_bytes)
  have u: "Uint64 1 = 1" "Uint64 (2 ^ 48 + 1) = 2 ^ 48 + 1" by (simp_all add: Uint64_def)
  have "getData rest 0 1 \<noteq> None" using assms(1) by (simp add: getData_window)
  moreover have "getData rest 1 (2 ^ 48 + 1) = None" using assms(1) by (intro getData_None) simp_all
  ultimately have "bigModExp_Run inp = None"
    by (auto simp: bigModExp_Run_def modexp_lens_eq [OF len] l u u(2) [simplified] Let_def simp del: One_nat_def)
  moreover have "\<exists>gas. bigModExp_RequiredGas inp = Some gas \<and> unat gas < 2 ^ 47"
  proof -
    have h: "BitLen (me_num inp 1 32) \<le> 256" using me_num_bounds [of inp 1 32] by (simp add: BitLen_le_iff)
    have A: "0 \<le> me_adj inp" "me_adj inp < 8 * (2 ^ 48 + 1)"
      using h l(2) [unfolded One_nat_def] by (auto simp: me_adj_def Let_def l(1,4) BitLen_0_iff [THEN iffD2, OF refl])
    define G where "G = max (me_adj inp) 1 div 20"
    have G: "0 \<le> G" "G < 2 ^ 47" using A by (auto simp: G_def)
    have "bigModExp_RequiredGas inp = Some (if BitLen G > 64 then MaxUint64 else Uint64 G)"
      using bigModExp_RequiredGas_eq [OF len] by (simp add: l me_mult_def G_def)
    then show ?thesis using G Uint64_unat [of G] by (simp add: BitLen_gt_iff nat_less_iff)
  qed
  ultimately show ?thesis ..
qed

theorem bigModExp_make_panics_witness:
  "bigModExp_Run (be_bytes 32 1 @ be_bytes 32 (2 ^ 48 + 1) @ be_bytes 32 1 @ [7, 1]) = None"
  using bigModExp_make_panics [of "[7, 1]"] by simp

subsection \<open>The input of \<open>ecrecover\<close>\<close>

text \<open>With more than 128 bytes of input and values that can be a signature, \<open>ecrecover\<close> overwrites byte 128 of its caller's slice.\<close>

lemma ecrecover_overwrites:
  assumes "ecrecover_Run cr kec inp = Some (r, inp')" "128 < length inp" "allZero (take 31 (drop 32 inp))"
    "ValidateSignatureValues (inp ! 63 - 27) (SetBytes (take 32 (drop 64 inp))) (SetBytes (take 32 (drop 96 inp))) False"
  shows "inp' = inp[128 := inp ! 63 - 27]"
proof -
  have "RightPadBytes inp 128 = Some inp" using assms(2) by (simp add: RightPadBytes_def)
  then show ?thesis using assms
    by (auto simp: ecrecover_Run_def slice_Some Let_def split: sum.splits elim!: bind_SomeE)
qed

end
