(* ===== verification/Machine_Inv.thy ===== *)
theory Machine_Inv
  imports State_Transition State_View Precompile_Props
begin

text \<open>
  The invariants of the machine, and that every operation of the database, every gas function and every
  instruction keeps them without a panic.
\<close>

declare option.case_cong [cong] sum.case_cong [cong]

subsection \<open>The database\<close>

text \<open>
  Balances are not negative, code is short enough to be indexed, and a code hash is the hash of the code.
\<close>

definition acct_ok :: "(bytes \<Rightarrow> hash) \<Rightarrow> 't acct \<Rightarrow> bool" where
  "acct_ok kec v \<longleftrightarrow> 0 \<le> v_balance v \<and> length (sl (v_code v)) < 2 ^ 62
     \<and> (sl (v_code v) \<noteq> [] \<longrightarrow> BytesToHash (v_codehash v) = kec (sl (v_code v)))"

definition world_ok :: "(bytes \<Rightarrow> hash) \<Rightarrow> 't world \<Rightarrow> bool" where
  "world_ok kec w \<longleftrightarrow> (\<forall>a v. accounts w a = Some v \<longrightarrow> acct_ok kec v)"

definition db_ok :: "'t StateDB \<Rightarrow> bool" where
  "db_ok s \<longleftrightarrow> state_ok s \<and> journal_ok s \<and> world_ok (keccak256 (sdb_db s)) (world_of s)"

text \<open>All the balances together; an account that does not exist has none.\<close>

definition total_balance :: "'t StateDB \<Rightarrow> int" where
  "total_balance s = (\<Sum>a \<in> UNIV. v_balance (acct (sdb_db s) (world_of s) a))"

text \<open>
  A good database that can be rolled back to an earlier one, \<open>db_ext\<close>, and holds no more money than it,
  \<open>db_to\<close>.
\<close>

definition db_ext :: "'t StateDB \<Rightarrow> 't StateDB \<Rightarrow> bool" where
  "db_ext s s' \<longleftrightarrow> extends s s' \<and> db_ok s'"

definition db_to :: "'t StateDB \<Rightarrow> 't StateDB \<Rightarrow> bool" where
  "db_to s s' \<longleftrightarrow> db_ext s s' \<and> total_balance s' \<le> total_balance s"

lemma db_okD:
  assumes "db_ok s"
  shows "state_ok s" "journal_ok s" "world_ok (keccak256 (sdb_db s)) (world_of s)" "host_ok (sdb_db s)"
  using assms by (simp_all add: db_ok_def state_ok_def)

lemma db_extD:
  assumes "db_ext s s'"
  shows "extends s s'" "db_ok s'" "sdb_db s' = sdb_db s"
  using assms by (simp_all add: db_ext_def extends_def)

lemma db_toD:
  assumes "db_to s s'"
  shows "extends s s'" "db_ok s'" "sdb_db s' = sdb_db s" "total_balance s' \<le> total_balance s"
  using assms db_extD by (auto simp: db_to_def)

lemma db_ext_refl [simp]: "db_ok s \<Longrightarrow> db_ext s s"
  by (simp add: db_ext_def db_okD extends_refl)

lemma db_to_refl [simp]: "db_ok s \<Longrightarrow> db_to s s"
  by (simp add: db_to_def)

lemma db_ext_trans [trans]: "db_ext s s1 \<Longrightarrow> db_ext s1 s2 \<Longrightarrow> db_ext s s2"
  by (auto simp: db_ext_def intro: extends_trans)

lemma db_to_trans [trans]: "db_to s s1 \<Longrightarrow> db_to s1 s2 \<Longrightarrow> db_to s s2"
  by (auto simp: db_to_def intro: db_ext_trans)

lemma total_accounts:
  "sdb_db s' = sdb_db s \<Longrightarrow> accounts (world_of s') = accounts (world_of s) \<Longrightarrow> total_balance s' = total_balance s"
  by (simp add: total_balance_def acct_def)

lemma total_put:
  assumes "sdb_db s' = sdb_db s" "world_of s' = w_put a v (world_of s)"
  shows "total_balance s' = total_balance s - v_balance (acct (sdb_db s) (world_of s) a) + v_balance v"
proof -
  define b where "b = (\<lambda>x. v_balance (acct (sdb_db s) (world_of s) x))"
  have "v_balance (acct (sdb_db s) (w_put a v (world_of s)) x) = (b(a := v_balance v)) x" for x
    by (simp add: acct_def b_def)
  then have "total_balance s' = sum (b(a := v_balance v)) UNIV" using assms by (simp add: total_balance_def)
  also have "\<dots> = v_balance v + sum b (UNIV - {a})" by (subst sum.remove [of _ a]) simp_all
  also have "sum b (UNIV - {a}) = sum b UNIV - b a" by (simp add: sum_diff1)
  finally show ?thesis by (simp add: total_balance_def b_def)
qed

lemma db_to_cached: "db_ok s \<Longrightarrow> cached s s' \<Longrightarrow> db_to s s'"
  by (auto simp: db_to_def db_ext_def db_ok_def cached_def intro: extends_cached journal_ok_cong
      simp: extends_def intro!: eq_refl total_accounts)

lemma db_ext_world:
  assumes "db_ok s" "extends s s'" "world_ok (keccak256 (sdb_db s)) (world_of s')"
  shows "db_ext s s'"
  using assms extendsD [OF assms(2)] by (simp add: db_ext_def db_ok_def)

text \<open>A change beside the accounts.\<close>

lemma db_to_accounts:
  assumes "db_ok s" "extends s s'" "accounts (world_of s') = accounts (world_of s)"
  shows "db_to s s'"
proof -
  have "world_ok (keccak256 (sdb_db s)) (world_of s')"
    using db_okD(3) [OF assms(1)] by (simp add: world_ok_def assms(3) del: world_of_sel)
  with assms show ?thesis
    using total_accounts [OF _ assms(3)] db_ext_world by (simp add: db_to_def extends_def)
qed

lemma world_ok_accounts: "accounts w' = accounts w \<Longrightarrow> world_ok kec w \<Longrightarrow> world_ok kec w'"
  by (simp add: world_ok_def)

lemma world_ok_put: "world_ok kec w \<Longrightarrow> acct_ok kec v \<Longrightarrow> world_ok kec (w_put a v w)"
  by (simp add: world_ok_def)

lemma acct_ok_blank: "host_ok h \<Longrightarrow> acct_ok kec (blank h a)"
  by (simp add: acct_ok_def blank_sel)

lemma acct_ok_acct: "host_ok h \<Longrightarrow> world_ok kec w \<Longrightarrow> acct_ok kec (acct h w a)"
  by (auto simp: acct_def acct_ok_blank world_ok_def split: option.split)

lemma world_ok_modify:
  assumes "host_ok h" "world_ok kec w" "\<And>v. acct_ok kec v \<Longrightarrow> v = acct h w a \<Longrightarrow> acct_ok kec (f v)"
  shows "world_ok kec (w_modify h a f w)"
  unfolding w_modify_def using assms acct_ok_acct by (blast intro: world_ok_put)

subsubsection \<open>Reads\<close>

lemma db_to_gets:
  assumes "db_ok s"
  shows "db_to s (snd (Exist a s))" "db_to s (snd (Empty a s))" "db_to s (snd (GetBalance a s))"
    "db_to s (snd (GetNonce a s))" "db_to s (snd (GetCodeHash a s))" "db_to s (snd (GetCode a s))"
    "db_to s (snd (GetCodeSize a s))" "db_to s (snd (HasSuicided a s))"
  using assms db_okD(1) [OF assms]
  by (auto intro!: db_to_cached Exist_view(2) Empty_view(2) GetBalance_view(2) GetNonce_view(2) GetCodeHash_view(2)
      GetCode_view(2) GetCodeSize_view(2) HasSuicided_view(2))

lemma GetBalance_nonneg: "db_ok s \<Longrightarrow> 0 \<le> fst (GetBalance a s)"
  by (auto simp: GetBalance_view(1) db_okD world_ok_def acct_ok_def split: option.split
      dest!: db_okD(3) simp del: world_of_sel)

lemma GetBalance_pair: "GetBalance a s = (b, s') \<Longrightarrow> db_ok s \<Longrightarrow> 0 \<le> b \<and> db_to s s'"
  using GetBalance_nonneg [of s a] db_to_gets(3) [of s a] by simp

lemma GetState_total:
  assumes "db_ok s"
  obtains x s' where "GetState a k s = Some (x, s')" "db_to s s'"
  using GetState_Some [OF db_okD(1) [OF assms], of a k] db_to_cached [OF assms] by metis

subsubsection \<open>Writes\<close>

text \<open>One account changes.\<close>

lemma db_ext_put:
  assumes "db_ok s" "extends s s'" "world_of s' = w_put a v (world_of s)" "acct_ok (keccak256 (sdb_db s)) v"
  shows "db_ext s s'" "total_balance s' = total_balance s - v_balance (acct (sdb_db s) (world_of s) a) + v_balance v"
proof -
  show "db_ext s s'" using assms db_okD(3) [OF assms(1)] by (intro db_ext_world) (simp_all add: world_ok_put)
  show "total_balance s' = total_balance s - v_balance (acct (sdb_db s) (world_of s) a) + v_balance v"
    using assms(2,3) by (intro total_put) (simp_all add: extends_def)
qed

lemma db_ext_modify:
  assumes "db_ok s" "extends s s'" "world_of s' = w_modify (sdb_db s) a f (world_of s)" "v = acct (sdb_db s) (world_of s) a"
    and "acct_ok (keccak256 (sdb_db s)) v \<Longrightarrow> acct_ok (keccak256 (sdb_db s)) (f v)"
  shows "db_ext s s'" "total_balance s' = total_balance s - v_balance v + v_balance (f v)"
  using db_ext_put [OF assms(1,2) assms(3) [unfolded w_modify_def]] assms(4,5) acct_ok_acct [OF db_okD(4,3) [OF assms(1)]]
  by simp_all

lemma db_to_modify:
  assumes "db_ok s" "extends s s'" "world_of s' = w_modify (sdb_db s) a f (world_of s)"
    and "\<And>v. acct_ok (keccak256 (sdb_db s)) v \<Longrightarrow> acct_ok (keccak256 (sdb_db s)) (f v)" "\<And>v. v_balance (f v) \<le> v_balance v"
  shows "db_to s s'"
  using db_ext_modify [OF assms(1-3) refl assms(4)] assms(5) by (simp add: db_to_def)

lemma SetState_total:
  assumes "db_ok s"
  obtains s' where "SetState a k x s = Some s'" "db_to s s'"
proof -
  obtain s' where s': "SetState a k x s = Some s'" "extends s s'"
    "world_of s' = w_modify (sdb_db s) a (\<lambda>v. v\<lparr>v_state := (v_state v)(k := Some x)\<rparr>) (world_of s)"
    by (rule SetState_Some [OF db_okD(1,2) [OF assms]])
  have "db_to s s'" by (rule db_to_modify [OF assms s'(2,3)]) (auto simp: acct_ok_def)
  then show ?thesis using that s' by blast
qed

lemma db_ext_AddBalance:
  assumes "db_ok s" "0 \<le> x"
  shows "db_ext s (AddBalance a x s)" "total_balance (AddBalance a x s) = total_balance s + x"
  using db_ext_modify [OF assms(1) AddBalance_view [OF db_okD(1,2) [OF assms(1)]] refl] assms(2)
  by (simp_all add: acct_ok_def)

lemma GetBalance_acct:
  assumes "db_ok s"
  shows "fst (GetBalance a s) = v_balance (acct (sdb_db s) (world_of s) a)"
  using blank_sel(2) [OF db_okD(4) [OF assms]]
  by (simp add: GetBalance_view(1) [OF db_okD(1) [OF assms]] acct_def del: world_of_sel split: option.splits)

lemma db_to_SubBalance:
  assumes "db_ok s" "0 \<le> x" "x \<le> fst (GetBalance a s)"
  shows "db_to s (SubBalance a x s)" "total_balance (SubBalance a x s) = total_balance s - x"
proof -
  have x: "x \<le> v_balance (acct (sdb_db s) (world_of s) a)" using assms(3) by (simp add: GetBalance_acct [OF assms(1)])
  note m = db_ext_modify [OF assms(1) SubBalance_view [OF db_okD(1,2) [OF assms(1)]] refl]
  show "total_balance (SubBalance a x s) = total_balance s - x" using m(2) [of a x] x by (simp add: acct_ok_def)
  then show "db_to s (SubBalance a x s)" using m(1) [of a x] x assms(2) by (simp add: db_to_def acct_ok_def)
qed

lemma db_to_SetNonce: "db_ok s \<Longrightarrow> db_to s (SetNonce a n s)"
  by (rule db_to_modify [OF _ SetNonce_view]) (auto simp: db_okD acct_ok_def)

lemma db_to_SetCode:
  assumes "db_ok s" "length (sl co) < 2 ^ 62"
  shows "db_to s (SetCode a co s)"
proof (rule db_to_modify [OF assms(1) SetCode_view [OF db_okD(1,2) [OF assms(1)]]])
  fix v :: "'a acct"
  have "BytesToHash (hash_Bytes h) = h" for h :: hash
    by (metis BytesToHash_eq hash_Big_def hash_Big_eq word_of_int_uint)
  then show "acct_ok (keccak256 (sdb_db s))
      (v\<lparr>v_codehash := hash_Bytes (keccak256 (sdb_db s) (case co of None \<Rightarrow> [] | Some c \<Rightarrow> c)), v_code := co\<rparr>)"
    if "acct_ok (keccak256 (sdb_db s)) v"
    using that assms(2) by (auto simp: acct_ok_def sl_def split: option.split)
qed simp

lemma db_to_CreateAccount:
  assumes "db_ok s"
  shows "db_to s (CreateAccount a s)"
proof -
  note ok = db_okD [OF assms]
  have "acct_ok (keccak256 (sdb_db s)) ((blank (sdb_db s) a)\<lparr>v_balance := v_balance (acct (sdb_db s) (world_of s) a)\<rparr>)"
    using acct_ok_acct [OF ok(4,3), of a] acct_ok_blank [OF ok(4), of "keccak256 (sdb_db s)" a] by (auto simp: acct_ok_def)
  from db_ext_put [OF assms CreateAccount_view [OF ok(1,2)] this] show ?thesis by (simp add: db_to_def)
qed

lemma db_to_Suicide:
  assumes "db_ok s"
  shows "db_to s (snd (Suicide a s))" "total_balance (snd (Suicide a s)) = total_balance s - fst (GetBalance a s)"
proof -
  note ok = db_okD [OF assms] and v = Suicide_view(2,3) [OF db_okD(1,2) [OF assms], of a]
  have "db_ext s (snd (Suicide a s)) \<and> total_balance (snd (Suicide a s)) = total_balance s - fst (GetBalance a s)"
  proof (cases "accounts (world_of s) a")
    case None
    then have w: "world_of (snd (Suicide a s)) = world_of s" using v(2) by simp
    have "fst (GetBalance a s) = 0" using None by (simp add: GetBalance_view(1) [OF ok(1)] del: world_of_sel)
    then show ?thesis
      using db_ext_world [OF assms v(1)] ok(3) total_accounts [of "snd (Suicide a s)" s] w v(1) by (simp add: extends_def)
  next
    case (Some x)
    have "acct_ok (keccak256 (sdb_db s)) (x\<lparr>v_suicided := True, v_balance := 0\<rparr>)"
      using ok(3) Some by (auto simp: world_ok_def acct_ok_def simp del: world_of_sel)
    from db_ext_put [OF assms v(1) _ this, of a] Some v(2) show ?thesis
      by (simp add: GetBalance_acct [OF assms] del: world_of_sel)
  qed
  then show "db_to s (snd (Suicide a s))" "total_balance (snd (Suicide a s)) = total_balance s - fst (GetBalance a s)"
    using GetBalance_nonneg [OF assms, of a] by (simp_all add: db_to_def)
qed

lemma db_to_AddRefund: "db_ok s \<Longrightarrow> db_to s (AddRefund g s)"
  using AddRefund_view [of s g] by (intro db_to_accounts) (auto simp: db_okD(1,2) simp del: world_of_sel)

lemma db_to_AddPreimage: "db_ok s \<Longrightarrow> db_to s (AddPreimage h p s)"
  using AddPreimage_view [of s h p] by (intro db_to_accounts) (auto simp: db_okD(1,2) simp del: world_of_sel)

lemma db_to_AddLog: "db_ok s \<Longrightarrow> db_to s (AddLog l s)"
  using AddLog_view [of s l] by (intro db_to_accounts) (auto simp: db_okD(1,2) simp del: world_of_sel)

lemma db_to_Snapshot: "db_ok s \<Longrightarrow> db_to s (snd (Snapshot s))"
  using Snapshot_view [of s] by (intro db_to_accounts) (auto simp: db_okD)

text \<open>Whatever happened since a snapshot, reverting to it succeeds.\<close>

lemma db_to_Revert:
  assumes "db_ok s" "db_to (snd (Snapshot s)) s2"
  obtains s3 where "RevertToSnapshot (fst (Snapshot s)) s2 = Some s3" "db_to s s3" "world_of s3 = world_of s"
proof -
  note ok = db_okD [OF assms(1)]
  obtain s3 where s3: "RevertToSnapshot (nextRevisionId s) s2 = Some s3" "extends s s3" "world_of s3 = world_of s"
    by (rule RevertToSnapshot_view [OF ok(1,2) db_toD(1) [OF assms(2)]])
  then show ?thesis
    using that Snapshot_view(1) [OF ok(1,2)] db_to_accounts [OF assms(1) s3(2)] by simp
qed

text \<open>A transfer and a self-destruction move money and make none.\<close>

lemma db_to_Transfer:
  assumes "db_ok s" "0 \<le> x" "x \<le> fst (GetBalance a s)"
  shows "db_to s (kernel_Transfer s a b x)" "total_balance (kernel_Transfer s a b x) = total_balance s"
proof -
  note d = db_to_SubBalance [OF assms]
  note e = db_ext_AddBalance [OF db_toD(2) [OF d(1)] assms(2), of b]
  show "total_balance (kernel_Transfer s a b x) = total_balance s" using d(2) e(2) by (simp add: kernel_Transfer_def)
  then show "db_to s (kernel_Transfer s a b x)"
    using d(1) e(1) db_ext_trans by (auto simp: db_to_def kernel_Transfer_def)
qed

lemma db_to_selfdestruct:
  assumes "db_ok s"
  shows "db_to s (snd (Suicide a (AddBalance b (fst (GetBalance a s)) (snd (GetBalance a s)))))"
proof -
  define s1 where "s1 = snd (GetBalance a s)"
  define x where "x = fst (GetBalance a s)"
  have x: "0 \<le> x" by (simp add: x_def GetBalance_nonneg [OF assms])
  have s1: "db_to s s1" "world_of s1 = world_of s"
    using db_to_gets(3) [OF assms, of a] GetBalance_view(2) [OF db_okD(1) [OF assms], of a] by (simp_all add: s1_def cached_def)
  note ok1 = db_toD(2) [OF s1(1)]
  note e = db_ext_AddBalance [OF ok1 x, of b]
  note z = db_to_Suicide [OF db_extD(2) [OF e(1)], of a]
  have "x = v_balance (acct (sdb_db s1) (world_of s1) a)"
    using s1(2) db_toD(3) [OF s1(1)] by (simp add: x_def GetBalance_acct [OF assms])
  also have "\<dots> \<le> fst (GetBalance a (AddBalance b x s1))"
    using x db_extD(3) [OF e(1)]
    by (simp add: GetBalance_acct [OF db_extD(2) [OF e(1)]] AddBalance_view(2) [OF db_okD(1,2) [OF ok1]] w_modify_def acct_def
        del: world_of_sel)
  finally have "total_balance (snd (Suicide a (AddBalance b x s1))) \<le> total_balance s" using z(2) e(2) db_toD(4) [OF s1(1)] by simp
  moreover have "db_ext s (snd (Suicide a (AddBalance b x s1)))"
    using s1(1) e(1) z(1) db_ext_trans by (metis db_to_def)
  ultimately show ?thesis by (simp add: db_to_def x_def s1_def)
qed


subsubsection \<open>Quiet changes\<close>

text \<open>
  A quiet change shows in no balance, nonce, code, storage slot and log. An account that does not exist
  shows like a new one, which the code may create on the way.
\<close>

definition quiet :: "'t StateDB \<Rightarrow> 't StateDB \<Rightarrow> bool" where
  "quiet s s' \<longleftrightarrow>
     (\<forall>a. acct (sdb_db s) (world_of s') a = acct (sdb_db s) (world_of s) a) \<and> logs s' = logs s"

lemma quiet_refl [simp]: "quiet s s"
  by (simp add: quiet_def)

lemma quiet_trans [trans]: "db_to s s1 \<Longrightarrow> quiet s s1 \<Longrightarrow> quiet s1 s2 \<Longrightarrow> quiet s s2"
  by (simp add: quiet_def db_toD(3))

lemma quiet_world:
  "accounts (world_of s') = accounts (world_of s) \<Longrightarrow> logs s' = logs s \<Longrightarrow> quiet s s'"
  by (simp add: quiet_def acct_def del: world_of_sel)

lemma quiet_cached:
  assumes "cached s s'"
  shows "quiet s s'"
proof (rule quiet_world)
  have "world_of s' = world_of s" using assms by (simp add: cached_def)
  then have "accounts (world_of s') = accounts (world_of s)" "w_logs (world_of s') = w_logs (world_of s)" by simp_all
  then show "accounts (world_of s') = accounts (world_of s)" "logs s' = logs s" by simp_all
qed

lemma quiet_put:
  assumes "world_of s' = w_put a v (world_of s)" "v = acct (sdb_db s) (world_of s) a"
  shows "quiet s s'"
proof -
  have "logs s' = logs s" using arg_cong [OF assms(1), of w_logs] by simp
  moreover have "acct (sdb_db s) (world_of s') b = acct (sdb_db s) (world_of s) b" for b
    by (simp add: assms acct_def del: world_of_sel)
  ultimately show ?thesis by (simp add: quiet_def)
qed

lemma quiet_gets:
  assumes "db_ok s"
  shows "quiet s (snd (Exist a s))" "quiet s (snd (Empty a s))" "quiet s (snd (GetBalance a s))"
    "quiet s (snd (GetNonce a s))" "quiet s (snd (GetCodeHash a s))" "quiet s (snd (GetCode a s))"
    "quiet s (snd (GetCodeSize a s))" "quiet s (snd (HasSuicided a s))"
  using db_okD(1) [OF assms]
  by (auto intro!: quiet_cached Exist_view(2) Empty_view(2) GetBalance_view(2) GetNonce_view(2) GetCodeHash_view(2)
      GetCode_view(2) GetCodeSize_view(2) HasSuicided_view(2))

lemma GetState_quiet:
  assumes "db_ok s"
  obtains x s' where "GetState a k s = Some (x, s')" "db_to s s'" "quiet s s'"
  using GetState_Some [OF db_okD(1) [OF assms], of a k] db_to_cached [OF assms] quiet_cached by metis

lemma quiet_AddBalance: "db_ok s \<Longrightarrow> quiet s (AddBalance a 0 s)"
  by (rule quiet_put [OF AddBalance_view(2) [unfolded w_modify_def]]) (simp_all add: db_okD)

lemma quiet_SubBalance: "db_ok s \<Longrightarrow> quiet s (SubBalance a 0 s)"
  by (rule quiet_put [OF SubBalance_view(2) [unfolded w_modify_def]]) (simp_all add: db_okD)

lemma quiet_Transfer:
  assumes "db_ok s"
  shows "quiet s (kernel_Transfer s a b 0)"
proof -
  have d: "db_to s (SubBalance a 0 s)" using assms GetBalance_nonneg by (intro db_to_SubBalance(1)) auto
  then show ?thesis unfolding kernel_Transfer_def
    using quiet_SubBalance [OF assms] quiet_AddBalance [OF db_toD(2) [OF d]] by (rule quiet_trans)
qed

lemma quiet_CreateAccount:
  assumes "db_ok s" "\<not> fst (Exist a s)"
  shows "quiet s (CreateAccount a s)"
proof (rule quiet_put [OF CreateAccount_view(2)])
  note ok = db_okD [OF assms(1)]
  show "(blank (sdb_db s) a)\<lparr>v_balance := v_balance (acct (sdb_db s) (world_of s) a)\<rparr> = acct (sdb_db s) (world_of s) a"
    using assms(2) blank_sel(2) [OF ok(4), of a]
    by (simp add: Exist_view(1) [OF ok(1)] acct_def del: world_of_sel)
qed (simp_all add: db_okD [OF assms(1)])

lemma quiet_AddRefund: "db_ok s \<Longrightarrow> quiet s (AddRefund g s)"
  using AddRefund_view(2) [of s g] by (intro quiet_world) (simp_all add: db_okD del: world_of_sel, simp add: AddRefund_def Let_def)

lemma quiet_AddPreimage: "db_ok s \<Longrightarrow> quiet s (AddPreimage h p s)"
  using AddPreimage_view(2) [of s h p] by (intro quiet_world) (simp_all add: db_okD del: world_of_sel, simp add: AddPreimage_def Let_def)

lemma quiet_Snapshot: "db_ok s \<Longrightarrow> quiet s (snd (Snapshot s))"
  using Snapshot_view(3) [of s] by (intro quiet_world) (simp_all add: db_okD del: world_of_sel, simp add: Snapshot_def Let_def)


subsection \<open>The machine\<close>

text \<open>
  What the machine relies on. The hash function gives codes of different lengths different hashes, so a
  cached bitmap fits every code with its hash.
\<close>

definition hash_ok :: "(bytes \<Rightarrow> hash) \<Rightarrow> bool" where
  "hash_ok kec \<longleftrightarrow> (\<forall>x y. length x < 2 ^ 62 \<longrightarrow> length y < 2 ^ 62 \<longrightarrow> kec x = kec y \<longrightarrow> length x = length y)"

definition jumps_ok :: "(bytes \<Rightarrow> hash) \<Rightarrow> jumpdest_cache \<Rightarrow> bool" where
  "jumps_ok kec jd \<longleftrightarrow> (\<forall>h bits. jd h = Some bits \<longrightarrow>
     (\<exists>code. kec code = h \<and> length code < 2 ^ 62 \<and> length bits = length code div 8 + 5))"

text \<open>
  The rules and the gas table are those of the block, and the block is before Constantinople: from that
  fork on the charge of \<open>SSTORE\<close> takes back refunds, and \<open>SubRefund\<close> panics when there are too few.
\<close>

definition env_ok :: "'t EVM \<Rightarrow> bool" where
  "env_ok evm \<longleftrightarrow>
     CanTransfer (evm_Context evm) = kernel_CanTransfer \<and> Transfer (evm_Context evm) = kernel_Transfer
     \<and> 0 \<le> GasPrice (evm_Context evm) \<and> crypto_ok (evm_crypto evm) \<and> hash_ok (evm_keccak evm)
     \<and> gasTable evm = config_GasTable (chainConfig evm) (blockNum evm)
     \<and> chainRules evm = config_Rules (chainConfig evm) (blockNum evm)
     \<and> \<not> IsConstantinople (chainConfig evm) (blockNum evm)"

definition evm_ok :: "'t EVM \<Rightarrow> bool" where
  "evm_ok evm \<longleftrightarrow> db_ok (evm_StateDB evm) \<and> env_ok evm \<and> jumps_ok (evm_keccak evm) (jumpdests evm)
     \<and> length (sl (returnData evm)) < 2 ^ 62"

definition static :: "'t EVM \<Rightarrow> bool" where
  "static evm \<longleftrightarrow> r_IsByzantium (chainRules evm) \<and> readOnly evm"

text \<open>The fields that a call leaves as they are.\<close>

definition same_env :: "'t EVM \<Rightarrow> 't EVM \<Rightarrow> bool" where
  "same_env evm evm' \<longleftrightarrow>
     evm_Context evm' = evm_Context evm \<and> depth evm' = depth evm \<and> chainConfig evm' = chainConfig evm
     \<and> chainRules evm' = chainRules evm \<and> vmConfig evm' = vmConfig evm \<and> abort evm' = abort evm
     \<and> readOnly evm' = readOnly evm \<and> gasTable evm' = gasTable evm \<and> evm_crypto evm' = evm_crypto evm"

definition evm_to :: "'t EVM \<Rightarrow> 't EVM \<Rightarrow> bool" where
  "evm_to evm evm' \<longleftrightarrow> same_env evm evm' \<and> evm_ok evm' \<and> db_to (evm_StateDB evm) (evm_StateDB evm')
     \<and> (static evm \<longrightarrow> quiet (evm_StateDB evm) (evm_StateDB evm'))"

definition contract_ok :: "(bytes \<Rightarrow> hash) \<Rightarrow> Contract \<Rightarrow> bool" where
  "contract_ok kec c \<longleftrightarrow>
     length (c_Code c) < 2 ^ 62 \<and> length (c_Input c) < 2 ^ 62 \<and> (\<exists>v \<ge> 0. c_value c = Some v)
     \<and> (c_Code c \<noteq> [] \<longrightarrow> c_CodeHash c \<noteq> 0 \<longrightarrow> c_CodeHash c = kec (c_Code c))
     \<and> (\<forall>bits. analysis c = Some bits \<longrightarrow> length bits = length (c_Code c) div 8 + 5)
     \<and> unat (c_Gas c) < 2 ^ 45"

abbreviation f_gas :: "'t frame \<Rightarrow> nat" where
  "f_gas f \<equiv> unat (c_Gas (f_contract f))"

definition frame_ok :: "'t frame \<Rightarrow> bool" where
  "frame_ok f \<longleftrightarrow> evm_ok (f_evm f) \<and> contract_ok (evm_keccak (f_evm f)) (f_contract f)
     \<and> length (store (f_mem f)) < 2 ^ 40 \<and> (\<forall>x \<in> set (f_stack f). 0 \<le> x) \<and> length (f_stack f) \<le> StackLimit"

lemma evm_okD:
  assumes "evm_ok evm"
  shows "db_ok (evm_StateDB evm)" "env_ok evm" "jumps_ok (evm_keccak evm) (jumpdests evm)"
    "length (sl (returnData evm)) < 2 ^ 62"
  using assms by (simp_all add: evm_ok_def)

lemma frame_okD:
  assumes "frame_ok f"
  shows "evm_ok (f_evm f)" "contract_ok (evm_keccak (f_evm f)) (f_contract f)" "length (store (f_mem f)) < 2 ^ 40"
    "\<forall>x \<in> set (f_stack f). 0 \<le> x" "length (f_stack f) \<le> StackLimit" "db_ok (f_db f)" "env_ok (f_evm f)"
  using assms evm_okD by (auto simp: frame_ok_def)

lemma frame_ok_nth: "frame_ok f \<Longrightarrow> n < length (f_stack f) \<Longrightarrow> 0 \<le> f_stack f ! n"
  using frame_okD(4) by (metis nth_mem)

lemma same_env_refl [simp]: "same_env evm evm"
  by (simp add: same_env_def)

lemma same_env_trans: "same_env a b \<Longrightarrow> same_env b c \<Longrightarrow> same_env a c"
  by (simp add: same_env_def)

lemma same_env_static: "same_env a b \<Longrightarrow> static b = static a"
  by (simp add: same_env_def static_def)

lemma same_env_blockNum: "same_env a b \<Longrightarrow> blockNum b = blockNum a"
  by (simp add: same_env_def blockNum_def)

lemma evm_toD:
  assumes "evm_to evm evm'"
  shows "same_env evm evm'" "evm_ok evm'" "db_to (evm_StateDB evm) (evm_StateDB evm')"
    "static evm \<Longrightarrow> quiet (evm_StateDB evm) (evm_StateDB evm')" "evm_keccak evm' = evm_keccak evm"
  using assms by (auto simp: evm_to_def evm_keccak_def dest: db_toD(3))

lemma evm_to_refl [simp]: "evm_ok evm \<Longrightarrow> evm_to evm evm"
  by (simp add: evm_to_def evm_okD)

lemma evm_to_trans [trans]: "evm_to a b \<Longrightarrow> evm_to b c \<Longrightarrow> evm_to a c"
  unfolding evm_to_def
  by (metis same_env_trans db_to_trans quiet_trans same_env_static)

lemma env_ok_same: "same_env evm evm' \<Longrightarrow> evm_keccak evm' = evm_keccak evm \<Longrightarrow> env_ok evm' = env_ok evm"
  by (simp add: env_ok_def same_env_def blockNum_def)

text \<open>A step of the machine is a step of its database.\<close>

lemma evm_to_db:
  assumes "evm_ok evm" "db_to (evm_StateDB evm) s" "static evm \<Longrightarrow> quiet (evm_StateDB evm) s"
  shows "evm_to evm (evm\<lparr>evm_StateDB := s\<rparr>)"
proof -
  have "evm_keccak (evm\<lparr>evm_StateDB := s\<rparr>) = evm_keccak evm" using db_toD(3) [OF assms(2)] by (simp add: evm_keccak_def)
  then show ?thesis
    using assms env_ok_same [of evm "evm\<lparr>evm_StateDB := s\<rparr>"] db_toD(2) [OF assms(2)]
    by (simp add: evm_to_def evm_ok_def same_env_def)
qed

lemma table_cases:
  "env_ok evm \<Longrightarrow> gasTable evm \<in> {GasTableHomestead, GasTableEIP150, GasTableEIP158}"
  by (simp add: env_ok_def config_GasTable_def blockNum_def)

lemma table_bounds:
  assumes "env_ok evm"
  shows "unat (ExtcodeSize (gasTable evm)) \<ge> 1" "unat (ExtcodeCopy (gasTable evm)) \<ge> 1"
    "unat (gt_Balance (gasTable evm)) \<ge> 1" "unat (SLoad (gasTable evm)) \<ge> 1"
    "unat (Calls (gasTable evm)) \<ge> 1" "unat (Calls (gasTable evm)) \<le> 700"
  using table_cases [OF assms] by (auto simp: GasTableHomestead_def GasTableEIP150_def GasTableEIP158_def)

end
