(* ===== verification/Machine_Gas.thy ===== *)
theory Machine_Gas
  imports Machine_Inv
begin

text \<open>
  Every gas function returns: a weakest-precondition calculus over the sequencing of \<open>Gas_Table\<close>. The
  frame keeps its program counter, contract, stack and memory bytes; the charge is at least what the
  instruction may later hand to a callee, and one more if the instruction does not halt.
\<close>

declare option.case_cong [cong] sum.case_cong [cong]

definition gas_to :: "'t frame \<Rightarrow> 't frame \<Rightarrow> bool" where
  "gas_to f f' \<longleftrightarrow> f_pc f' = f_pc f \<and> f_contract f' = f_contract f \<and> f_stack f' = f_stack f
     \<and> store (f_mem f') = store (f_mem f) \<and> evm_to (f_evm f) (f_evm f')"

definition gwp :: "'t frame \<Rightarrow> ('t, 'a) gas_m \<Rightarrow> ('a \<Rightarrow> 't frame \<Rightarrow> bool) \<Rightarrow> bool" where
  "gwp f m Q \<longleftrightarrow> (\<exists>r f'. m f = Some (r, f') \<and> gas_to f f' \<and> (\<forall>x. r = Inr x \<longrightarrow> Q x f'))"

lemma gas_toD:
  assumes "gas_to f f'"
  shows "f_pc f' = f_pc f" "f_contract f' = f_contract f" "f_stack f' = f_stack f"
    "store (f_mem f') = store (f_mem f)" "evm_to (f_evm f) (f_evm f')"
  using assms by (simp_all add: gas_to_def)

lemma gas_to_refl [simp]: "frame_ok f \<Longrightarrow> gas_to f f"
  by (simp add: gas_to_def frame_okD)

lemma gas_to_trans: "gas_to f f1 \<Longrightarrow> gas_to f1 f2 \<Longrightarrow> gas_to f f2"
  by (auto simp: gas_to_def intro: evm_to_trans)

lemma gas_to_ok: "frame_ok f \<Longrightarrow> gas_to f f' \<Longrightarrow> frame_ok f'"
  by (auto simp: gas_to_def frame_ok_def evm_toD(2,5))

lemma gas_to_gasTable: "gas_to f f' \<Longrightarrow> gasTable (f_evm f') = gasTable (f_evm f)"
  using evm_toD(1) gas_toD(5) by (fastforce simp: same_env_def)

subsection \<open>The rules\<close>

named_theorems wp \<open>rules for the sequencing of gas functions\<close>

lemma gwp_ret [wp]: "frame_ok f \<Longrightarrow> Q x f \<Longrightarrow> gwp f (gret x) Q"
  by (simp add: gwp_def gret_def)

lemma gwp_err [wp]: "frame_ok f \<Longrightarrow> gwp f (gerr e) Q"
  by (simp add: gwp_def gerr_def)

lemma gwp_bind [wp]:
  assumes "frame_ok f" "gwp f m (\<lambda>x f'. frame_ok f' \<longrightarrow> gas_to f f' \<longrightarrow> f_stack f' = f_stack f \<longrightarrow> gwp f' (n x) Q)"
  shows "gwp f (gbind m n) Q"
proof -
  obtain r f1 where m: "m f = Some (r, f1)" "gas_to f f1"
    "\<And>x. r = Inr x \<Longrightarrow> frame_ok f1 \<longrightarrow> gas_to f f1 \<longrightarrow> f_stack f1 = f_stack f \<longrightarrow> gwp f1 (n x) Q"
    using assms(2) unfolding gwp_def by blast
  show ?thesis
  proof (cases r)
    case (Inl e)
    then show ?thesis using m by (simp add: gwp_def gbind_def)
  next
    case (Inr x)
    then have "gwp f1 (n x) Q" using m gas_to_ok [OF assms(1)] gas_toD(3) by blast
    then show ?thesis using m Inr gas_to_trans by (fastforce simp: gwp_def gbind_def)
  qed
qed

lemma gwp_ask [wp]: "gwp f (m f) Q \<Longrightarrow> gwp f (gask m) Q"
  by (simp add: gwp_def gask_def)

lemma gwp_if [wp]:
  "(b \<Longrightarrow> gwp f m Q) \<Longrightarrow> (\<not> b \<Longrightarrow> gwp f n Q) \<Longrightarrow> gwp f (if b then m else n) Q"
  by simp

lemma gwp_back [wp]:
  "frame_ok f \<Longrightarrow> n < length (f_stack f) \<Longrightarrow> Q (f_stack f ! n) f \<Longrightarrow> gwp f (gback n) Q"
  by (simp add: gwp_def gback_def Back_def gret_def)

lemma gwp_check_add [wp]:
  assumes "frame_ok f" "\<And>c. unat c = unat a + unat b \<Longrightarrow> Q c f"
  shows "gwp f (gcheck (SafeAdd a b)) Q"
  using assms SafeAdd_spec(2) [of a b] by (auto simp: gcheck_def split: prod.split intro!: wp)

lemma gwp_check_mul [wp]:
  assumes "frame_ok f" "\<And>c. unat c = unat a * unat b \<Longrightarrow> Q c f"
  shows "gwp f (gcheck (SafeMul a b)) Q"
  using assms SafeMul_spec(2) [of a b] by (auto simp: gcheck_def split: prod.split intro!: wp)

lemma gwp_check_big [wp]:
  assumes "frame_ok f" "\<And>c. Q c f"
  shows "gwp f (gcheck (bigUint64 x)) Q"
  using assms by (auto simp: gcheck_def split: prod.split intro!: wp)

lemma gwp_with_db:
  assumes "frame_ok f" "db_to (f_db f) s" "static (f_evm f) \<Longrightarrow> quiet (f_db f) s" "Q x (with_db s f)"
  shows "gwp f (\<lambda>f. gret x (with_db s f)) Q"
  using assms evm_to_db [OF frame_okD(1) [OF assms(1)] assms(2)]
  by (simp add: gwp_def gret_def gas_to_def with_db_def)

lemma gwp_get:
  assumes "frame_ok f" "db_to (f_db f) (snd (q (f_db f)))" "quiet (f_db f) (snd (q (f_db f)))"
    "\<And>x f'. gas_to f f' \<Longrightarrow> Q x f'"
  shows "gwp f (gget q) Q"
proof -
  obtain x s where q: "q (f_db f) = (x, s)" by fastforce
  have "gwp f (\<lambda>f. gret x (with_db s f)) (\<lambda>x f'. gas_to f f' \<longrightarrow> Q x f')"
    using assms q by (intro gwp_with_db) simp_all
  then show ?thesis using q by (auto simp: gwp_def gget_def)
qed

lemma gwp_gets [wp]:
  assumes "frame_ok f" "\<And>x f'. gas_to f f' \<Longrightarrow> Q x f'"
  shows "gwp f (gget (Empty a)) Q" "gwp f (gget (Exist a)) Q"
  using assms by (auto intro!: gwp_get db_to_gets quiet_gets frame_okD(6))

lemma gwp_gets' [wp]:
  assumes "frame_ok f" "\<And>x f'. gas_to f f' \<Longrightarrow> Q x f'"
  shows "gwp f (gget (GetBalance a)) Q"
  using assms by (auto intro!: gwp_get db_to_gets quiet_gets frame_okD(6))

lemma gwp_HasSuicided [wp]:
  assumes "frame_ok f" "\<And>x f'. gas_to f f' \<Longrightarrow> Q x f'"
  shows "gwp f (gget (HasSuicided a)) Q"
  using assms by (auto intro!: gwp_get db_to_gets quiet_gets frame_okD(6))

lemma gwp_GetState [wp]:
  assumes "frame_ok f" "\<And>x f'. gas_to f f' \<Longrightarrow> Q x f'"
  shows "gwp f (ggetM (GetState a k)) Q"
proof -
  obtain x s where q: "GetState a k (f_db f) = Some (x, s)" "db_to (f_db f) s" "quiet (f_db f) s"
    by (rule GetState_quiet [OF frame_okD(6) [OF assms(1)]])
  have "gwp f (\<lambda>f. gret x (with_db s f)) (\<lambda>x f'. gas_to f f' \<longrightarrow> Q x f')"
    using assms q by (intro gwp_with_db) simp_all
  then show ?thesis using q by (auto simp: gwp_def ggetM_def)
qed

lemma gwp_AddRefund [wp]:
  assumes "frame_ok f" "\<And>f'. gas_to f f' \<Longrightarrow> Q () f'"
  shows "gwp f (gmod (AddRefund g)) Q"
proof -
  have "gwp f (\<lambda>f. gret () (with_db s f)) (\<lambda>x f'. gas_to f f' \<longrightarrow> Q x f')" if "s = AddRefund g (f_db f)" for s
    using assms that db_to_AddRefund quiet_AddRefund frame_okD(6) [OF assms(1)] by (intro gwp_with_db) simp_all
  then show ?thesis by (auto simp: gwp_def gmod_def)
qed


subsection \<open>The gas functions\<close>

text \<open>The largest memory that \<open>memoryGasCost\<close> will price.\<close>

definition mem_max :: nat where
  "mem_max = 0xffffffffe0"

lemma memoryGasCost_bound:
  "fst (memoryGasCost m sz) = Inr c \<Longrightarrow> unat sz \<le> mem_max" "store (snd (memoryGasCost m sz)) = store m"
proof -
  have "unat sz \<le> mem_max \<longleftrightarrow> \<not> sz > 0xffffffffe0" by (simp add: mem_max_def word_less_nat_alt not_less)
  then show "fst (memoryGasCost m sz) = Inr c \<Longrightarrow> unat sz \<le> mem_max"
    by (auto simp: memoryGasCost_def split: if_splits)
  show "store (snd (memoryGasCost m sz)) = store m" by (simp add: memoryGasCost_def Let_def)
qed

lemma gwp_memory [wp]:
  assumes "frame_ok f" "\<And>c f'. unat sz \<le> mem_max \<Longrightarrow> gas_to f f' \<Longrightarrow> Q c f'"
  shows "gwp f (gmemory sz) Q"
  using assms memoryGasCost_bound [of "f_mem f" sz]
  by (auto simp: gwp_def gmemory_def gas_to_def frame_okD split: prod.split)

lemma gwp_words [wp]:
  assumes "frame_ok f" "n < length (f_stack f)"
    "\<And>c f'. unat base \<le> unat c \<Longrightarrow> unat sz \<le> mem_max \<Longrightarrow> gas_to f f' \<Longrightarrow> Q c f'"
  shows "gwp f (gwords n base per sz) Q"
  unfolding gwords_def
  by (intro wp impI assms | simp add: assms)+


lemma gas_to_callGasTemp:
  assumes "frame_ok f"
  shows "gas_to f (f\<lparr>f_evm := (f_evm f)\<lparr>callGasTemp := g\<rparr>\<rparr>)" "frame_ok (f\<lparr>f_evm := (f_evm f)\<lparr>callGasTemp := g\<rparr>\<rparr>)"
proof -
  let ?e = "(f_evm f)\<lparr>callGasTemp := g\<rparr>"
  note ok = evm_okD [OF frame_okD(1) [OF assms]]
  have k: "evm_keccak ?e = evm_keccak (f_evm f)" by (simp add: evm_keccak_def)
  have same: "same_env (f_evm f) ?e" by (simp add: same_env_def)
  have "env_ok ?e" using env_ok_same [OF same k] ok(2) by simp
  then have "evm_to (f_evm f) ?e" using ok same k by (simp add: evm_to_def evm_ok_def)
  then show "gas_to f (f\<lparr>f_evm := ?e\<rparr>)" by (simp add: gas_to_def)
  then show "frame_ok (f\<lparr>f_evm := ?e\<rparr>)" by (rule gas_to_ok [OF assms])
qed

lemma gwp_weaken: "gas_to f f1 \<Longrightarrow> gwp f1 m Q \<Longrightarrow> m f1 = n f \<Longrightarrow> gwp f n Q"
  unfolding gwp_def by (metis gas_to_trans)

lemma gwp_gcall [wp]:
  assumes f: "frame_ok f" "f_stack f \<noteq> []"
    and Q: "\<And>c f'. unat c = unat gas + unat (callGasTemp (f_evm f')) \<Longrightarrow> gas_to f f' \<Longrightarrow> Q c f'"
  shows "gwp f (gcall gt gas) Q"
  unfolding gcall_def
proof (intro wp impI f)
  fix f1
  assume f1: "frame_ok f1" "gas_to f f1"
  let ?g = "callGas gt (c_Gas (f_contract f1)) gas (f_stack f ! 0)"
  show "gwp f1 (\<lambda>f1. case callGas gt (c_Gas (f_contract f1)) gas (f_stack f ! 0) of
         Inl err \<Rightarrow> gerr err (f1\<lparr>f_evm := (f_evm f1)\<lparr>callGasTemp := 0\<rparr>\<rparr>)
       | Inr g \<Rightarrow> gcheck (SafeAdd gas g) (f1\<lparr>f_evm := (f_evm f1)\<lparr>callGasTemp := g\<rparr>\<rparr>)) Q"
  proof (cases ?g)
    case (Inl err)
    show ?thesis
      by (rule gwp_weaken [OF gas_to_callGasTemp(1) [OF f1(1), of 0] gwp_err [OF gas_to_callGasTemp(2) [OF f1(1)], of 0 err]])
         (simp add: Inl)
  next
    case (Inr g)
    have "gwp (f1\<lparr>f_evm := (f_evm f1)\<lparr>callGasTemp := g\<rparr>\<rparr>) (gcheck (SafeAdd gas g)) Q"
      using gas_to_callGasTemp [OF f1(1), of g] gas_to_trans [OF f1(2)]
      by (intro wp Q) simp_all
    then show ?thesis
      by (rule gwp_weaken [OF gas_to_callGasTemp(1) [OF f1(1), of g]]) (simp add: Inr)
  qed
qed (use f in simp)

text \<open>
  The contract of a gas function: with \<open>n\<close> operands it returns, and a charge is at least \<open>lo\<close> above what
  \<open>ext\<close> says the instruction can hand to a callee. \<open>b\<close> tells that the charge covers the memory.
\<close>

definition gas_ok :: "'t gasFunc \<Rightarrow> nat \<Rightarrow> (u64 \<Rightarrow> Stack \<Rightarrow> nat) \<Rightarrow> nat \<Rightarrow> bool \<Rightarrow> bool" where
  "gas_ok g n ext lo b \<longleftrightarrow> (\<forall>f sz. frame_ok f \<longrightarrow> n \<le> length (f_stack f) \<longrightarrow>
     gwp f (g (gasTable (f_evm f)) sz)
       (\<lambda>c f'. ext (callGasTemp (f_evm f')) (f_stack f) + lo \<le> unat c \<and> (b \<longrightarrow> unat sz \<le> mem_max)))"

definition no_ext :: "u64 \<Rightarrow> Stack \<Rightarrow> nat" where
  "no_ext g st = 0"

definition call_ext :: "u64 \<Rightarrow> Stack \<Rightarrow> nat" where
  "call_ext g st = unat g"

definition value_ext :: "u64 \<Rightarrow> Stack \<Rightarrow> nat" where
  "value_ext g st = unat g + (if st ! 2 \<noteq> 0 then 2300 else 0)"

lemmas exts = no_ext_def call_ext_def value_ext_def

lemma gas_ok_const: "lo \<le> unat c \<Longrightarrow> gas_ok (constGasFunc c) n no_ext lo False"
  by (simp add: gas_ok_def constGasFunc_def wp exts)

lemma frame_table:
  assumes "frame_ok f"
  shows "Suc 0 \<le> unat (ExtcodeSize (gasTable (f_evm f)))" "Suc 0 \<le> unat (ExtcodeCopy (gasTable (f_evm f)))"
    "Suc 0 \<le> unat (gt_Balance (gasTable (f_evm f)))" "Suc 0 \<le> unat (SLoad (gasTable (f_evm f)))"
    "Suc 0 \<le> unat (Calls (gasTable (f_evm f)))" "unat (Calls (gasTable (f_evm f))) \<le> 700"
  using table_bounds [OF frame_okD(7) [OF assms]] by simp_all

lemma gas_ok_table:
  "gas_ok gasBalance n no_ext 1 False" "gas_ok gasExtCodeSize n no_ext 1 False" "gas_ok gasSLoad n no_ext 1 False"
  "gas_ok gasPush n no_ext 1 False" "gas_ok gasSwap n no_ext 1 False" "gas_ok gasDup n no_ext 1 False"
  by (auto simp: gas_ok_def gasBalance_def gasExtCodeSize_def gasSLoad_def gasPush_def gasSwap_def gasDup_def params
      exts intro!: wp frame_table)

lemma gas_ok_words:
  "gas_ok gasCallDataCopy 3 no_ext 1 True" "gas_ok gasReturnDataCopy 3 no_ext 1 True" "gas_ok gasSha3 2 no_ext 1 True"
  "gas_ok gasCodeCopy 3 no_ext 1 True" "gas_ok gasExtCodeCopy 4 no_ext 1 True"
  by (auto simp: gas_ok_def gasCallDataCopy_def gasReturnDataCopy_def gasSha3_def gasCodeCopy_def gasExtCodeCopy_def
      params exts intro!: wp intro: order_trans [OF frame_table(2)])

lemma gas_ok_memory:
  "gas_ok gasMLoad n no_ext 1 True" "gas_ok gasMStore n no_ext 1 True" "gas_ok gasMStore8 n no_ext 1 True"
  "gas_ok gasCreate n no_ext 1 True" "gas_ok gasReturn n no_ext 0 True" "gas_ok gasRevert n no_ext 0 True"
  by (auto simp: gas_ok_def gasMLoad_def gasMStore_def gasMStore8_def gasCreate_def gasReturn_def gasRevert_def
      params exts intro!: wp)

lemma gas_ok_exp: "gas_ok gasExp 2 no_ext 1 False"
  by (auto simp: gas_ok_def gasExp_def params exts intro!: wp)

lemma gas_ok_log: "gas_ok (makeGasLog k) 2 no_ext 1 True"
  by (auto simp: gas_ok_def makeGasLog_def params exts intro!: wp)

lemma gas_ok_SStore: "gas_ok gasSStore 2 no_ext 1 False"
proof -
  have "gwp f (gasSStore gt sz) (\<lambda>c f'. 1 \<le> unat c)" if f: "frame_ok f" "2 \<le> length (f_stack f)" for f :: "'a frame" and gt sz
  proof -
    have "\<not> r_IsConstantinople (chainRules (f_evm f'))" if "frame_ok f'" for f' :: "'a frame"
      using frame_okD(7) [OF that] by (simp add: env_ok_def config_Rules_def)
    then show ?thesis using f unfolding gasSStore_def
      by (auto simp: params intro!: wp)
  qed
  then show ?thesis by (simp add: gas_ok_def exts)
qed

lemma gas_ok_Suicide: "gas_ok gasSuicide 1 no_ext 0 False"
  by (auto simp: gas_ok_def gasSuicide_def exts intro!: wp)


lemma unat_add_small: "unat (a :: u64) \<le> 2 ^ 32 \<Longrightarrow> unat b \<le> 2 ^ 32 \<Longrightarrow> unat (a + b) = unat a + unat b"
  by (rule unat_add_no_wrap) simp

lemma gas_okI:
  assumes "\<And>f sz. frame_ok f \<Longrightarrow> n \<le> length (f_stack f) \<Longrightarrow> Suc 0 \<le> unat (Calls (gasTable (f_evm f))) \<Longrightarrow>
    unat (Calls (gasTable (f_evm f))) \<le> 700 \<Longrightarrow>
    gwp f (g (gasTable (f_evm f)) sz)
      (\<lambda>c f'. ext (callGasTemp (f_evm f')) (f_stack f) + lo \<le> unat c \<and> (b \<longrightarrow> unat sz \<le> mem_max))"
  shows "gas_ok g n ext lo b"
  unfolding gas_ok_def using assms frame_table(5,6) by blast

lemma gas_ok_calls:
  "gas_ok gasDelegateCall 6 call_ext 1 True" "gas_ok gasStaticCall 6 call_ext 1 True"
  by (rule gas_okI; auto simp: gasDelegateCall_def gasStaticCall_def exts intro!: wp)+

lemma gas_ok_CallCode: "gas_ok gasCallCode 7 value_ext 1 True"
  by (rule gas_okI; auto simp: gasCallCode_def exts params unat_add_small intro!: wp)

lemma gas_ok_Call: "gas_ok gasCall 7 value_ext 1 True"
  by (rule gas_okI; auto simp: gasCall_def exts params unat_add_small intro!: wp)

end
