(* ===== verification/Machine_Calls.thy ===== *)
theory Machine_Calls
  imports Machine_Gas
begin

text \<open>
  The call layer over any interpreter that keeps the machine's invariant: the locale \<open>interp\<close> states what
  the calls need of the interpreter, and the lemmas show what each kind of call then gives back.
\<close>

declare option.case_cong [cong] sum.case_cong [cong]

subsection \<open>The database in a call\<close>

lemma GetBalance_world:
  "db_ok s \<Longrightarrow> db_to s s' \<Longrightarrow> world_of s' = world_of s \<Longrightarrow> fst (GetBalance a s') = fst (GetBalance a s)"
  using db_toD(2,3) by (fastforce simp: GetBalance_acct)

lemma GetBalance_CreateAccount:
  assumes "db_ok s"
  shows "fst (GetBalance a (CreateAccount b s)) = fst (GetBalance a s)"
proof -
  note d = db_toD [OF db_to_CreateAccount [OF assms, of b]]
  show ?thesis
    by (simp add: GetBalance_acct assms d(2,3) CreateAccount_view(2) db_okD [OF assms] acct_def
        del: world_of_sel split: option.split)
qed

lemma GetBalance_SetNonce:
  assumes "db_ok s"
  shows "fst (GetBalance a (SetNonce b n s)) = fst (GetBalance a s)"
proof -
  note d = db_toD [OF db_to_SetNonce [OF assms, of b n]]
  show ?thesis
    by (simp add: GetBalance_acct assms d(2,3) SetNonce_view(2) db_okD [OF assms] acct_def w_modify_def
        del: world_of_sel split: option.split)
qed

lemma cached_world: "cached s s' \<Longrightarrow> world_of s' = world_of s"
  by (simp add: cached_def)

lemma world_of_gets:
  assumes "db_ok s"
  shows "world_of (snd (Exist a s)) = world_of s" "world_of (snd (GetBalance a s)) = world_of s"
    "world_of (snd (GetNonce a s)) = world_of s" "world_of (snd (GetCodeHash a s)) = world_of s"
    "world_of (snd (GetCode a s)) = world_of s" "world_of (snd (Snapshot s)) = world_of s"
  by (rule cached_world [OF Exist_view(2)] cached_world [OF GetBalance_view(2)] cached_world [OF GetNonce_view(2)]
      cached_world [OF GetCodeHash_view(2)] cached_world [OF GetCode_view(2)] Snapshot_view(3); rule db_okD [OF assms])+

lemma quiet_same_world: "world_of s' = world_of s \<Longrightarrow> quiet s s'"
proof (rule quiet_world)
  assume a: "world_of s' = world_of s"
  then show "accounts (world_of s') = accounts (world_of s)" by simp
  show "logs s' = logs s" using arg_cong [OF a, of w_logs] by simp
qed

subsection \<open>Pieces of the call layer\<close>

lemma evm_ok_db:
  assumes "evm_ok evm" "db_ok s" "sdb_db s = sdb_db (evm_StateDB evm)"
  shows "evm_ok (evm\<lparr>evm_StateDB := s\<rparr>)"
proof -
  have "evm_keccak (evm\<lparr>evm_StateDB := s\<rparr>) = evm_keccak evm" using assms(3) by (simp add: evm_keccak_def)
  then show ?thesis using assms env_ok_same [of evm "evm\<lparr>evm_StateDB := s\<rparr>"]
    by (simp add: evm_ok_def same_env_def)
qed

lemma share_jumpdests_ok:
  assumes "evm_ok evm"
  shows "evm_ok (share_jumpdests cllr evm)" "same_env evm (share_jumpdests cllr evm)"
    "evm_StateDB (share_jumpdests cllr evm) = evm_StateDB evm"
proof -
  show s: "same_env evm (share_jumpdests cllr evm)" "evm_StateDB (share_jumpdests cllr evm) = evm_StateDB evm"
    by (simp_all add: share_jumpdests_def same_env_def split: ContractRef.split)
  then have "evm_keccak (share_jumpdests cllr evm) = evm_keccak evm" by (simp add: evm_keccak_def)
  then show "evm_ok (share_jumpdests cllr evm)"
    using assms s env_ok_same [OF s(1)]
    by (auto simp: evm_ok_def) (auto simp: share_jumpdests_def jumps_ok_def split: ContractRef.split)
qed

lemma load_code_ok:
  assumes e: "evm_ok evm" and l: "load_code a c evm = (c', evm')"
    and c: "contract_ok (evm_keccak evm) c" "analysis c = None"
  shows "evm_to evm evm'" "world_of (evm_StateDB evm') = world_of (evm_StateDB evm)"
    "contract_ok (evm_keccak evm) c'" "c_Gas c' = c_Gas c"
proof -
  define s where "s = evm_StateDB evm"
  define s1 where "s1 = snd (GetCodeHash a s)"
  define s2 where "s2 = snd (GetCode a s1)"
  have s: "db_ok s" using evm_okD(1) [OF e] by (simp add: s_def)
  have d1: "db_to s s1" "world_of s1 = world_of s"
    using db_to_gets(5) [OF s] world_of_gets(4) [OF s] by (simp_all add: s1_def)
  have d2: "db_to s1 s2" "world_of s2 = world_of s1"
    using db_to_gets(6) [OF db_toD(2) [OF d1(1)]] world_of_gets(5) [OF db_toD(2) [OF d1(1)]] by (simp_all add: s2_def)
  have r: "c' = SetCallCode (Some a) (fst (GetCodeHash a s)) (sl (fst (GetCode a s1))) c" "evm' = evm\<lparr>evm_StateDB := s2\<rparr>"
    using l by (auto simp: load_code_def Let_def s_def s1_def s2_def split: prod.splits)
  have w: "world_of s2 = world_of s" using d1 d2 by simp
  have d: "db_to s s2" using d1(1) d2(1) by (rule db_to_trans)
  show "evm_to evm evm'" unfolding r(2) using d w quiet_same_world
    by (intro evm_to_db [OF e]) (simp_all add: s_def)
  show "world_of (evm_StateDB evm') = world_of (evm_StateDB evm)" using w by (simp add: r(2) s_def)
  show "c_Gas c' = c_Gas c" by (simp add: r(1) SetCallCode_def)
  have h: "fst (GetCodeHash a s) = (case accounts (world_of s) a of None \<Rightarrow> 0 | Some v \<Rightarrow> BytesToHash (v_codehash v))"
    by (rule GetCodeHash_view(1)) (rule db_okD [OF s])
  have co: "fst (GetCode a s1) = (case accounts (world_of s) a of None \<Rightarrow> None | Some v \<Rightarrow> v_code v)"
    using GetCode_view(1) [OF db_okD(1) [OF db_toD(2) [OF d1(1)]]] d1(2) by simp
  have "length (sl (fst (GetCode a s1))) < 2 ^ 62"
    "sl (fst (GetCode a s1)) \<noteq> [] \<Longrightarrow> fst (GetCodeHash a s) = evm_keccak evm (sl (fst (GetCode a s1)))"
    using db_okD(3) [OF s] unfolding h co world_ok_def acct_ok_def evm_keccak_def s_def [symmetric]
    by (auto simp del: world_of_sel split: option.split)
  then show "contract_ok (evm_keccak evm) c'"
    using c by (auto simp: r(1) SetCallCode_def contract_ok_def)
qed

lemma contract_ok_New:
  "length (c_Input c) < 2 ^ 62 \<Longrightarrow> unat gas < 2 ^ 45 \<Longrightarrow> 0 \<le> v \<Longrightarrow> contract_ok kec (NewContract cllr a (Some v) gas)"
  by (simp add: NewContract_def contract_ok_def)

lemma length_addr_Bytes [simp]: "length (addr_Bytes a) = 20"
  by (simp add: addr_Bytes_def)

lemma CreateAddress_total: "\<exists>a. CreateAddress kec b nonce = Some a"
proof -
  let ?v = "RSlice [RBytes (addr_Bytes b), RUint nonce]"
  have "BitLen (uint nonce) \<le> 64" using uint_bounded [of nonce] by (simp add: BitLen_le_iff)
  then have n: "length (big_Bytes (uint nonce)) \<le> 8" by (simp add: big_Bytes_def)
  have "length x < 2 ^ 64" if "enc ?v = Some x" for x
    using that n length_encodeString_le [of "big_Bytes (uint nonce)"] length_encodeString_le [of "addr_Bytes b"]
      length_enc_list_le [of "encodeString (addr_Bytes b) @ encodeString (big_Bytes (uint nonce))"]
    by auto
  then have "EncodeToBytes ?v \<noteq> None" by (subst EncodeToBytes_enc) auto
  then show ?thesis by (auto simp: CreateAddress_def)
qed


subsection \<open>The interpreter's contract\<close>

text \<open>What a run may change: \<open>ro\<close> asks for a read-only run.\<close>

definition read_only :: "bool \<Rightarrow> 't EVM \<Rightarrow> bool" where
  "read_only ro evm \<longleftrightarrow> r_IsByzantium (chainRules evm) \<and> (readOnly evm \<or> ro)"

definition run_to ::
  "bool \<Rightarrow> 't EVM \<Rightarrow> Contract \<Rightarrow> call_result \<times> Contract \<times> 't EVM \<Rightarrow> bool" where
  "run_to ro evm c r \<longleftrightarrow> (case r of ((ret, err), c', evm') \<Rightarrow>
     evm_to evm evm' \<and> c_Gas c' \<le> c_Gas c \<and> length (sl ret) < 2 ^ 62
     \<and> (read_only ro evm \<longrightarrow> quiet (evm_StateDB evm) (evm_StateDB evm')))"

text \<open>
  The result of a call with gas \<open>g\<close>: the machine keeps its invariant, gas is only spent, and a call that
  fails leaves the world as it was.
\<close>

definition call_to ::
  "bool \<Rightarrow> 't EVM \<Rightarrow> u64 \<Rightarrow> (gobytes \<times> u64 \<times> vm_error option) \<times> 't EVM \<Rightarrow> bool" where
  "call_to ro evm g r \<longleftrightarrow> (case r of ((ret, gas, err), evm') \<Rightarrow>
     evm_to evm evm' \<and> gas \<le> g \<and> length (sl ret) < 2 ^ 62
     \<and> (read_only ro evm \<longrightarrow> quiet (evm_StateDB evm) (evm_StateDB evm'))
     \<and> (err \<noteq> None \<longrightarrow> world_of (evm_StateDB evm') = world_of (evm_StateDB evm)))"

definition create_to ::
  "'t EVM \<Rightarrow> u64 \<Rightarrow> (gobytes \<times> address \<times> u64 \<times> vm_error option) \<times> 't EVM \<Rightarrow> bool" where
  "create_to evm g r \<longleftrightarrow> (case r of ((ret, addr, gas, err), evm') \<Rightarrow>
     evm_to evm evm' \<and> gas \<le> g \<and> length (sl ret) < 2 ^ 62)"

text \<open>The end of a creation, from the state \<open>s0\<close> at its snapshot.\<close>

lemma deposit_ok:
  assumes e: "evm_ok evm" "\<not> static evm" and s0: "db_to (evm_StateDB evm) s0"
    and e2: "same_env evm evm2" "evm_ok evm2" "db_to (snd (Snapshot s0)) (evm_StateDB evm2)"
    and r: "length (sl ret) < 2 ^ 62" "c_Gas c \<le> g"
  shows "\<exists>r. deposit (fst (Snapshot s0)) addr ((ret, err), c, evm2) = Some r \<and> create_to evm g r"
proof -
  note s0ok = db_toD(2) [OF s0]
  have keep: "evm_to evm evm3" if "same_env evm evm3" "evm_ok evm3" "db_to (evm_StateDB evm) (evm_StateDB evm3)" for evm3
    using that e(2) by (simp add: evm_to_def)
  define s' where "s' = SetCode addr ret (evm_StateDB evm2)"
  have d2: "db_to (evm_StateDB evm) (evm_StateDB evm2)"
    using s0 db_to_Snapshot [OF s0ok] e2(3) by (blast intro: db_to_trans)
  have d': "db_to (evm_StateDB evm2) s'" unfolding s'_def using evm_okD(1) [OF e2(2)] r(1) by (rule db_to_SetCode)
  have set_code: "evm_to evm (evm2\<lparr>evm_StateDB := s'\<rparr>)"
    using e2(1) evm_ok_db [OF e2(2) db_toD(2,3) [OF d']] db_to_trans [OF d2 d']
    by (intro keep) (simp_all add: same_env_def)
  obtain s3 where s3: "RevertToSnapshot (fst (Snapshot s0)) (evm_StateDB evm2) = Some s3" "db_to s0 s3"
    by (rule db_to_Revert [OF s0ok e2(3)])
  have db: "sdb_db s3 = sdb_db (evm_StateDB evm2)"
    using db_toD(3) [OF e2(3)] db_toD(3) [OF db_to_Snapshot [OF s0ok]] db_toD(3) [OF s3(2)] by simp
  have rev: "evm_to evm (evm2\<lparr>evm_StateDB := s3\<rparr>)"
    using e2(1) evm_ok_db [OF e2(2) db_toD(2) [OF s3(2)] db] db_to_trans [OF s0 s3(2)]
    by (intro keep) (simp_all add: same_env_def)
  have stay: "evm_to evm evm2" using e2(1,2) d2 by (rule keep)
  have dec: "c_Gas c - x \<le> g" if "\<not> c_Gas c < x" for x
    using that r(2) by (simp add: word_le_nat_alt word_less_nat_alt unat_sub)
  show ?thesis
    using set_code rev stay s3(1) r dec
    by (auto simp: deposit_def Let_def UseGas_def create_to_def s'_def [symmetric] simp del: split_paired_Ex)
qed

locale interp =
  fixes rn :: "'t run_fn" and fuel :: nat
  assumes rn_ok: "evm_ok evm \<Longrightarrow> contract_ok (evm_keccak evm) c \<Longrightarrow> length (sl input) < 2 ^ 62 \<Longrightarrow>
    2 * unat (c_Gas c) + 2 \<le> fuel \<Longrightarrow> \<exists>r. rn c input ro evm = Some r \<and> run_to ro evm c r"
begin

lemma run_ok:
  assumes e: "evm_ok evm" "contract_ok (evm_keccak evm) c" "length (sl input) < 2 ^ 62" "2 * unat (c_Gas c) + 2 \<le> fuel"
  shows "\<exists>r. run rn c input ro evm = Some r \<and> run_to ro evm c r"
proof (cases "Option.bind (c_CodeAddr c) (precompiles evm)")
  case None
  then show ?thesis using rn_ok [OF e] by (simp add: run_def)
next
  case (Some p)
  have cr: "crypto_ok (evm_crypto evm)" using evm_okD(2) [OF e(1)] by (simp add: env_ok_def)
  obtain a where "precompiles evm a = Some p" using Some by (auto elim: bind_SomeE)
  then have p: "pre_ok p" using pre_ok_precompiles [OF cr] by blast
  obtain ret err g where "RunPrecompiledContract p input c = Some ((ret, err), c\<lparr>c_Gas := g\<rparr>)"
    "g \<le> c_Gas c" "length (sl ret) < 2 ^ 62"
    using RunPrecompiled_total [OF p e(3)] e(2) unfolding contract_ok_def by blast
  then show ?thesis using Some e(1) by (simp add: run_def run_to_def)
qed

text \<open>From the snapshot to the end of a call.\<close>

lemma run_settle:
  assumes e: "evm_ok evm" and s0: "db_to (evm_StateDB evm) s0" "world_of s0 = world_of (evm_StateDB evm)"
    and e1: "same_env evm evm1" "evm_ok evm1" "db_to (snd (Snapshot s0)) (evm_StateDB evm1)"
      "read_only ro evm \<Longrightarrow> quiet s0 (evm_StateDB evm1)"
    and c: "contract_ok (evm_keccak evm1) c" "2 * unat (c_Gas c) + 2 \<le> fuel" "length (sl input) < 2 ^ 62"
  shows "\<exists>r. Option.bind (run rn c input ro evm1) (settle (fst (Snapshot s0))) = Some r \<and> call_to ro evm (c_Gas c) r"
proof -
  obtain ret err c' evm2 where r: "run rn c input ro evm1 = Some ((ret, err), c', evm2)"
    and to: "evm_to evm1 evm2" "c_Gas c' \<le> c_Gas c" "length (sl ret) < 2 ^ 62"
      "read_only ro evm1 \<Longrightarrow> quiet (evm_StateDB evm1) (evm_StateDB evm2)"
    using run_ok [OF e1(2) c(1,3,2), of ro] by (fastforce simp: run_to_def)
  have ro: "read_only ro evm1 = read_only ro evm" using e1(1) by (simp add: read_only_def same_env_def)
  have st: "static evm \<Longrightarrow> read_only ro evm" by (simp add: static_def read_only_def)
  have same: "same_env evm evm2" using same_env_trans [OF e1(1) evm_toD(1) [OF to(1)]] .
  note s0ok = db_toD(2) [OF s0(1)]
  have d2: "db_to (snd (Snapshot s0)) (evm_StateDB evm2)"
    using e1(3) evm_toD(3) [OF to(1)] by (rule db_to_trans)
  show ?thesis
  proof (cases err)
    case None
    have d: "db_to (evm_StateDB evm) (evm_StateDB evm2)"
      using s0(1) db_to_Snapshot [OF s0ok] d2 by (blast intro: db_to_trans)
    have q: "quiet (evm_StateDB evm) (evm_StateDB evm2)" if "read_only ro evm"
    proof -
      have "quiet s0 (evm_StateDB evm2)"
        using db_to_trans [OF db_to_Snapshot [OF s0ok] e1(3)] e1(4) [OF that] to(4) that ro
        by (blast intro: quiet_trans)
      then show ?thesis using quiet_same_world [OF s0(2)] s0(1) by (blast intro: quiet_trans)
    qed
    have "evm_to evm evm2" using same evm_toD(2) [OF to(1)] d q st by (simp add: evm_to_def)
    then show ?thesis using r None to(2,3) q by (simp add: settle_def call_to_def)
  next
    case (Some ee)
    obtain s3 where s3: "RevertToSnapshot (fst (Snapshot s0)) (evm_StateDB evm2) = Some s3" "db_to s0 s3"
      "world_of s3 = world_of s0"
      by (rule db_to_Revert [OF s0ok d2])
    have d: "db_to (evm_StateDB evm) s3" using s0(1) s3(2) by (rule db_to_trans)
    have w: "world_of s3 = world_of (evm_StateDB evm)" using s3(3) s0(2) by simp
    have db: "sdb_db s3 = sdb_db (evm_StateDB evm2)"
      using db_toD(3) [OF d2] db_toD(3) [OF db_to_Snapshot [OF s0ok]] db_toD(3) [OF s3(2)] by simp
    have "evm_to evm (evm2\<lparr>evm_StateDB := s3\<rparr>)"
      using same d quiet_same_world [OF w] evm_ok_db [OF evm_toD(2) [OF to(1)] db_toD(2) [OF d] db]
      by (simp add: evm_to_def same_env_def)
    then show ?thesis using r Some s3(1) to(2,3) w quiet_same_world [OF w]
      by (auto simp: settle_def call_to_def UseGas_def)
  qed
qed


lemma call_to_early:
  assumes "evm_ok evm" "db_to (evm_StateDB evm) s" "world_of s = world_of (evm_StateDB evm)"
  shows "call_to ro evm gas ((None, gas, err), evm\<lparr>evm_StateDB := s\<rparr>)"
  using assms evm_to_db [OF assms(1,2)] quiet_same_world [OF assms(3)] by (simp add: call_to_def)

lemma call_to_refl: "evm_ok evm \<Longrightarrow> call_to ro evm gas ((None, gas, err), evm)"
  by (simp add: call_to_def)

text \<open>The part that the four calls share: share the bitmaps, load the code, run it and settle.\<close>

lemma load_run_settle:
  assumes e: "evm_ok evm" and s0: "db_to (evm_StateDB evm) s0" "world_of s0 = world_of (evm_StateDB evm)"
    and s4: "db_to (snd (Snapshot s0)) s4" "read_only ro evm \<Longrightarrow> quiet s0 s4"
    and c: "contract_ok (evm_keccak evm) c" "analysis c = None" "2 * unat (c_Gas c) + 2 \<le> fuel" "length (sl input) < 2 ^ 62"
    and l: "load_code a c (share_jumpdests cllr (evm\<lparr>evm_StateDB := s4\<rparr>)) = (c', evm1)"
  shows "\<exists>r. Option.bind (run rn c' input ro evm1) (settle (fst (Snapshot s0))) = Some r \<and> call_to ro evm (c_Gas c) r"
proof -
  have d: "db_to s0 s4" using db_to_Snapshot [OF db_toD(2) [OF s0(1)]] s4(1) by (rule db_to_trans)
  have db: "sdb_db s4 = sdb_db (evm_StateDB evm)" using db_toD(3) [OF s0(1)] db_toD(3) [OF d] by simp
  define evm0 where "evm0 = share_jumpdests cllr (evm\<lparr>evm_StateDB := s4\<rparr>)"
  have 0: "evm_ok evm0" "same_env evm evm0" "evm_StateDB evm0 = s4"
    using share_jumpdests_ok [OF evm_ok_db [OF e db_toD(2) [OF d] db], of cllr]
    by (simp_all add: evm0_def same_env_def)
  have k: "evm_keccak evm0 = evm_keccak evm" using 0(3) db by (simp add: evm_keccak_def)
  note l1 = load_code_ok [OF 0(1) l [folded evm0_def]]
  have c0: "contract_ok (evm_keccak evm0) c" using c(1) k by simp
  note l1 = l1 [OF c0 c(2)]
  have "read_only ro evm \<Longrightarrow> quiet s0 (evm_StateDB evm1)"
    using s4(2) d quiet_same_world [OF l1(2)] 0(3) by (metis quiet_trans)
  moreover have "db_to (snd (Snapshot s0)) (evm_StateDB evm1)"
    using s4(1) evm_toD(3) [OF l1(1)] 0(3) by (metis db_to_trans)
  moreover have "contract_ok (evm_keccak evm1) c'" using l1(3) evm_toD(5) [OF l1(1)] by simp
  ultimately show ?thesis
    using run_settle [OF e s0 same_env_trans [OF 0(2) evm_toD(1) [OF l1(1)]] evm_toD(2) [OF l1(1)], of ro c'] c(3,4) l1(4)
    by simp
qed

lemma env_transfer:
  assumes "evm_ok evm"
  shows "CanTransfer (evm_Context evm) = kernel_CanTransfer" "Transfer (evm_Context evm) = kernel_Transfer"
  using evm_okD(2) [OF assms] by (simp_all add: env_ok_def)

lemma Call_ok:
  assumes e: "evm_ok evm" and i: "length (sl input) < 2 ^ 62" "0 \<le> v" "static evm \<Longrightarrow> v = 0"
    and g: "unat gas < 2 ^ 45" "2 * unat gas + 2 \<le> fuel"
  shows "\<exists>r. Call rn cllr addr input gas v evm = Some r \<and> call_to False evm gas r"
proof -
  define s where "s = evm_StateDB evm"
  define a where "a = ref_Address cllr"
  define s0 where "s0 = snd (GetBalance a s)"
  define s2 where "s2 = snd (Exist addr (snd (Snapshot s0)))"
  define ex where "ex = fst (Exist addr (snd (Snapshot s0)))"
  have s: "db_ok s" using evm_okD(1) [OF e] by (simp add: s_def)
  have s0: "db_to s s0" "world_of s0 = world_of s" unfolding s0_def by (rule db_to_gets world_of_gets, rule s)+
  note ok0 = db_toD(2) [OF s0(1)]
  have s1: "db_to s0 (snd (Snapshot s0))" by (rule db_to_Snapshot [OF ok0])
  note ok1 = db_toD(2) [OF s1]
  have s2: "db_to (snd (Snapshot s0)) s2" "world_of s2 = world_of s0"
    unfolding s2_def using db_to_gets(1) [OF ok1] world_of_gets(1) [OF ok1] world_of_gets(6) [OF ok0] by simp_all
  note ok2 = db_toD(2) [OF s2(1)]
  have b: "fst (GetBalance a s2) = fst (GetBalance a s)"
    using GetBalance_world [OF s, of s2] db_to_trans [OF s0(1) db_to_trans [OF s1 s2(1)]] s0(2) s2(2) by simp
  show ?thesis
  proof (cases "NoRecursion (vmConfig evm) \<and> depth evm > 0 \<or> depth evm > CallCreateDepth")
    case True
    then show ?thesis using call_to_refl [OF e] by (auto simp: Call_def)
  next
    case False
    note nd = False
    have can: "CanTransfer (evm_Context evm) (evm_StateDB evm) a v = (v \<le> fst (GetBalance a s), s0)"
      by (simp add: env_transfer [OF e] kernel_CanTransfer_def s_def s0_def split: prod.split)
    show ?thesis
    proof (cases "v \<le> fst (GetBalance a s)")
      case False
      then show ?thesis
        using nd can call_to_early [OF e s0 [unfolded s_def], of False gas "Some ErrInsufficientBalance"]
        by (auto simp: Call_def a_def [symmetric])
    next
      case True
      show ?thesis
      proof (cases "\<not> ex \<and> precompiles evm addr = None \<and> IsEIP158 (chainConfig evm) (blockNum evm) \<and> v = 0")
        case early: True
        have "db_to s s2" "world_of s2 = world_of s" using s0 s1 s2 by (auto intro: db_to_trans)
        then show ?thesis
          using nd can True early call_to_early [OF e, of s2 False gas None]
          by (auto simp: Call_def a_def [symmetric] s_def [symmetric] s2_def ex_def case_prod_beta)
      next
        case go: False
        define s3 where "s3 = (if ex then s2 else CreateAccount addr s2)"
        define s4 where "s4 = kernel_Transfer s3 a addr v"
        define c where "c = NewContract cllr addr (Some v) gas"
        have nex: "\<not> fst (Exist addr s2)" if "\<not> ex"
          using that Exist_view(1) [OF db_okD(1) [OF ok2], of addr] Exist_view(1) [OF db_okD(1) [OF ok1], of addr]
            s2(2) world_of_gets(6) [OF ok0] by (simp add: ex_def del: world_of_sel)
        have s3: "db_to s2 s3" "quiet s2 s3" "fst (GetBalance a s3) = fst (GetBalance a s2)"
          using db_to_CreateAccount [OF ok2, of addr] quiet_CreateAccount [OF ok2, of addr] nex
            GetBalance_CreateAccount [OF ok2, of a addr] ok2
          by (simp_all add: s3_def)
        have s4: "db_to s3 s4" "v = 0 \<Longrightarrow> quiet s3 s4"
          using db_to_Transfer [OF db_toD(2) [OF s3(1)] i(2)] quiet_Transfer [OF db_toD(2) [OF s3(1)]] s3(3) b True
          by (simp_all add: s4_def)
        have d4: "db_to (snd (Snapshot s0)) s4" using s2(1) s3(1) s4(1) by (blast intro: db_to_trans)
        have q: "quiet s0 s4" if "read_only False evm"
        proof -
          have "quiet s2 s4" using that i(3) s3 s4 by (auto simp: static_def read_only_def intro: quiet_trans)
          then show ?thesis using quiet_same_world [OF s2(2)] db_to_trans [OF s1 s2(1)] by (blast intro: quiet_trans)
        qed
        have c: "contract_ok (evm_keccak evm) c" "analysis c = None" "c_Gas c = gas"
          using g i(2) by (simp_all add: c_def NewContract_def contract_ok_def)
        obtain c' evm1 where l: "load_code addr c (share_jumpdests cllr (evm\<lparr>evm_StateDB := s4\<rparr>)) = (c', evm1)"
          by fastforce
        obtain r where "Option.bind (run rn c' input False evm1) (settle (fst (Snapshot s0))) = Some r"
          "call_to False evm gas r"
          using load_run_settle [where ro = False, OF e s0 [unfolded s_def] d4 q c(1,2) _ i(1) l] g(2) c(3) by auto
        then show ?thesis using nd can True go l
          by (auto simp: Call_def Let_def a_def [symmetric] s2_def [symmetric] ex_def [symmetric] s3_def
              env_transfer(2) [OF e] s4_def c_def [symmetric] case_prod_beta simp del: split_paired_Ex)
      qed
    qed
  qed
qed


lemma CallCode_ok:
  assumes e: "evm_ok evm" and i: "length (sl input) < 2 ^ 62" "0 \<le> v"
    and g: "unat gas < 2 ^ 45" "2 * unat gas + 2 \<le> fuel"
  shows "\<exists>r. CallCode rn cllr addr input gas v evm = Some r \<and> call_to False evm gas r"
proof -
  define s where "s = evm_StateDB evm"
  define a where "a = ref_Address cllr"
  define s0 where "s0 = snd (GetBalance a s)"
  have s: "db_ok s" using evm_okD(1) [OF e] by (simp add: s_def)
  have s0: "db_to s s0" "world_of s0 = world_of s" unfolding s0_def by (rule db_to_gets world_of_gets, rule s)+
  note ok0 = db_toD(2) [OF s0(1)]
  have can: "CanTransfer (evm_Context evm) (evm_StateDB evm) a v = (v \<le> fst (GetBalance a s), s0)"
    by (simp add: env_transfer [OF e] kernel_CanTransfer_def s_def s0_def split: prod.split)
  define c where "c = NewContract cllr a (Some v) gas"
  have c: "contract_ok (evm_keccak evm) c" "analysis c = None" "c_Gas c = gas"
    using g i(2) by (simp_all add: c_def NewContract_def contract_ok_def)
  obtain c' evm1 where
    l: "load_code addr c (share_jumpdests cllr (evm\<lparr>evm_StateDB := snd (Snapshot s0)\<rparr>)) = (c', evm1)" by fastforce
  obtain r where "Option.bind (run rn c' input False evm1) (settle (fst (Snapshot s0))) = Some r" "call_to False evm gas r"
    using load_run_settle [where ro = False, OF e s0 [unfolded s_def] db_to_refl [OF db_toD(2) [OF db_to_Snapshot [OF ok0]]]
      quiet_Snapshot [OF ok0] c(1,2) _ i(1) l] g(2) c(3) by auto
  then show ?thesis
    using can l call_to_refl [OF e] call_to_early [OF e s0 [unfolded s_def], of False gas "Some ErrInsufficientBalance"]
    by (auto simp: CallCode_def a_def [symmetric] c_def [symmetric] case_prod_beta simp del: split_paired_Ex)
qed

lemma DelegateCall_ok:
  assumes e: "evm_ok evm" and i: "length (sl input) < 2 ^ 62" "c_value parent = Some v" "0 \<le> v"
    and g: "unat gas < 2 ^ 45" "2 * unat gas + 2 \<le> fuel"
  shows "\<exists>r. DelegateCall rn (OfContract parent) addr input gas evm = Some r \<and> call_to False evm gas r"
proof -
  define s where "s = evm_StateDB evm"
  have s: "db_ok s" using evm_okD(1) [OF e] by (simp add: s_def)
  define c where "c = (NewContract (OfContract parent) (self parent) None gas)\<lparr>CallerAddress := CallerAddress parent, c_value := Some v\<rparr>"
  have c: "contract_ok (evm_keccak evm) c" "analysis c = None" "c_Gas c = gas"
    using g i by (simp_all add: c_def NewContract_def contract_ok_def)
  obtain c' evm1 where
    l: "load_code addr c (share_jumpdests (OfContract parent) (evm\<lparr>evm_StateDB := snd (Snapshot s)\<rparr>)) = (c', evm1)" by fastforce
  obtain r where "Option.bind (run rn c' input False evm1) (settle (fst (Snapshot s))) = Some r" "call_to False evm gas r"
    using load_run_settle [where ro = False, OF e db_to_refl [OF s, unfolded s_def] refl db_to_refl [OF db_toD(2) [OF db_to_Snapshot [OF s]], unfolded s_def]
      quiet_Snapshot [OF s, unfolded s_def] c(1,2) _ i(1) l [unfolded s_def]] g(2) c(3) by (auto simp: s_def)
  then show ?thesis
    using l call_to_refl [OF e] i(2)
    by (auto simp: DelegateCall_def AsDelegate_def c_def [symmetric] s_def [symmetric] case_prod_beta Let_def
        simp del: split_paired_Ex)
qed

lemma StaticCall_ok:
  assumes e: "evm_ok evm" and i: "length (sl input) < 2 ^ 62"
    and g: "unat gas < 2 ^ 45" "2 * unat gas + 2 \<le> fuel"
  shows "\<exists>r. StaticCall rn cllr addr input gas evm = Some r \<and> call_to True evm gas r"
proof -
  define s where "s = evm_StateDB evm"
  have s: "db_ok s" using evm_okD(1) [OF e] by (simp add: s_def)
  define c where "c = NewContract cllr addr (Some 0) gas"
  have c: "contract_ok (evm_keccak evm) c" "analysis c = None" "c_Gas c = gas"
    using g by (simp_all add: c_def NewContract_def contract_ok_def)
  obtain c' evm1 where
    l: "load_code addr c (share_jumpdests cllr (evm\<lparr>evm_StateDB := snd (Snapshot s)\<rparr>)) = (c', evm1)" by fastforce
  obtain r where "Option.bind (run rn c' input True evm1) (settle (fst (Snapshot s))) = Some r" "call_to True evm gas r"
    using load_run_settle [where ro = True, OF e db_to_refl [OF s, unfolded s_def] refl db_to_refl [OF db_toD(2) [OF db_to_Snapshot [OF s]], unfolded s_def]
      quiet_Snapshot [OF s, unfolded s_def] c(1,2) _ i(1) l [unfolded s_def]] g(2) c(3) by (auto simp: s_def)
  then show ?thesis
    using l call_to_refl [OF e]
    by (auto simp: StaticCall_def c_def [symmetric] s_def [symmetric] case_prod_beta Let_def
        simp del: split_paired_Ex)
qed


lemma create_ok:
  assumes e: "evm_ok evm" "\<not> static evm" and i: "length (fst cah) < 2 ^ 62" "0 \<le> v"
      "snd cah = 0 \<or> snd cah = evm_keccak evm (fst cah)"
    and g: "unat gas < 2 ^ 45" "2 * unat gas + 2 \<le> fuel"
  shows "\<exists>r. create rn cllr cah gas v addr evm = Some r \<and> create_to evm gas r"
proof -
  define s where "s = evm_StateDB evm"
  define a where "a = ref_Address cllr"
  define s0 where "s0 = snd (GetBalance a s)"
  define s1 where "s1 = snd (GetNonce a s0)"
  define s2 where "s2 = SetNonce a (fst (GetNonce a s0) + 1) s1"
  define s3 where "s3 = snd (GetCodeHash addr s2)"
  define s4 where "s4 = snd (GetNonce addr s3)"
  define s6 where "s6 = CreateAccount addr (snd (Snapshot s4))"
  define s7 where "s7 = (if IsEIP158 (chainConfig evm) (blockNum evm) then SetNonce addr 1 s6 else s6)"
  define s8 where "s8 = kernel_Transfer s7 a addr v"
  have s: "db_ok s" using evm_okD(1) [OF e(1)] by (simp add: s_def)
  have s0: "db_to s s0" "world_of s0 = world_of s" unfolding s0_def by (rule db_to_gets world_of_gets, rule s)+
  note ok0 = db_toD(2) [OF s0(1)]
  have s1: "db_to s0 s1" "world_of s1 = world_of s0" unfolding s1_def by (rule db_to_gets world_of_gets, rule ok0)+
  note ok1 = db_toD(2) [OF s1(1)]
  have s2: "db_to s1 s2" unfolding s2_def by (rule db_to_SetNonce [OF ok1])
  note ok2 = db_toD(2) [OF s2]
  have s3: "db_to s2 s3" "world_of s3 = world_of s2" unfolding s3_def by (rule db_to_gets world_of_gets, rule ok2)+
  note ok3 = db_toD(2) [OF s3(1)]
  have s4: "db_to s3 s4" "world_of s4 = world_of s3" unfolding s4_def by (rule db_to_gets world_of_gets, rule ok3)+
  note ok4 = db_toD(2) [OF s4(1)]
  have s5: "db_to s4 (snd (Snapshot s4))" by (rule db_to_Snapshot [OF ok4])
  note ok5 = db_toD(2) [OF s5]
  have s6: "db_to (snd (Snapshot s4)) s6" unfolding s6_def by (rule db_to_CreateAccount [OF ok5])
  note ok6 = db_toD(2) [OF s6]
  have s7: "db_to s6 s7" using db_to_SetNonce [OF ok6, of addr 1] ok6 by (simp add: s7_def)
  note ok7 = db_toD(2) [OF s7]
  have "fst (GetBalance a s7) = fst (GetBalance a s6)" using GetBalance_SetNonce [OF ok6, of a addr 1] by (simp add: s7_def)
  also have "\<dots> = fst (GetBalance a s4)"
    using GetBalance_CreateAccount [OF ok5, of a addr] GetBalance_world [OF ok4 s5 world_of_gets(6) [OF ok4]] by (simp add: s6_def)
  also have "\<dots> = fst (GetBalance a s2)" using GetBalance_world [OF ok2 s3] GetBalance_world [OF ok3 s4] by simp
  also have "\<dots> = fst (GetBalance a s)"
    using GetBalance_SetNonce [OF ok1] GetBalance_world [OF ok0 s1] GetBalance_world [OF s s0] by (simp add: s2_def)
  finally have b: "fst (GetBalance a s7) = fst (GetBalance a s)" .
  have d4: "db_to s s4" using s0(1) s1(1) s2 s3(1) s4(1) by (blast intro: db_to_trans)
  have can: "CanTransfer (evm_Context evm) (evm_StateDB evm) a v = (v \<le> fst (GetBalance a s), s0)"
    by (simp add: env_transfer [OF e(1)] kernel_CanTransfer_def s_def s0_def split: prod.split)
  have early: "create_to evm gas ((None, b, gas', err), evm\<lparr>evm_StateDB := t\<rparr>)"
    if "db_to s t" "gas' \<le> gas" for b gas' err t
    using evm_to_db [OF e(1), of t] that e(2) by (simp add: create_to_def s_def)
  define c where "c = SetCodeOptionalHash (Some addr) cah (NewContract cllr addr (Some v) gas)"
  define evm1 where "evm1 = share_jumpdests cllr (evm\<lparr>evm_StateDB := s8\<rparr>)"
  have main: "create_to evm gas ((None, addr, gas, None), evm1)"
    "\<exists>r. Option.bind (run rn c None False evm1) (deposit (fst (Snapshot s4)) addr) = Some r \<and> create_to evm gas r"
    if v: "v \<le> fst (GetBalance a s)"
  proof -
    have s8: "db_to s7 s8" using v b i(2) by (simp add: s8_def db_to_Transfer [OF ok7])
    have d8: "db_to (snd (Snapshot s4)) s8" using s6 s7 s8 by (blast intro: db_to_trans)
    have ds8: "db_to s s8" using d4 s5 d8 by (blast intro: db_to_trans)
    have "evm_to evm (evm\<lparr>evm_StateDB := s8\<rparr>)" using ds8 e by (intro evm_to_db) (simp_all add: s_def)
    then have 1: "evm_ok evm1" "same_env evm evm1" "evm_StateDB evm1 = s8"
      using share_jumpdests_ok [OF evm_toD(2), of evm "evm\<lparr>evm_StateDB := s8\<rparr>" cllr]
      by (simp_all add: evm1_def same_env_def)
    then show "create_to evm gas ((None, addr, gas, None), evm1)" using ds8 e by (simp add: create_to_def evm_to_def s_def)
    have k: "evm_keccak evm1 = evm_keccak evm" using 1(3) db_toD(3) [OF ds8] by (simp add: evm_keccak_def s_def)
    have c: "contract_ok (evm_keccak evm1) c" "c_Gas c = gas"
      using i g by (auto simp: c_def SetCodeOptionalHash_def NewContract_def contract_ok_def k)
    obtain ret err c' evm2 where r: "run rn c None False evm1 = Some ((ret, err), c', evm2)" "evm_to evm1 evm2"
      "c_Gas c' \<le> gas" "length (sl ret) < 2 ^ 62"
      using run_ok [OF 1(1) c(1), of None False] c(2) g(2) by (fastforce simp: run_to_def)
    have "db_to (snd (Snapshot s4)) (evm_StateDB evm2)" using d8 evm_toD(3) [OF r(2)] 1(3) by (metis db_to_trans)
    then show "\<exists>r. Option.bind (run rn c None False evm1) (deposit (fst (Snapshot s4)) addr) = Some r \<and> create_to evm gas r"
      using deposit_ok [OF e d4 [unfolded s_def] same_env_trans [OF 1(2) evm_toD(1) [OF r(2)]] evm_toD(2) [OF r(2)] _ r(4,3)] r(1)
      by simp
  qed
  show ?thesis
  proof (cases "depth evm > CallCreateDepth")
    case True
    then show ?thesis using early [OF db_to_refl [OF s], of gas] by (auto simp: create_def s_def simp del: split_paired_Ex)
  next
    case False
    then show ?thesis
      using can main early [OF s0(1), of gas] early [OF d4, of 0]
      by (auto simp: create_def Let_def a_def [symmetric] s1_def [symmetric] s2_def [symmetric] s3_def [symmetric] s4_def [symmetric]
          s6_def [symmetric] s7_def env_transfer(2) [OF e(1)] s8_def c_def [symmetric] evm1_def
          case_prod_beta simp del: split_paired_Ex)
  qed
qed


lemma Create_ok:
  assumes e: "evm_ok evm" "\<not> static evm" and i: "length code < 2 ^ 62" "0 \<le> v"
    and g: "unat gas < 2 ^ 45" "2 * unat gas + 2 \<le> fuel"
  shows "\<exists>r. Create rn cllr code gas v evm = Some r \<and> create_to evm gas r"
proof -
  define s where "s = snd (GetNonce (ref_Address cllr) (evm_StateDB evm))"
  have d: "db_to (evm_StateDB evm) s" "world_of s = world_of (evm_StateDB evm)"
    unfolding s_def by (rule db_to_gets world_of_gets, rule evm_okD [OF e(1)])+
  have e1: "evm_to evm (evm\<lparr>evm_StateDB := s\<rparr>)" using d e by (intro evm_to_db) simp_all
  have "\<not> static (evm\<lparr>evm_StateDB := s\<rparr>)" using e(2) by (simp add: static_def)
  then have "\<exists>r. create rn cllr (code, 0) gas v addr (evm\<lparr>evm_StateDB := s\<rparr>) = Some r \<and> create_to (evm\<lparr>evm_StateDB := s\<rparr>) gas r" for addr
    using create_ok [OF evm_toD(2) [OF e1], of "(code, 0)"] i g by simp
  moreover have "create_to evm gas r" if "create_to (evm\<lparr>evm_StateDB := s\<rparr>) gas r" for r
    using that evm_to_trans [OF e1] by (auto simp: create_to_def)
  moreover obtain a where "CreateAddress (evm_keccak evm) (ref_Address cllr) (fst (GetNonce (ref_Address cllr) (evm_StateDB evm))) = Some a"
    using CreateAddress_total by blast
  ultimately show ?thesis
    by (simp only: Create_def case_prod_beta Let_def s_def [symmetric] bind.simps) blast
qed

end

end
