(* ===== verification/Machine_Exec.thy ===== *)
theory Machine_Exec
  imports Machine_Calls
begin

text \<open>
  Every instruction returns: with its operands on the stack, its memory paid for and gas for its callee, no
  execution function panics, and each keeps the invariant of the frame.
\<close>

declare option.case_cong [cong] sum.case_cong [cong]

subsection \<open>Frames\<close>

definition exec_to :: "'t frame \<Rightarrow> nat \<Rightarrow> call_result \<times> 't frame \<Rightarrow> bool" where
  "exec_to f g r \<longleftrightarrow> (case r of ((ret, err), f') \<Rightarrow>
     frame_ok f' \<and> evm_to (f_evm f) (f_evm f') \<and> length (sl ret) < 2 ^ 62 \<and> f_gas f' \<le> g)"

text \<open>
  \<open>exec_ok e rn fuel P pops pushes ext\<close>: in a good frame with \<open>pops\<close> operands, room for \<open>pushes\<close> results and
  the precondition \<open>P\<close>, the function returns. \<open>ext\<close> is the gas it may get back from a callee.
\<close>

definition exec_ok ::
  "'t executionFunc \<Rightarrow> 't run_fn \<Rightarrow> nat \<Rightarrow> ('t frame \<Rightarrow> bool) \<Rightarrow> nat \<Rightarrow> nat \<Rightarrow> (u64 \<Rightarrow> Stack \<Rightarrow> nat) \<Rightarrow> bool" where
  "exec_ok e rn fuel P pops pushes ext \<longleftrightarrow>
     (\<forall>f g. frame_ok f \<longrightarrow> pops \<le> length (f_stack f) \<longrightarrow> length (f_stack f) + pushes \<le> StackLimit + pops \<longrightarrow> P f \<longrightarrow>
        g = f_gas f + ext (callGasTemp (f_evm f)) (f_stack f) \<longrightarrow> g < 2 ^ 45 \<longrightarrow> 2 * g + 2 \<le> fuel \<longrightarrow>
        (\<exists>r. e rn f = Some r \<and> exec_to f g r))"

lemma frame_ok_stack:
  "frame_ok f \<Longrightarrow> \<forall>x \<in> set st. 0 \<le> x \<Longrightarrow> length st \<le> StackLimit \<Longrightarrow> frame_ok (f\<lparr>f_stack := st\<rparr>)"
  by (simp add: frame_ok_def)

lemma frame_ok_pc [simp]: "frame_ok (f\<lparr>f_pc := n\<rparr>) = frame_ok f"
  by (simp add: frame_ok_def)

lemma frame_ok_mem: "frame_ok f \<Longrightarrow> length (store m) < 2 ^ 40 \<Longrightarrow> frame_ok (f\<lparr>f_mem := m\<rparr>)"
  by (simp add: frame_ok_def)

lemma frame_ok_evm: "frame_ok f \<Longrightarrow> evm_to (f_evm f) evm \<Longrightarrow> frame_ok (f\<lparr>f_evm := evm\<rparr>)"
  using evm_toD(2,5) [of "f_evm f" evm] by (simp add: frame_ok_def)

lemma frame_ok_contract:
  "frame_ok f \<Longrightarrow> contract_ok (evm_keccak (f_evm f)) c \<Longrightarrow> frame_ok (f\<lparr>f_contract := c\<rparr>)"
  by (simp add: frame_ok_def)

lemma contract_ok_gas: "contract_ok kec c \<Longrightarrow> unat g < 2 ^ 45 \<Longrightarrow> contract_ok kec (c\<lparr>c_Gas := g\<rparr>)"
  by (simp add: contract_ok_def)

lemma frame_ok_with_db:
  assumes "frame_ok f" "db_to (f_db f) s" "static (f_evm f) \<Longrightarrow> quiet (f_db f) s"
  shows "frame_ok (with_db s f)" "evm_to (f_evm f) (f_evm (with_db s f))"
proof -
  show e: "evm_to (f_evm f) (f_evm (with_db s f))"
    using evm_to_db [OF frame_okD(1) [OF assms(1)] assms(2,3)] by (simp add: with_db_def)
  show "frame_ok (with_db s f)" using frame_ok_evm [OF assms(1) e] by (simp add: with_db_def)
qed

lemma with_db_sel [simp]:
  "f_pc (with_db s f) = f_pc f" "f_contract (with_db s f) = f_contract f" "f_mem (with_db s f) = f_mem f"
  "f_stack (with_db s f) = f_stack f" "evm_StateDB (f_evm (with_db s f)) = s"
  by (simp_all add: with_db_def)

text \<open>An instruction that takes \<open>pops\<close> operands off and changes nothing but the stack.\<close>

lemma exec_okI:
  assumes "\<And>f st. frame_ok f \<Longrightarrow> P f \<Longrightarrow> length st = pops \<Longrightarrow> (\<And>rest. f_stack f = st @ rest \<Longrightarrow>
      \<forall>x \<in> set st. 0 \<le> x \<Longrightarrow> \<forall>x \<in> set rest. 0 \<le> x \<Longrightarrow> length rest + pushes \<le> StackLimit \<Longrightarrow>
      \<exists>r. e rn f = Some r \<and> exec_to f (f_gas f) r)"
  shows "exec_ok e rn fuel P pops pushes no_ext"
  unfolding exec_ok_def
proof (intro allI impI)
  fix f :: "'a frame" and g
  assume f: "frame_ok f" and l: "pops \<le> length (f_stack f)" "length (f_stack f) + pushes \<le> StackLimit + pops" and P: "P f"
    and g: "g = f_gas f + no_ext (callGasTemp (f_evm f)) (f_stack f)"
  define st where "st = take pops (f_stack f)"
  define rest where "rest = drop pops (f_stack f)"
  have s: "f_stack f = st @ rest" "length st = pops" "length rest + pushes \<le> StackLimit"
    using l by (simp_all add: st_def rest_def)
  have "\<forall>x \<in> set st. 0 \<le> x" "\<forall>x \<in> set rest. 0 \<le> x" using frame_okD(4) [OF f] s(1) by auto
  then show "\<exists>r. e rn f = Some r \<and> exec_to f g r"
    using assms [OF f P s(2,1)] s(3) g by (simp add: no_ext_def)
qed

lemma exec_to_stack:
  "frame_ok f \<Longrightarrow> \<forall>x \<in> set st. 0 \<le> x \<Longrightarrow> length st \<le> StackLimit \<Longrightarrow>
   exec_to f (f_gas f) ((None, err), f\<lparr>f_stack := st\<rparr>)"
  by (simp add: exec_to_def frame_ok_stack frame_okD(1))

subsection \<open>Stack instructions\<close>

lemma list_of_length:
  "length xs = Suc 0 \<longleftrightarrow> (\<exists>a. xs = [a])" "length xs = 2 \<longleftrightarrow> (\<exists>a b. xs = [a, b])"
  "length xs = 3 \<longleftrightarrow> (\<exists>a b c. xs = [a, b, c])" "length xs = 4 \<longleftrightarrow> (\<exists>a b c d. xs = [a, b, c, d])"
  "length xs = 6 \<longleftrightarrow> (\<exists>a b c d e f. xs = [a, b, c, d, e, f])"
  "length xs = 7 \<longleftrightarrow> (\<exists>a b c d e f g. xs = [a, b, c, d, e, f, g])"
  by (auto simp: length_Suc_conv eval_nat_numeral)

lemma exec_stack0:
  assumes "e rn = stack0 g" "\<And>f. frame_ok f \<Longrightarrow> P f \<Longrightarrow> 0 \<le> g f"
  shows "exec_ok e rn fuel P 0 1 no_ext"
  by (rule exec_okI) (auto simp: assms stack0_def ok_def push_def intro!: exec_to_stack)

lemma exec_stack1:
  assumes "e rn = stack1 g" "\<And>x. 0 \<le> x \<Longrightarrow> 0 \<le> g x"
  shows "exec_ok e rn fuel P 1 1 no_ext"
  by (rule exec_okI) (auto simp: assms stack1_def ok_def push_def pop_def list_of_length intro!: exec_to_stack)

lemma exec_stack2:
  assumes "e rn = stack2 g" "\<And>x y. 0 \<le> x \<Longrightarrow> 0 \<le> y \<Longrightarrow> 0 \<le> g x y"
  shows "exec_ok e rn fuel P 2 1 no_ext"
  by (rule exec_okI) (auto simp: assms stack2_def ok_def push_def pop_def list_of_length intro!: exec_to_stack)

lemma exec_stack3:
  assumes "e rn = stack3 g" "\<And>x y z. 0 \<le> x \<Longrightarrow> 0 \<le> y \<Longrightarrow> 0 \<le> z \<Longrightarrow> 0 \<le> g x y z"
  shows "exec_ok e rn fuel P 3 1 no_ext"
  by (rule exec_okI) (auto simp: assms stack3_def ok_def push_def pop_def list_of_length intro!: exec_to_stack)


lemma Exp_nonneg: "0 \<le> ex \<Longrightarrow> 0 \<le> Exp b ex"
  by (simp add: Exp_eq)

lemma exec_binary:
  "exec_ok opAdd rn fuel P 2 1 no_ext" "exec_ok opSub rn fuel P 2 1 no_ext" "exec_ok opMul rn fuel P 2 1 no_ext"
  "exec_ok opDiv rn fuel P 2 1 no_ext" "exec_ok opSdiv rn fuel P 2 1 no_ext" "exec_ok opMod rn fuel P 2 1 no_ext"
  "exec_ok opSmod rn fuel P 2 1 no_ext" "exec_ok opExp rn fuel P 2 1 no_ext"
  by (rule exec_stack2, rule opAdd_def opSub_def opMul_def opDiv_def opSdiv_def opMod_def opSmod_def opExp_def,
      simp add: Let_def Exp_nonneg)+

lemma exec_compare:
  "exec_ok opLt rn fuel P 2 1 no_ext" "exec_ok opGt rn fuel P 2 1 no_ext" "exec_ok opSlt rn fuel P 2 1 no_ext"
  "exec_ok opSgt rn fuel P 2 1 no_ext" "exec_ok opEq rn fuel P 2 1 no_ext" "exec_ok opAnd rn fuel P 2 1 no_ext"
  "exec_ok opOr rn fuel P 2 1 no_ext" "exec_ok opXor rn fuel P 2 1 no_ext" "exec_ok opByte rn fuel P 2 1 no_ext"
  by (rule exec_stack2, rule opLt_def opGt_def opSlt_def opSgt_def opEq_def opAnd_def opOr_def opXor_def opByte_def, simp)+

lemma exec_unary:
  "exec_ok opNot rn fuel P 1 1 no_ext" "exec_ok opIszero rn fuel P 1 1 no_ext"
  by (rule exec_stack1, rule opNot_def opIszero_def, simp)+

lemma exec_ternary:
  "exec_ok opAddmod rn fuel P 3 1 no_ext" "exec_ok opMulmod rn fuel P 3 1 no_ext"
  by (rule exec_stack3, rule opAddmod_def opMulmod_def, simp)+

lemma exec_nullary:
  "exec_ok opAddress rn fuel P 0 1 no_ext" "exec_ok opOrigin rn fuel P 0 1 no_ext" "exec_ok opCaller rn fuel P 0 1 no_ext"
  "exec_ok opCallDataSize rn fuel P 0 1 no_ext" "exec_ok opReturnDataSize rn fuel P 0 1 no_ext"
  "exec_ok opCodeSize rn fuel P 0 1 no_ext" "exec_ok opCoinbase rn fuel P 0 1 no_ext"
  "exec_ok opTimestamp rn fuel P 0 1 no_ext" "exec_ok opNumber rn fuel P 0 1 no_ext"
  "exec_ok opDifficulty rn fuel P 0 1 no_ext" "exec_ok opGasLimit rn fuel P 0 1 no_ext"
  "exec_ok opPc rn fuel P 0 1 no_ext" "exec_ok opMsize rn fuel P 0 1 no_ext" "exec_ok opGas rn fuel P 0 1 no_ext"
  by (rule exec_stack0, rule opAddress_def opOrigin_def opCaller_def opCallDataSize_def opReturnDataSize_def
      opCodeSize_def opCoinbase_def opTimestamp_def opNumber_def opDifficulty_def opGasLimit_def opPc_def opMsize_def
      opGas_def, simp add: addr_Big_eq)+

lemma exec_gasprice: "exec_ok opGasprice rn fuel P 0 1 no_ext"
  using frame_okD(7) by (intro exec_stack0 [OF opGasprice_def]) (auto simp: env_ok_def)

lemma exec_signextend: "exec_ok opSignExtend rn fuel P 2 1 no_ext"
  by (rule exec_okI) (auto simp: opSignExtend_def ok_def push_def pop_def list_of_length Let_def intro!: exec_to_stack)

lemma frame_ok_value:
  assumes "frame_ok f"
  obtains v where "c_value (f_contract f) = Some v" "0 \<le> v"
  using frame_okD(2) [OF assms] unfolding contract_ok_def by blast

lemma exec_callvalue: "exec_ok opCallValue rn fuel P 0 1 no_ext"
proof (rule exec_okI)
  fix f :: "'a frame" and st rest :: Stack
  assume f: "frame_ok f" "length st = 0" "f_stack f = st @ rest" "\<forall>x \<in> set rest. 0 \<le> x" "length rest + 1 \<le> StackLimit"
  obtain v where "c_value (f_contract f) = Some v" "0 \<le> v" by (rule frame_ok_value [OF f(1)])
  then show "\<exists>r. opCallValue rn f = Some r \<and> exec_to f (f_gas f) r"
    using f by (auto simp: opCallValue_def ok_def push_def intro!: exec_to_stack)
qed

lemma exec_pop: "exec_ok opPop rn fuel P 1 0 no_ext"
  by (rule exec_okI) (auto simp: opPop_def ok_def pop_def list_of_length intro!: exec_to_stack)

lemma exec_nop: "exec_ok opStop rn fuel P 0 0 no_ext" "exec_ok opJumpdest rn fuel P 0 0 no_ext"
  by (rule exec_okI, auto simp: opStop_def opJumpdest_def ok_def exec_to_def frame_okD(1))+

lemma exec_dup: "0 < n \<Longrightarrow> exec_ok (makeDup n) rn fuel P n (n + 1) no_ext"
  unfolding exec_ok_def
  by (auto simp: makeDup_def dup_def ok_def push_def no_ext_def intro!: exec_to_stack frame_ok_nth
      dest: bspec [OF frame_okD(4)])

lemma exec_swap: "exec_ok (makeSwap n) rn fuel P (n + 1) (n + 1) no_ext"
  unfolding exec_ok_def
proof (intro allI impI)
  fix f :: "'a frame" and g
  assume f: "frame_ok f" and l: "n + 1 \<le> length (f_stack f)" and g: "g = f_gas f + no_ext (callGasTemp (f_evm f)) (f_stack f)"
  obtain st where st: "swap (n + 1) (f_stack f) = Some st" using l by (simp add: swap_def)
  then show "\<exists>r. makeSwap n rn f = Some r \<and> exec_to f g r"
    using f g swap_set [OF st] swap_length [OF st] frame_okD(4,5) [OF f]
    by (auto simp: makeSwap_def ok_def no_ext_def intro!: exec_to_stack)
qed

lemma sint_unat: "unat (w :: u64) < 2 ^ 63 \<Longrightarrow> sint w = int (unat w)"
  by (metis of_nat_less_iff of_nat_numeral of_nat_power sint_eq_uint_u64 uint_nat)

text \<open>A push is only executed at a position inside the code.\<close>

definition pc_in_code :: "'t frame \<Rightarrow> bool" where
  "pc_in_code f \<longleftrightarrow> unat (f_pc f) < length (c_Code (f_contract f))"

lemma exec_push: "n \<le> 32 \<Longrightarrow> exec_ok (makePush sz n) rn fuel pc_in_code 0 1 no_ext"
proof (rule exec_okI)
  fix f :: "'a frame" and st rest :: Stack
  assume n: "n \<le> 32"
  assume f: "frame_ok f" "pc_in_code f" "length st = 0" "f_stack f = st @ rest" "\<forall>x \<in> set rest. 0 \<le> x" "length rest + 1 \<le> StackLimit"
  define len where "len = length (c_Code (f_contract f))"
  have len: "len < 2 ^ 62" "unat (f_pc f) < len"
    using frame_okD(2) [OF f(1)] f(2) by (simp_all add: len_def contract_ok_def pc_in_code_def)
  have u: "unat (f_pc f + 1) = unat (f_pc f) + 1" using len by (subst unat_add_no_wrap) auto
  then have s: "sint (f_pc f + 1) = int (unat (f_pc f) + 1)" using len sint_unat [of "f_pc f + 1"] by simp
  define k where "k = unat (f_pc f) + 1"
  have k: "k \<le> len" using len(2) by (simp add: k_def)
  have m: "(if int k < int len then int k else int len) = int k" using k by auto
  have "slice (c_Code (f_contract f)) k (nat (if int k + int n < int len then int k + int n else int len)) \<noteq> None"
    using k by (auto simp: slice_def len_def)
  moreover have "RightPadBytes x (int n) = Some (x @ replicate (n - length x) 0)" for x using n by (simp add: RightPadBytes_Some)
  ultimately obtain d where "makePush sz n rn f =
      ok (f\<lparr>f_stack := push (SetBytes d) (f_stack f), f_pc := f_pc f + sz\<rparr>)"
    unfolding makePush_def Let_def len_def [symmetric] s k_def [symmetric] m by auto
  then show "\<exists>r. makePush sz n rn f = Some r \<and> exec_to f (f_gas f) r"
    using f frame_ok_stack [OF f(1), of "SetBytes d # rest"]
    by (simp add: ok_def push_def exec_to_def frame_okD(1))
qed


subsection \<open>Memory instructions\<close>

text \<open>The memory the instruction asked for has been paid for and is there.\<close>

definition fits :: "(Stack \<Rightarrow> int option) \<Rightarrow> 't frame \<Rightarrow> bool" where
  "fits ms f \<longleftrightarrow> (\<forall>x. ms (f_stack f) = Some x \<longrightarrow> x \<le> int (length (store (f_mem f))))"

lemma mem_window:
  assumes "calcMemSize off l \<le> int n" "n < 2 ^ 40" "0 \<le> off" "0 \<le> l"
  shows "Int64 l = l" "unat (Uint64 l) = nat l" "l \<noteq> 0 \<Longrightarrow> Int64 off = off" "l \<noteq> 0 \<Longrightarrow> unat (Uint64 off) = nat off"
    "l \<noteq> 0 \<Longrightarrow> off + l \<le> int n"
proof -
  have b: "l = 0 \<or> off + l \<le> int n" using assms(1) by (cases "l = 0") (auto simp: calcMemSize_def)
  then have l: "l < 2 ^ 63" using assms by auto
  then show "Int64 l = l" "unat (Uint64 l) = nat l" using assms(4) by (auto intro: Int64_small Uint64_unat)
  assume "l \<noteq> 0"
  then have o: "off + l \<le> int n" "off < 2 ^ 63" using b assms by auto
  then show "Int64 off = off" "unat (Uint64 off) = nat off" "off + l \<le> int n"
    using assms(3) by (auto intro: Int64_small Uint64_unat)
qed

lemma mem_Get_fits:
  assumes "calcMemSize off l \<le> int (length (store m))" "length (store m) < 2 ^ 40" "0 \<le> off" "0 \<le> l"
  obtains r r' where "mem_Get (Int64 off) (Int64 l) m = Some r" "length (sl r) < 2 ^ 62"
    "GetPtr (Int64 off) (Int64 l) m = Some r'" "length (sl r') < 2 ^ 62"
proof -
  note w = mem_window [OF assms]
  have c: "Int64 l = 0 \<or> 0 \<le> Int64 off \<and> 0 \<le> Int64 l \<and> Int64 off + Int64 l \<le> int (length (store m))"
    using w assms(3,4) by auto
  have "Int64 l \<le> 2 ^ 48" using w(1,5) assms(2,3) by (cases "l = 0") auto
  then show ?thesis using mem_Get_Some [OF c] GetPtr_Some [OF c] that assms(2) by auto
qed

lemma mem_Set_fits:
  assumes "calcMemSize off l \<le> int (length (store m))" "length (store m) < 2 ^ 40" "0 \<le> off" "0 \<le> l"
  obtains m' where "mem_Set (Uint64 off) (Uint64 l) v m = Some m'" "length (store m') = length (store m)"
proof -
  note w = mem_window [OF assms]
  have c: "Uint64 l = 0 \<or> unat (Uint64 off) + unat (Uint64 l) \<le> length (store m)"
  proof (cases "l = 0")
    case False
    then have "nat off + nat l \<le> length (store m)" using w(5) assms(3,4) by linarith
    then show ?thesis using w(2,4) False by simp
  qed (use w(2) in \<open>simp add: unat_eq_0 [symmetric]\<close>)
  have "length (store m) < 2 ^ 64" using assms(2) by simp
  from mem_Set_Some [OF c this, of v] that show ?thesis by blast
qed


lemma exec_to_mem:
  "frame_ok f \<Longrightarrow> \<forall>x \<in> set st. 0 \<le> x \<Longrightarrow> length st \<le> StackLimit \<Longrightarrow> length (store m) = length (store (f_mem f)) \<Longrightarrow>
   exec_to f (f_gas f) ((None, err), f\<lparr>f_stack := st, f_mem := m\<rparr>)"
  by (simp add: exec_to_def frame_ok_def)

lemma exec_to_db:
  assumes "frame_ok f" "db_to (f_db f) s" "static (f_evm f) \<Longrightarrow> quiet (f_db f) s"
    "\<forall>x \<in> set st. 0 \<le> x" "length st \<le> StackLimit"
  shows "exec_to f (f_gas f) ((None, err), with_db s (f\<lparr>f_stack := st\<rparr>))"
proof -
  have 1: "frame_ok (f\<lparr>f_stack := st\<rparr>)" using assms by (intro frame_ok_stack)
  show ?thesis using frame_ok_with_db [OF 1, of s] assms(2,3) by (simp add: exec_to_def)
qed

text \<open>A state changes when there is no write protection.\<close>

definition may_write :: "'t frame \<Rightarrow> bool" where
  "may_write f \<longleftrightarrow> \<not> static (f_evm f)"

lemma exec_mload: "exec_ok opMload rn fuel (fits memoryMLoad) 1 1 no_ext"
proof (rule exec_okI)
  fix f :: "'a frame" and st rest :: Stack
  assume f: "frame_ok f" "fits memoryMLoad f" "length st = 1" "f_stack f = st @ rest" "\<forall>x \<in> set st. 0 \<le> x"
    "\<forall>x \<in> set rest. 0 \<le> x" "length rest + 1 \<le> StackLimit"
  obtain a where st: "st = [a]" using f(3) by (auto simp: length_Suc_conv)
  have c: "calcMemSize a 32 \<le> int (length (store (f_mem f)))" using f(2,4) st by (simp add: fits_def memoryMLoad_def Back_def)
  obtain r where "mem_Get (Int64 a) (Int64 32) (f_mem f) = Some r"
    using mem_Get_fits [OF c frame_okD(3) [OF f(1)]] f(5) st by auto
  moreover have "Int64 32 = 32" by (simp add: Int64_small)
  ultimately show "\<exists>r. opMload rn f = Some r \<and> exec_to f (f_gas f) r"
    using f st by (auto simp: opMload_def pop_def push_def ok_def intro!: exec_to_stack)
qed

lemma exec_mstore: "exec_ok opMstore rn fuel (fits memoryMStore) 2 0 no_ext"
proof (rule exec_okI)
  fix f :: "'a frame" and st rest :: Stack
  assume f: "frame_ok f" "fits memoryMStore f" "length st = 2" "f_stack f = st @ rest" "\<forall>x \<in> set st. 0 \<le> x"
    "\<forall>x \<in> set rest. 0 \<le> x" "length rest + 0 \<le> StackLimit"
  obtain a b where st: "st = [a, b]" using f(3) by (auto simp: list_of_length)
  have c: "calcMemSize a 32 \<le> int (length (store (f_mem f)))" using f(2,4) st by (simp add: fits_def memoryMStore_def Back_def)
  note w = mem_window [OF c frame_okD(3) [OF f(1)]]
  have "unat (Uint64 a) + 32 \<le> length (store (f_mem f))" using w(4,5) f(5) st by (simp add: nat_le_iff) linarith
  moreover have "length (store (f_mem f)) < 2 ^ 64" using frame_okD(3) [OF f(1)] by simp
  ultimately obtain m where "mem_Set32 (Uint64 a) b (f_mem f) = Some m" "length (store m) = length (store (f_mem f))"
    by (rule mem_Set32_Some)
  then show "\<exists>r. opMstore rn f = Some r \<and> exec_to f (f_gas f) r"
    using f st by (auto simp: opMstore_def pop_def ok_def intro!: exec_to_mem)
qed

lemma exec_mstore8: "exec_ok opMstore8 rn fuel (fits memoryMStore8) 2 0 no_ext"
proof (rule exec_okI)
  fix f :: "'a frame" and st rest :: Stack
  assume f: "frame_ok f" "fits memoryMStore8 f" "length st = 2" "f_stack f = st @ rest" "\<forall>x \<in> set st. 0 \<le> x"
    "\<forall>x \<in> set rest. 0 \<le> x" "length rest + 0 \<le> StackLimit"
  obtain a b where st: "st = [a, b]" using f(3) by (auto simp: list_of_length)
  have c: "calcMemSize a 1 \<le> int (length (store (f_mem f)))" using f(2,4) st by (simp add: fits_def memoryMStore8_def Back_def)
  note w = mem_window [OF c frame_okD(3) [OF f(1)]]
  have "Int64 a = a" "a < int (length (store (f_mem f)))" "0 \<le> a" using w(3,5) f(5) st by simp_all
  then show "\<exists>r. opMstore8 rn f = Some r \<and> exec_to f (f_gas f) r"
    using f st by (auto simp: opMstore8_def pop_def ok_def mem_Len_def intro!: exec_to_mem)
qed


lemma copy_data_ok:
  assumes f: "frame_ok f" and st: "\<forall>x \<in> set st. 0 \<le> x" "length st \<le> StackLimit"
    and c: "calcMemSize mo l \<le> int (length (store (f_mem f)))" "0 \<le> mo" "0 \<le> off" "0 \<le> l"
    and src: "length src < 2 ^ 62"
  shows "\<exists>r. copy_data src mo off l (f\<lparr>f_stack := st\<rparr>) = Some r \<and> exec_to f (f_gas f) r"
proof -
  have "l \<le> 2 ^ 48"
    using mem_window(5) [OF c(1) frame_okD(3) [OF f] c(2,4)] frame_okD(3) [OF f] c by (cases "l = 0") auto
  then obtain d where "getDataBig src off l = Some d" using getDataBig_window [OF c(3,4)] src by auto
  moreover obtain m where "mem_Set (Uint64 mo) (Uint64 l) d (f_mem f) = Some m" "length (store m) = length (store (f_mem f))"
    by (rule mem_Set_fits [OF c(1) frame_okD(3) [OF f] c(2,4)])
  ultimately show ?thesis using exec_to_mem [OF f st, of m None] by (simp add: copy_data_def ok_def)
qed

lemma frame_lengths:
  assumes "frame_ok f"
  shows "length (c_Code (f_contract f)) < 2 ^ 62" "length (c_Input (f_contract f)) < 2 ^ 62"
  using frame_okD(2) [OF assms] unfolding contract_ok_def by blast+

lemma exec_copy:
  "exec_ok opCallDataCopy rn fuel (fits memoryCallDataCopy) 3 0 no_ext"
  "exec_ok opCodeCopy rn fuel (fits memoryCodeCopy) 3 0 no_ext"
  by (rule exec_okI;
      auto simp: opCallDataCopy_def opCodeCopy_def pop_def list_of_length fits_def memoryCallDataCopy_def
        memoryCodeCopy_def Back_def frame_lengths [simplified] intro!: copy_data_ok simp del: split_paired_Ex)+

lemma exec_extcodecopy: "exec_ok opExtCodeCopy rn fuel (fits memoryExtCodeCopy) 4 0 no_ext"
proof (rule exec_okI)
  fix f :: "'a frame" and st rest :: Stack
  assume f: "frame_ok f" "fits memoryExtCodeCopy f" "length st = 4" "f_stack f = st @ rest" "\<forall>x \<in> set st. 0 \<le> x"
    "\<forall>x \<in> set rest. 0 \<le> x" "length rest + 0 \<le> StackLimit"
  obtain a mo off l where st: "st = [a, mo, off, l]" using f(3) by (auto simp: list_of_length)
  define s where "s = snd (GetCode (BigToAddress a) (f_db f))"
  define src where "src = sl (fst (GetCode (BigToAddress a) (f_db f)))"
  note ok = frame_okD(6) [OF f(1)]
  have d: "db_to (f_db f) s" "quiet (f_db f) s" unfolding s_def by (rule db_to_gets quiet_gets, rule ok)+
  note w = frame_ok_with_db [OF f(1) d]
  have len: "length src < 2 ^ 62"
    using db_okD(3) [OF ok]
    by (auto simp: src_def GetCode_view(1) [OF db_okD(1) [OF ok]] world_ok_def acct_ok_def simp del: world_of_sel split: option.split)
  have c: "calcMemSize mo l \<le> int (length (store (f_mem f)))" using f(2,4) st by (simp add: fits_def memoryExtCodeCopy_def Back_def)
  have "\<exists>r. copy_data src mo off l ((with_db s f)\<lparr>f_stack := rest\<rparr>) = Some r \<and> exec_to (with_db s f) (f_gas f) r"
    using copy_data_ok [OF w(1), of rest mo l off src] c len f st by simp
  moreover have "exec_to f (f_gas f) r" if "exec_to (with_db s f) (f_gas f) r" for r
    using that evm_to_trans [OF w(2)] by (auto simp: exec_to_def)
  moreover have "with_db s (f\<lparr>f_stack := rest\<rparr>) = (with_db s f)\<lparr>f_stack := rest\<rparr>" by (simp add: with_db_def)
  ultimately show "\<exists>r. opExtCodeCopy rn f = Some r \<and> exec_to f (f_gas f) r"
    using f(4) st by (auto simp: opExtCodeCopy_def pop_def case_prod_beta s_def [symmetric] src_def [symmetric] simp del: split_paired_Ex)
qed

lemma exec_returndatacopy: "exec_ok opReturnDataCopy rn fuel (fits memoryReturnDataCopy) 3 0 no_ext"
proof (rule exec_okI)
  fix f :: "'a frame" and st rest :: Stack
  assume f: "frame_ok f" "fits memoryReturnDataCopy f" "length st = 3" "f_stack f = st @ rest" "\<forall>x \<in> set st. 0 \<le> x"
    "\<forall>x \<in> set rest. 0 \<le> x" "length rest + 0 \<le> StackLimit"
  obtain mo off l where st: "st = [mo, off, l]" using f(3) by (auto simp: list_of_length)
  define src where "src = sl (returnData (f_evm f))"
  have len: "length src < 2 ^ 62" using evm_okD(4) [OF frame_okD(1) [OF f(1)]] by (simp add: src_def)
  have nn: "0 \<le> mo" "0 \<le> off" "0 \<le> l" using f(5) st by auto
  have c: "calcMemSize mo l \<le> int (length (store (f_mem f)))" using f(2,4) st by (simp add: fits_def memoryReturnDataCopy_def Back_def)
  show "\<exists>r. opReturnDataCopy rn f = Some r \<and> exec_to f (f_gas f) r"
  proof (cases "BitLen (off + l) > 64 \<or> of_nat (length src) < Uint64 (off + l)")
    case True
    then show ?thesis using f st
      by (auto simp: opReturnDataCopy_def pop_def Let_def src_def [symmetric] intro!: exec_to_stack)
  next
    case False
    then have b: "off + l < 2 ^ 64" using nn by (simp add: BitLen_gt_iff)
    have e: "unat (Uint64 (off + l)) = nat (off + l)" "unat (Uint64 off) = nat off"
      using b nn by (auto intro: Uint64_unat)
    have "nat (off + l) \<le> length src" using False len e by (simp add: word_less_nat_alt unat_of_nat_u64)
    then obtain d where d: "slice src (unat (Uint64 off)) (unat (Uint64 (off + l))) = Some d"
      using e nn by (simp add: slice_def nat_mono)
    obtain m where "mem_Set (Uint64 mo) (Uint64 l) d (f_mem f) = Some m" "length (store m) = length (store (f_mem f))"
      by (rule mem_Set_fits [OF c frame_okD(3) [OF f(1)] nn(1,3)])
    then show ?thesis using f st d False
      by (auto simp: opReturnDataCopy_def pop_def Let_def src_def [symmetric] ok_def intro!: exec_to_mem)
  qed
qed


lemma exec_calldataload: "exec_ok opCallDataLoad rn fuel P 1 1 no_ext"
proof (rule exec_okI)
  fix f :: "'a frame" and st rest :: Stack
  assume f: "frame_ok f" "length st = 1" "f_stack f = st @ rest" "\<forall>x \<in> set st. 0 \<le> x" "\<forall>x \<in> set rest. 0 \<le> x"
    "length rest + 1 \<le> StackLimit"
  obtain a where st: "st = [a]" using f(2) by (auto simp: length_Suc_conv)
  have "length (c_Input (f_contract f)) < 2 ^ 63" using frame_lengths(2) [OF f(1)] by simp
  then have "getDataBig (c_Input (f_contract f)) a 32 = Some (window (c_Input (f_contract f)) (nat a) 32)"
    using getDataBig_window [of a 32] f(4) st by simp
  then show "\<exists>r. opCallDataLoad rn f = Some r \<and> exec_to f (f_gas f) r"
    using f st by (auto simp: opCallDataLoad_def pop_def push_def ok_def intro!: exec_to_stack)
qed

lemma GetPtr_ok:
  assumes f: "frame_ok f" "calcMemSize a b \<le> int (length (store (f_mem f)))" "0 \<le> a" "0 \<le> b"
    "\<forall>x \<in> set st. 0 \<le> x" "length st \<le> StackLimit"
  shows "\<exists>r. Option.bind (GetPtr (Int64 a) (Int64 b) (f_mem f)) (\<lambda>ret. Some ((ret, None), f\<lparr>f_stack := st\<rparr>)) = Some r
     \<and> exec_to f (f_gas f) r"
proof -
  obtain r where "GetPtr (Int64 a) (Int64 b) (f_mem f) = Some r" "length (sl r) < 2 ^ 62"
    by (rule mem_Get_fits [OF f(2) frame_okD(3) [OF f(1)] f(3,4)])
  then show ?thesis using exec_to_stack [OF f(1,5,6), of None] by (simp add: exec_to_def)
qed

lemma exec_return:
  "exec_ok opReturn rn fuel (fits memoryReturn) 2 0 no_ext" "exec_ok opRevert rn fuel (fits memoryRevert) 2 0 no_ext"
  by (rule exec_okI;
      auto simp: opReturn_def opRevert_def pop_def list_of_length fits_def memoryReturn_def memoryRevert_def Back_def
        intro!: GetPtr_ok simp del: split_paired_Ex)+

subsection \<open>Instructions that read or write the state\<close>

lemma exec_reads:
  "exec_ok opBalance rn fuel P 1 1 no_ext" "exec_ok opExtCodeSize rn fuel P 1 1 no_ext"
  by (rule exec_okI,
      auto simp: opBalance_def opExtCodeSize_def pop_def push_def ok_def list_of_length case_prod_beta frame_okD(6)
        intro!: exec_to_db db_to_gets quiet_gets GetBalance_nonneg)+

lemma exec_blockhash: "exec_ok opBlockhash rn fuel P 1 1 no_ext"
  by (rule exec_okI)
     (auto simp: opBlockhash_def pop_def push_def ok_def list_of_length Let_def hash_Big_eq intro!: exec_to_stack)

lemma exec_sload: "exec_ok opSload rn fuel P 1 1 no_ext"
proof (rule exec_okI)
  fix f :: "'a frame" and st rest :: Stack
  assume f: "frame_ok f" "length st = 1" "f_stack f = st @ rest" "\<forall>x \<in> set rest. 0 \<le> x" "length rest + 1 \<le> StackLimit"
  obtain a where st: "st = [a]" using f(2) by (auto simp: length_Suc_conv)
  obtain x s where "GetState (self (f_contract f)) (BigToHash a) (f_db f) = Some (x, s)" "db_to (f_db f) s" "quiet (f_db f) s"
    by (rule GetState_quiet [OF frame_okD(6) [OF f(1)]])
  then show "\<exists>r. opSload rn f = Some r \<and> exec_to f (f_gas f) r"
    using f st by (auto simp: opSload_def pop_def push_def ok_def hash_Big_eq intro!: exec_to_db)
qed

lemma exec_sstore: "exec_ok opSstore rn fuel may_write 2 0 no_ext"
proof (rule exec_okI)
  fix f :: "'a frame" and st rest :: Stack
  assume f: "frame_ok f" "may_write f" "length st = 2" "f_stack f = st @ rest" "\<forall>x \<in> set rest. 0 \<le> x" "length rest + 0 \<le> StackLimit"
  obtain a b where st: "st = [a, b]" using f(3) by (auto simp: list_of_length)
  obtain s where "SetState (self (f_contract f)) (BigToHash a) (BigToHash b) (f_db f) = Some s" "db_to (f_db f) s"
    by (rule SetState_total [OF frame_okD(6) [OF f(1)]])
  then show "\<exists>r. opSstore rn f = Some r \<and> exec_to f (f_gas f) r"
    using f st by (auto simp: opSstore_def pop_def ok_def may_write_def intro!: exec_to_db)
qed


lemma exec_suicide: "exec_ok opSuicide rn fuel may_write 1 0 no_ext"
proof (rule exec_okI)
  fix f :: "'a frame" and st rest :: Stack
  assume f: "frame_ok f" "may_write f" "length st = 1" "f_stack f = st @ rest" "\<forall>x \<in> set rest. 0 \<le> x" "length rest + 0 \<le> StackLimit"
  obtain a where st: "st = [a]" using f(3) by (auto simp: length_Suc_conv)
  define addr where "addr = self (f_contract f)"
  have "db_to (f_db f) (snd (Suicide addr (AddBalance (BigToAddress a) (fst (GetBalance addr (f_db f)))
      (snd (GetBalance addr (f_db f))))))"
    by (rule db_to_selfdestruct [OF frame_okD(6) [OF f(1)]])
  then show "\<exists>r. opSuicide rn f = Some r \<and> exec_to f (f_gas f) r"
    using f st
    by (auto simp: opSuicide_def pop_def ok_def may_write_def Let_def addr_def [symmetric] case_prod_beta intro!: exec_to_db)
qed

lemma exec_sha3: "exec_ok opSha3 rn fuel (fits memorySha3) 2 1 no_ext"
proof (rule exec_okI)
  fix f :: "'a frame" and st rest :: Stack
  assume f: "frame_ok f" "fits memorySha3 f" "length st = 2" "f_stack f = st @ rest" "\<forall>x \<in> set st. 0 \<le> x"
    "\<forall>x \<in> set rest. 0 \<le> x" "length rest + 1 \<le> StackLimit"
  obtain a b where st: "st = [a, b]" using f(3) by (auto simp: list_of_length)
  have c: "calcMemSize a b \<le> int (length (store (f_mem f)))" using f(2,4) st by (simp add: fits_def memorySha3_def Back_def)
  obtain d where d: "mem_Get (Int64 a) (Int64 b) (f_mem f) = Some d"
    using mem_Get_fits [OF c frame_okD(3) [OF f(1)]] f(5) st by auto
  define h where "h = evm_keccak (f_evm f) (sl d)"
  define s where "s = AddPreimage h (sl d) (f_db f)"
  note ok = frame_okD(6) [OF f(1)]
  have "db_to (f_db f) s" "quiet (f_db f) s" unfolding s_def by (rule db_to_AddPreimage quiet_AddPreimage, rule ok)+
  then have "exec_to f (f_gas f) ((None, None), with_db s (f\<lparr>f_stack := hash_Big h # rest\<rparr>))"
    "exec_to f (f_gas f) ((None, None), f\<lparr>f_stack := hash_Big h # rest\<rparr>)"
    using f st by (auto intro!: exec_to_db exec_to_stack simp: hash_Big_eq)
  moreover have "with_db s (f\<lparr>f_stack := t\<rparr>) = (with_db s f)\<lparr>f_stack := t\<rparr>" for t by (simp add: with_db_def)
  ultimately show "\<exists>r. opSha3 rn f = Some r \<and> exec_to f (f_gas f) r"
    using f(4) st d by (auto simp: opSha3_def pop_def push_def ok_def Let_def h_def [symmetric] s_def [symmetric])
qed

lemma pop_topics_Some: "n \<le> length st \<Longrightarrow> \<exists>hs. pop_topics n st = Some (hs, drop n st)"
proof (induction n arbitrary: st)
  case (Suc n)
  then obtain a l where st: "st = a # l" "n \<le> length l" by (cases st) auto
  then show ?case using Suc.IH [of l] by (auto simp: pop_def)
qed simp

lemma exec_log: "exec_ok (makeLog n) rn fuel (\<lambda>f. fits memoryLog f \<and> may_write f) (n + 2) 0 no_ext"
proof (rule exec_okI)
  fix f :: "'a frame" and st rest :: Stack
  assume f: "frame_ok f" "fits memoryLog f \<and> may_write f" "length st = n + 2" "f_stack f = st @ rest" "\<forall>x \<in> set st. 0 \<le> x"
    "\<forall>x \<in> set rest. 0 \<le> x" "length rest + 0 \<le> StackLimit"
  obtain a b ts where st: "st = a # b # ts" "length ts = n" using f(3) by (auto simp: length_Suc_conv)
  have c: "calcMemSize a b \<le> int (length (store (f_mem f)))" using f(2,4) st by (simp add: fits_def memoryLog_def Back_def)
  obtain d where d: "mem_Get (Int64 a) (Int64 b) (f_mem f) = Some d"
    using mem_Get_fits [OF c frame_okD(3) [OF f(1)]] f(5) st by auto
  obtain hs where "pop_topics n (ts @ rest) = Some (hs, rest)" using pop_topics_Some [of n "ts @ rest"] st(2) by auto
  moreover have "exec_to f (f_gas f) ((None, None), with_db (AddLog l (f_db f)) (f\<lparr>f_stack := rest\<rparr>))" for l
    using f db_to_AddLog [OF frame_okD(6) [OF f(1)]] by (intro exec_to_db) (auto simp: may_write_def)
  ultimately show "\<exists>r. makeLog n rn f = Some r \<and> exec_to f (f_gas f) r"
    using f(4) st d by (simp add: makeLog_def pop_def ok_def Let_def)
qed

subsection \<open>Jumps\<close>

lemma validJumpdest_ok:
  assumes c: "contract_ok kec c" and jd: "jumps_ok kec jd" and h: "hash_ok kec" and d: "0 \<le> dest"
  shows "\<exists>b c' jd'. validJumpdest dest c jd = Some (b, c', jd') \<and> contract_ok kec c' \<and> jumps_ok kec jd' \<and> c_Gas c' = c_Gas c"
proof (cases "BitLen dest \<ge> 63 \<or> Uint64 dest \<ge> of_nat (length (c_Code c)) \<or> c_Code c ! unat (Uint64 dest) \<noteq> JUMPDEST")
  case True
  then show ?thesis using c jd by (auto simp: validJumpdest_def Let_def)
next
  case False
  have len: "length (c_Code c) < 2 ^ 62" using c by (simp add: contract_ok_def)
  then have in_code: "unat (Uint64 dest) < length (c_Code c)"
    using False by (simp add: word_le_nat_alt unat_of_nat_u64)
  then have ne: "c_Code c \<noteq> []" by auto
  have seg: "codeSegment bits (Uint64 dest) = Some (\<not> bvbit bits (unat (Uint64 dest)))"
    if "length bits = length (c_Code c) div 8 + 5" for bits
    using that in_code div_le_mono [of "unat (Uint64 dest)" "length (c_Code c)" 8] by (intro codeSegment_bvbit) simp
  have "length (c_Code c) < 2 ^ 63" using len by simp
  then obtain bits where bits: "codeBitmap (c_Code c) = Some bits" "length bits = length (c_Code c) div 8 + 5"
    by (rule codeBitmap_bvbit)
  show ?thesis
  proof (cases "c_CodeHash c = 0")
    case True
    then show ?thesis using False c jd bits seg
      by (auto simp: validJumpdest_def Let_def contract_ok_def split: option.split)
  next
    case hash: False
    then have k: "c_CodeHash c = kec (c_Code c)" using c ne by (simp add: contract_ok_def)
    have cached: "length b = length (c_Code c) div 8 + 5" if "jd (c_CodeHash c) = Some b" for b
      using jd h len that k unfolding jumps_ok_def hash_ok_def by metis
    have "jumps_ok kec (jd(c_CodeHash c \<mapsto> bits))" using jd bits(2) len k unfolding jumps_ok_def by auto
    then show ?thesis using False hash c jd bits seg cached
      by (auto simp: validJumpdest_def Let_def split: option.split)
  qed
qed


lemma jump_to_ok:
  assumes f: "frame_ok f" "\<forall>x \<in> set st. 0 \<le> x" "length st \<le> StackLimit" "0 \<le> pos"
  shows "\<exists>r. jump_to pos (f\<lparr>f_stack := st\<rparr>) = Some r \<and> exec_to f (f_gas f) r"
proof -
  let ?e = "f_evm f"
  note e = evm_okD [OF frame_okD(1) [OF f(1)]]
  obtain b c jd where v: "validJumpdest pos (f_contract f) (jumpdests ?e) = Some (b, c, jd)"
    "contract_ok (evm_keccak ?e) c" "jumps_ok (evm_keccak ?e) jd" "c_Gas c = c_Gas (f_contract f)"
    using validJumpdest_ok [OF frame_okD(2) [OF f(1)] e(3) _ f(4)] e(2) by (auto simp: env_ok_def)
  have k: "evm_keccak (?e\<lparr>jumpdests := jd\<rparr>) = evm_keccak ?e" by (simp add: evm_keccak_def)
  have "env_ok (?e\<lparr>jumpdests := jd\<rparr>)" using e(2) env_ok_same [of ?e "?e\<lparr>jumpdests := jd\<rparr>"] k by (simp add: same_env_def)
  then have to: "evm_to ?e (?e\<lparr>jumpdests := jd\<rparr>)" using e v(3) k by (simp add: evm_to_def evm_ok_def same_env_def)
  have "frame_ok (f\<lparr>f_stack := st, f_contract := c, f_evm := ?e\<lparr>jumpdests := jd\<rparr>\<rparr>)"
    using f v(2) evm_toD(2) [OF to] k by (simp add: frame_ok_def)
  then show ?thesis using v to by (auto simp: jump_to_def Let_def ok_def exec_to_def)
qed

lemma exec_jump:
  "exec_ok opJump rn fuel P 1 0 no_ext" "exec_ok opJumpi rn fuel P 2 0 no_ext"
proof -
  have "exec_to f (f_gas f) ((None, None), f\<lparr>f_stack := st, f_pc := n\<rparr>)"
    if "frame_ok f" "\<forall>x \<in> set st. 0 \<le> x" "length st \<le> StackLimit" for f :: "'a frame" and st n
    using exec_to_stack [OF that, of None] by (simp add: exec_to_def frame_ok_def)
  then show "exec_ok opJump rn fuel P 1 0 no_ext" "exec_ok opJumpi rn fuel P 2 0 no_ext"
    by (safe intro!: exec_okI)
       (auto simp: opJump_def opJumpi_def pop_def list_of_length ok_def intro!: jump_to_ok simp del: split_paired_Ex)
qed

subsection \<open>Calls and creations\<close>

lemma use_gas_ok:
  assumes "frame_ok f" "unat gas \<le> f_gas f"
  shows "frame_ok (use_gas gas f)" "f_gas (use_gas gas f) = f_gas f - unat gas"
proof -
  have le: "gas \<le> c_Gas (f_contract f)" using assms(2) by (simp add: word_le_nat_alt)
  then have u: "use_gas gas f = f\<lparr>f_contract := (f_contract f)\<lparr>c_Gas := c_Gas (f_contract f) - gas\<rparr>\<rparr>"
    by (simp add: use_gas_def UseGas_def leD)
  show g: "f_gas (use_gas gas f) = f_gas f - unat gas" using unat_sub_no_wrap [OF le] by (simp add: u)
  have "f_gas f < 2 ^ 45" using frame_okD(2) [OF assms(1)] by (simp add: contract_ok_def)
  then have "unat (c_Gas (f_contract f) - gas) < 2 ^ 45" using unat_sub_no_wrap [OF le] by simp
  then show "frame_ok (use_gas gas f)"
    unfolding u by (intro frame_ok_contract [OF assms(1)] contract_ok_gas [OF frame_okD(2) [OF assms(1)]])
qed

text \<open>What the frame of the caller is after the call: the machine of the callee, the returned gas, a result.\<close>

lemma after_call:
  assumes f: "frame_ok f" and e: "evm_to (f_evm f) evm" and st: "\<forall>x \<in> set st. 0 \<le> x" "length st \<le> StackLimit"
    and m: "length (store m) = length (store (f_mem f))" and g: "f_gas f + unat rg < 2 ^ 45"
  shows "frame_ok (add_gas rg (f\<lparr>f_stack := st, f_mem := m, f_evm := evm\<rparr>))"
    "f_gas (add_gas rg (f\<lparr>f_stack := st, f_mem := m, f_evm := evm\<rparr>)) = f_gas f + unat rg"
proof -
  have u: "unat (c_Gas (f_contract f) + rg) = f_gas f + unat rg" using g by (intro unat_add_no_wrap) simp
  then show "f_gas (add_gas rg (f\<lparr>f_stack := st, f_mem := m, f_evm := evm\<rparr>)) = f_gas f + unat rg"
    by (simp add: add_gas_def)
  show "frame_ok (add_gas rg (f\<lparr>f_stack := st, f_mem := m, f_evm := evm\<rparr>))"
    using f evm_toD(2,5) [OF e] st m u g contract_ok_gas [of _ "f_contract f" "c_Gas (f_contract f) + rg"]
    by (simp add: frame_ok_def add_gas_def)
qed


lemma exec_to_mono: "exec_to f1 g r \<Longrightarrow> f_evm f1 = f_evm f \<Longrightarrow> g \<le> g' \<Longrightarrow> exec_to f g' r"
  by (auto simp: exec_to_def)

lemma after_create:
  assumes f: "frame_ok f" and e: "evm_to (f_evm f) evm" and st: "\<forall>x \<in> set st. 0 \<le> x" "length st \<le> StackLimit"
    and g: "f_gas f + unat rg < 2 ^ 45" and ret: "length (sl ret) < 2 ^ 62"
  shows "exec_to f (f_gas f + unat rg) ((ret, err), add_gas rg (f\<lparr>f_stack := st, f_evm := evm\<rparr>))"
  using after_call [OF f e st refl g] e ret by (simp add: exec_to_def) (simp add: add_gas_def)

lemma finish_call_ok:
  assumes f: "frame_ok f" and st: "\<forall>x \<in> set st. 0 \<le> x" "length st < StackLimit"
    and c: "calcMemSize ro rs \<le> int (length (store (f_mem f)))" "0 \<le> ro" "0 \<le> rs"
    and r: "call_to b (f_evm f) gas r" and g: "f_gas f + unat gas < 2 ^ 45"
  shows "\<exists>r'. finish_call ro rs st f r = Some r' \<and> exec_to f (f_gas f + unat gas) r'"
proof -
  obtain ret rg err evm where r': "r = ((ret, rg, err), evm)" "evm_to (f_evm f) evm" "rg \<le> gas" "length (sl ret) < 2 ^ 62"
    using r by (auto simp: call_to_def split: prod.splits)
  have rg: "unat rg \<le> unat gas" using r'(3) by (simp add: word_le_nat_alt)
  obtain m0 where m0: "mem_Set (Uint64 ro) (Uint64 rs) (sl ret) (f_mem f) = Some m0" "length (store m0) = length (store (f_mem f))"
    by (rule mem_Set_fits [OF c(1) frame_okD(3) [OF f] c(2,3)])
  define m where "m = (if err = None \<or> err = Some errExecutionReverted then m0 else f_mem f)"
  define st' where "st' = push (if err \<noteq> None then 0 else 1) st"
  have "length (store m) = length (store (f_mem f))" "\<forall>x \<in> set st'. 0 \<le> x" "length st' \<le> StackLimit"
    using m0(2) st by (auto simp: m_def st'_def push_def)
  then have "exec_to f (f_gas f + unat gas) ((ret, None), add_gas rg (f\<lparr>f_stack := st', f_mem := m, f_evm := evm\<rparr>))"
    using after_call [OF f r'(2), of st' m rg] rg g r'(2,4) by (simp add: exec_to_def add_gas_def)
  moreover have "finish_call ro rs st f r = Some ((ret, None), add_gas rg (f\<lparr>f_stack := st', f_mem := m, f_evm := evm\<rparr>))"
    by (simp add: finish_call_def r'(1) Let_def m_def st'_def m0(1))
  ultimately show ?thesis by simp
qed

definition call_value_ok :: "'t frame \<Rightarrow> bool" where
  "call_value_ok f \<longleftrightarrow> (static (f_evm f) \<longrightarrow> f_stack f ! 2 = 0)"

lemma fits_call:
  assumes "fits memoryCall f" "f_stack f = g # a # v # io # is # ro # rs # rest"
  shows "calcMemSize io is \<le> int (length (store (f_mem f)))" "calcMemSize ro rs \<le> int (length (store (f_mem f)))"
  using assms by (simp_all add: fits_def memoryCall_def Back_def BigMax_max)

lemma fits_delegate:
  assumes "fits memoryDelegateCall f \<or> fits memoryStaticCall f" "f_stack f = g # a # io # is # ro # rs # rest"
  shows "calcMemSize io is \<le> int (length (store (f_mem f)))" "calcMemSize ro rs \<le> int (length (store (f_mem f)))"
  using assms by (auto simp: fits_def memoryDelegateCall_def memoryStaticCall_def Back_def BigMax_max)

lemma stack7:
  assumes "frame_ok f" "7 \<le> length (f_stack f)" "length (f_stack f) + 1 \<le> StackLimit + 7"
  obtains g a v io "is" ro rs rest where "f_stack f = g # a # v # io # is # ro # rs # rest"
    "0 \<le> v" "0 \<le> io" "0 \<le> is" "0 \<le> ro" "0 \<le> rs" "\<forall>x \<in> set rest. 0 \<le> x" "length rest < StackLimit"
proof -
  obtain g a v io "is" ro rs rest where st: "f_stack f = g # a # v # io # is # ro # rs # rest"
    using assms(2) by (auto simp: eval_nat_numeral Suc_le_length_iff)
  then show ?thesis using that [OF st] frame_okD(4) [OF assms(1)] assms(3) by simp
qed

lemma stack6:
  assumes "frame_ok f" "6 \<le> length (f_stack f)" "length (f_stack f) + 1 \<le> StackLimit + 6"
  obtains g a io "is" ro rs rest where "f_stack f = g # a # io # is # ro # rs # rest"
    "0 \<le> io" "0 \<le> is" "0 \<le> ro" "0 \<le> rs" "\<forall>x \<in> set rest. 0 \<le> x" "length rest < StackLimit"
proof -
  obtain g a io "is" ro rs rest where st: "f_stack f = g # a # io # is # ro # rs # rest"
    using assms(2) by (auto simp: eval_nat_numeral Suc_le_length_iff)
  then show ?thesis using that [OF st] frame_okD(4) [OF assms(1)] assms(3) by simp
qed

text \<open>The gas that the callee of a call with value \<open>v\<close> gets.\<close>

lemma callee_gas:
  assumes "g = f_gas f + value_ext (callGasTemp (f_evm f)) (f_stack f)" "g < 2 ^ 45" "f_stack f ! 2 = v"
  defines "gas \<equiv> (if U256 v \<noteq> 0 then callGasTemp (f_evm f) + CallStipend else callGasTemp (f_evm f))"
  shows "f_gas f + unat gas \<le> g"
proof (cases "U256 v = 0")
  case False
  then have "v \<noteq> 0" by (auto simp: U256_mod)
  moreover have "unat (callGasTemp (f_evm f) + CallStipend) = unat (callGasTemp (f_evm f)) + 2300"
    using assms(1,2) \<open>v \<noteq> 0\<close> assms(3) unat_add_no_wrap [of "callGasTemp (f_evm f)" CallStipend]
    by (simp add: value_ext_def CallStipend_def)
  ultimately show ?thesis using assms False by (simp add: value_ext_def)
qed (use assms in \<open>simp add: value_ext_def\<close>)

lemma finish_callI:
  assumes f: "frame_ok f" and rest: "\<forall>x \<in> set rest. 0 \<le> x" "length rest < StackLimit"
    and c: "calcMemSize ro rs \<le> int (length (store (f_mem f)))" "0 \<le> ro" "0 \<le> rs"
    and call: "\<exists>r. m = Some r \<and> call_to b (f_evm f) gas r" and g: "f_gas f + unat gas \<le> g" "g < 2 ^ 45"
    and e: "e = Option.bind m (finish_call ro rs rest f)"
  shows "\<exists>r. e = Some r \<and> exec_to f g r"
proof -
  obtain r where r: "m = Some r" "call_to b (f_evm f) gas r" using call by blast
  have sum: "f_gas f + unat gas < 2 ^ 45" using g by simp
  obtain r' where "finish_call ro rs rest f r = Some r'" "exec_to f (f_gas f + unat gas) r'"
    using finish_call_ok [OF f rest c r(2) sum] by blast
  then show ?thesis using exec_to_mono [OF _ refl g(1)] r(1) e by (metis bind.bind_lunit)
qed

context interp
begin

lemma exec_create: "exec_ok opCreate rn fuel (\<lambda>f. fits memoryCreate f \<and> may_write f) 3 1 no_ext"
  unfolding exec_ok_def
proof (intro allI impI)
  fix f :: "'t frame" and g
  assume f: "frame_ok f" "3 \<le> length (f_stack f)" "length (f_stack f) + 1 \<le> StackLimit + 3" "fits memoryCreate f \<and> may_write f"
    "g = f_gas f + no_ext (callGasTemp (f_evm f)) (f_stack f)" "g < 2 ^ 45" "2 * g + 2 \<le> fuel"
  obtain v off l rest where st: "f_stack f = v # off # l # rest"
    using f(2) by (auto simp: eval_nat_numeral Suc_le_length_iff)
  have nn: "0 \<le> v" "0 \<le> off" "0 \<le> l" "\<forall>x \<in> set rest. 0 \<le> x" using frame_okD(4) [OF f(1)] st by auto
  have c: "calcMemSize off l \<le> int (length (store (f_mem f)))" using f(4) st by (simp add: fits_def memoryCreate_def Back_def)
  obtain input where input: "mem_Get (Int64 off) (Int64 l) (f_mem f) = Some input" "length (sl input) < 2 ^ 62"
    by (rule mem_Get_fits [OF c frame_okD(3) [OF f(1)] nn(2,3)])
  define G where "G = c_Gas (f_contract f)"
  define gas where "gas = (if IsEIP150 (chainConfig (f_evm f)) (blockNum (f_evm f)) then G - G div 64 else G)"
  have gas: "unat gas \<le> f_gas f"
    unfolding gas_def G_def by (simp add: unat_sub_no_wrap word_le_nat_alt unat_div)
  define f1 where "f1 = use_gas gas f"
  note f1 = use_gas_ok [OF f(1) gas, folded f1_def]
  have f1e: "f_evm f1 = f_evm f" "f_mem f1 = f_mem f" by (simp_all add: f1_def use_gas_def)
  have gg: "g = f_gas f" using f(5) by (simp add: no_ext_def)
  obtain ret addr rg err evm where r: "Create rn (OfContract (f_contract f1)) (sl input) gas v (f_evm f1) = Some ((ret, addr, rg, err), evm)"
    "evm_to (f_evm f1) evm" "rg \<le> gas" "length (sl ret) < 2 ^ 62"
    using Create_ok [OF frame_okD(1) [OF f1(1)] _ input(2) nn(1), of gas "OfContract (f_contract f1)"] f(4,6,7) gas gg f1e
    by (fastforce simp: may_write_def create_to_def)
  define x where "x = (if IsHomestead (chainConfig evm) (blockNum evm) \<and> err = Some ErrCodeStoreOutOfGas then 0
              else if err \<noteq> None \<and> err \<noteq> Some ErrCodeStoreOutOfGas then 0 else addr_Big addr)"
  have x: "0 \<le> x" by (simp add: x_def addr_Big_eq)
  have rg: "unat rg \<le> unat gas" using r(3) by (simp add: word_le_nat_alt)
  have st': "\<forall>y \<in> set (push x rest). 0 \<le> y" "length (push x rest) \<le> StackLimit" using x nn(4) f(3) st by (auto simp: push_def)
  have sum: "f_gas f1 + unat rg < 2 ^ 45" using f1(2) rg gas f(6) gg by simp
  have len: "length (sl (if err = Some errExecutionReverted then ret else None)) < 2 ^ 62" using r(4) by simp
  have "exec_to f1 (f_gas f1 + unat rg) ((if err = Some errExecutionReverted then ret else None, None),
      add_gas rg (f1\<lparr>f_stack := push x rest, f_evm := evm\<rparr>))"
    by (rule after_create [OF f1(1) r(2) st' sum len])
  moreover have "f_gas f1 + unat rg \<le> g" using f1(2) rg gas gg by simp
  ultimately have "exec_to f g ((if err = Some errExecutionReverted then ret else None, None),
      add_gas rg (f1\<lparr>f_stack := push x rest, f_evm := evm\<rparr>))"
    using f1e(1) by (blast intro: exec_to_mono)
  moreover have "opCreate rn f = Some ((if err = Some errExecutionReverted then ret else None, None),
      add_gas rg (f1\<lparr>f_stack := push x rest, f_evm := evm\<rparr>))"
    unfolding opCreate_def st pop_def Let_def G_def [symmetric] gas_def [symmetric] f1_def [symmetric] list.case bind.simps
      prod.case input(1) r(1) x_def by (rule refl)
  ultimately show "\<exists>r. opCreate rn f = Some r \<and> exec_to f g r" by blast
qed


lemma exec_call: "exec_ok opCall rn fuel (\<lambda>f. fits memoryCall f \<and> call_value_ok f) 7 1 value_ext"
  unfolding exec_ok_def
proof (intro allI impI)
  fix f :: "'t frame" and g
  assume f: "frame_ok f" "7 \<le> length (f_stack f)" "length (f_stack f) + 1 \<le> StackLimit + 7" "fits memoryCall f \<and> call_value_ok f"
    "g = f_gas f + value_ext (callGasTemp (f_evm f)) (f_stack f)" "g < 2 ^ 45" "2 * g + 2 \<le> fuel"
  obtain g0 a v io "is" ro rs rest where st: "f_stack f = g0 # a # v # io # is # ro # rs # rest"
    and nn: "0 \<le> v" "0 \<le> io" "0 \<le> is" "0 \<le> ro" "0 \<le> rs" and rest: "\<forall>x \<in> set rest. 0 \<le> x" "length rest < StackLimit"
    by (rule stack7 [OF f(1,2,3)])
  note c = fits_call [OF conjunct1 [OF f(4)] st]
  obtain args where args: "mem_Get (Int64 io) (Int64 is) (f_mem f) = Some args" "length (sl args) < 2 ^ 62"
    by (rule mem_Get_fits [OF c(1) frame_okD(3) [OF f(1)] nn(2,3)])
  define gas where "gas = (if U256 v \<noteq> 0 then callGasTemp (f_evm f) + CallStipend else callGasTemp (f_evm f))"
  have gas: "f_gas f + unat gas \<le> g" unfolding gas_def using f(5,6) st by (intro callee_gas) simp_all
  have static: "static (f_evm f) \<Longrightarrow> U256 v = 0" using f(4) st by (simp add: call_value_ok_def U256_mod)
  have gas45: "unat gas < 2 ^ 45" "2 * unat gas + 2 \<le> fuel" using gas f(6,7) by simp_all
  show "\<exists>r. opCall rn f = Some r \<and> exec_to f g r"
    by (rule finish_callI [OF f(1) rest c(2) nn(4,5) Call_ok [where cllr = "OfContract (f_contract f)" and addr = "BigToAddress a", OF frame_okD(1) [OF f(1)] args(2) U256_bounds(1) static gas45] gas f(6)])
       (assumption, unfold opCall_def st pop_def Let_def list.case bind.simps prod.case args(1) gas_def [symmetric], rule refl)
qed

lemma exec_callcode: "exec_ok opCallCode rn fuel (fits memoryCall) 7 1 value_ext"
  unfolding exec_ok_def
proof (intro allI impI)
  fix f :: "'t frame" and g
  assume f: "frame_ok f" "7 \<le> length (f_stack f)" "length (f_stack f) + 1 \<le> StackLimit + 7" "fits memoryCall f"
    "g = f_gas f + value_ext (callGasTemp (f_evm f)) (f_stack f)" "g < 2 ^ 45" "2 * g + 2 \<le> fuel"
  obtain g0 a v io "is" ro rs rest where st: "f_stack f = g0 # a # v # io # is # ro # rs # rest"
    and nn: "0 \<le> v" "0 \<le> io" "0 \<le> is" "0 \<le> ro" "0 \<le> rs" and rest: "\<forall>x \<in> set rest. 0 \<le> x" "length rest < StackLimit"
    by (rule stack7 [OF f(1,2,3)])
  note c = fits_call [OF f(4) st]
  obtain args where args: "mem_Get (Int64 io) (Int64 is) (f_mem f) = Some args" "length (sl args) < 2 ^ 62"
    by (rule mem_Get_fits [OF c(1) frame_okD(3) [OF f(1)] nn(2,3)])
  define gas where "gas = (if U256 v \<noteq> 0 then callGasTemp (f_evm f) + CallStipend else callGasTemp (f_evm f))"
  have gas: "f_gas f + unat gas \<le> g" unfolding gas_def using f(5,6) st by (intro callee_gas) simp_all
  have gas45: "unat gas < 2 ^ 45" "2 * unat gas + 2 \<le> fuel" using gas f(6,7) by simp_all
  show "\<exists>r. opCallCode rn f = Some r \<and> exec_to f g r"
    by (rule finish_callI [OF f(1) rest c(2) nn(4,5) CallCode_ok [where cllr = "OfContract (f_contract f)" and addr = "BigToAddress a", OF frame_okD(1) [OF f(1)] args(2) U256_bounds(1) gas45] gas f(6)])
       (unfold opCallCode_def st pop_def Let_def list.case bind.simps prod.case args(1) gas_def [symmetric], rule refl)
qed

lemma exec_delegatecall: "exec_ok opDelegateCall rn fuel (fits memoryDelegateCall) 6 1 call_ext"
  unfolding exec_ok_def
proof (intro allI impI)
  fix f :: "'t frame" and g
  assume f: "frame_ok f" "6 \<le> length (f_stack f)" "length (f_stack f) + 1 \<le> StackLimit + 6" "fits memoryDelegateCall f"
    "g = f_gas f + call_ext (callGasTemp (f_evm f)) (f_stack f)" "g < 2 ^ 45" "2 * g + 2 \<le> fuel"
  obtain g0 a io "is" ro rs rest where st: "f_stack f = g0 # a # io # is # ro # rs # rest"
    and nn: "0 \<le> io" "0 \<le> is" "0 \<le> ro" "0 \<le> rs" and rest: "\<forall>x \<in> set rest. 0 \<le> x" "length rest < StackLimit"
    by (rule stack6 [OF f(1,2,3)])
  note c = fits_delegate [OF disjI1 [OF f(4)] st]
  obtain args where args: "mem_Get (Int64 io) (Int64 is) (f_mem f) = Some args" "length (sl args) < 2 ^ 62"
    by (rule mem_Get_fits [OF c(1) frame_okD(3) [OF f(1)] nn(1,2)])
  define gas where "gas = callGasTemp (f_evm f)"
  have gas: "f_gas f + unat gas = g" using f(5) by (simp add: gas_def call_ext_def)
  have gas45: "unat gas < 2 ^ 45" "2 * unat gas + 2 \<le> fuel" using gas f(6,7) by simp_all
  obtain v where v: "c_value (f_contract f) = Some v" "0 \<le> v" by (rule frame_ok_value [OF f(1)])
  show "\<exists>r. opDelegateCall rn f = Some r \<and> exec_to f g r"
    by (rule finish_callI [OF f(1) rest c(2) nn(3,4) DelegateCall_ok [where addr = "BigToAddress a", OF frame_okD(1) [OF f(1)] args(2) v gas45] eq_imp_le [OF gas] f(6)])
       (unfold opDelegateCall_def st pop_def Let_def list.case bind.simps prod.case args(1) gas_def [symmetric], rule refl)
qed

lemma exec_staticcall: "exec_ok opStaticCall rn fuel (fits memoryStaticCall) 6 1 call_ext"
  unfolding exec_ok_def
proof (intro allI impI)
  fix f :: "'t frame" and g
  assume f: "frame_ok f" "6 \<le> length (f_stack f)" "length (f_stack f) + 1 \<le> StackLimit + 6" "fits memoryStaticCall f"
    "g = f_gas f + call_ext (callGasTemp (f_evm f)) (f_stack f)" "g < 2 ^ 45" "2 * g + 2 \<le> fuel"
  obtain g0 a io "is" ro rs rest where st: "f_stack f = g0 # a # io # is # ro # rs # rest"
    and nn: "0 \<le> io" "0 \<le> is" "0 \<le> ro" "0 \<le> rs" and rest: "\<forall>x \<in> set rest. 0 \<le> x" "length rest < StackLimit"
    by (rule stack6 [OF f(1,2,3)])
  note c = fits_delegate [OF disjI2 [OF f(4)] st]
  obtain args where args: "mem_Get (Int64 io) (Int64 is) (f_mem f) = Some args" "length (sl args) < 2 ^ 62"
    by (rule mem_Get_fits [OF c(1) frame_okD(3) [OF f(1)] nn(1,2)])
  define gas where "gas = callGasTemp (f_evm f)"
  have gas: "f_gas f + unat gas = g" using f(5) by (simp add: gas_def call_ext_def)
  have gas45: "unat gas < 2 ^ 45" "2 * unat gas + 2 \<le> fuel" using gas f(6,7) by simp_all
  show "\<exists>r. opStaticCall rn f = Some r \<and> exec_to f g r"
    by (rule finish_callI [OF f(1) rest c(2) nn(3,4) StaticCall_ok [where cllr = "OfContract (f_contract f)" and addr = "BigToAddress a", OF frame_okD(1) [OF f(1)] args(2) gas45] eq_imp_le [OF gas] f(6)])
       (unfold opStaticCall_def st pop_def Let_def list.case bind.simps prod.case args(1) gas_def [symmetric], rule refl)
qed

end

end
