(* ===== verification/Machine_Total.thy ===== *)
theory Machine_Total
  imports Machine_Exec
begin

text \<open>
  The interpreter always returns: every entry of the instruction tables meets its contract, so a step of the
  loop either ends the run or burns gas, and a run with more fuel than twice its gas is never cut short.
\<close>

declare option.case_cong [cong] sum.case_cong [cong]

subsection \<open>Entries of the instruction tables\<close>

definition mem_total :: "(Stack \<Rightarrow> int option) \<Rightarrow> nat \<Rightarrow> bool" where
  "mem_total ms n \<longleftrightarrow> (\<forall>st. n \<le> length st \<longrightarrow> (\<forall>x \<in> set st. 0 \<le> x) \<longrightarrow> (\<exists>x \<ge> 0. ms st = Some x))"

definition oper_pre :: "byte \<Rightarrow> 't operation \<Rightarrow> 't frame \<Rightarrow> bool" where
  "oper_pre op oper f \<longleftrightarrow> (op \<noteq> STOP \<longrightarrow> pc_in_code f) \<and> (\<forall>ms. memorySize oper = Some ms \<longrightarrow> fits ms f)
     \<and> (static (f_evm f) \<longrightarrow> \<not> writes oper \<and> (op = CALL \<longrightarrow> f_stack f ! 2 = 0))"

definition oper_ok :: "'t run_fn \<Rightarrow> nat \<Rightarrow> byte \<Rightarrow> 't operation \<Rightarrow> bool" where
  "oper_ok rn fuel op oper \<longleftrightarrow> (valid oper \<longrightarrow> (\<exists>pops pushes ext.
     validateStack oper = makeStackFunc pops pushes \<and> (op = CALL \<longrightarrow> 3 \<le> pops)
     \<and> gas_ok (gasCost oper) pops ext (if halts oper \<or> reverts oper then 0 else 1) (memorySize oper \<noteq> None)
     \<and> exec_ok (execute oper) rn (if halts oper \<or> reverts oper then fuel + 2 else fuel) (oper_pre op oper) pops pushes ext
     \<and> (\<forall>ms. memorySize oper = Some ms \<longrightarrow> mem_total ms pops)))"

lemma exec_ok_weaken:
  "exec_ok e rn fuel P pops pushes ext \<Longrightarrow> (\<And>f. Q f \<Longrightarrow> P f) \<Longrightarrow> exec_ok e rn fuel Q pops pushes ext"
  unfolding exec_ok_def by blast

lemma gwp_mono: "gwp f m Q \<Longrightarrow> (\<And>c f'. Q c f' \<Longrightarrow> R c f') \<Longrightarrow> gwp f m R"
  unfolding gwp_def by (fastforce split: sum.splits)

lemma gas_ok_weaken:
  assumes "gas_ok g n ext lo b" "n \<le> m" "c \<Longrightarrow> b"
  shows "gas_ok g m ext lo c"
  unfolding gas_ok_def
proof (intro allI impI)
  fix f :: "'a frame" and sz
  assume "frame_ok f" "m \<le> length (f_stack f)"
  with assms(1,2) have "gwp f (g (gasTable (f_evm f)) sz)
      (\<lambda>c f'. ext (callGasTemp (f_evm f')) (f_stack f) + lo \<le> unat c \<and> (b \<longrightarrow> unat sz \<le> mem_max))"
    by (simp add: gas_ok_def)
  then show "gwp f (g (gasTable (f_evm f)) sz)
      (\<lambda>x f'. ext (callGasTemp (f_evm f')) (f_stack f) + lo \<le> unat x \<and> (c \<longrightarrow> unat sz \<le> mem_max))"
    by (rule gwp_mono) (use assms(3) in blast)
qed

lemma oper_okI:
  assumes "execute oper = e" "gasCost oper = g" "validateStack oper = makeStackFunc pops pushes"
    and "(if halts oper \<or> reverts oper then 0 else 1) = lo" "(if halts oper \<or> reverts oper then fuel + 2 else fuel) = fu"
    and "gas_ok g pops ext lo mb" "exec_ok e rn fu P pops pushes ext" "memorySize oper \<noteq> None \<Longrightarrow> mb"
    and "\<And>f. oper_pre op oper f \<Longrightarrow> P f" "pred_option (\<lambda>ms. mem_total ms pops) (memorySize oper)"
    and "op = CALL \<Longrightarrow> 3 \<le> pops"
  shows "oper_ok rn fuel op oper"
proof -
  have "exec_ok e rn fu (oper_pre op oper) pops pushes ext" by (rule exec_ok_weaken [OF assms(7,9)])
  moreover have "gas_ok g pops ext lo (memorySize oper \<noteq> None)"
    by (rule gas_ok_weaken [OF assms(6) _ assms(8)]) simp_all
  moreover have "mem_total ms pops" if "memorySize oper = Some ms" for ms using assms(10) that by simp
  ultimately show ?thesis using assms(11) unfolding oper_ok_def assms(1-5) by blast
qed

lemma mem_totals:
  "2 \<le> n \<Longrightarrow> mem_total memorySha3 n" "3 \<le> n \<Longrightarrow> mem_total memoryCallDataCopy n" "3 \<le> n \<Longrightarrow> mem_total memoryCodeCopy n"
  "3 \<le> n \<Longrightarrow> mem_total memoryReturnDataCopy n" "4 \<le> n \<Longrightarrow> mem_total memoryExtCodeCopy n"
  "1 \<le> n \<Longrightarrow> mem_total memoryMLoad n" "1 \<le> n \<Longrightarrow> mem_total memoryMStore n" "1 \<le> n \<Longrightarrow> mem_total memoryMStore8 n"
  "3 \<le> n \<Longrightarrow> mem_total memoryCreate n" "7 \<le> n \<Longrightarrow> mem_total memoryCall n" "6 \<le> n \<Longrightarrow> mem_total memoryDelegateCall n"
  "6 \<le> n \<Longrightarrow> mem_total memoryStaticCall n" "2 \<le> n \<Longrightarrow> mem_total memoryReturn n" "2 \<le> n \<Longrightarrow> mem_total memoryRevert n"
  "2 \<le> n \<Longrightarrow> mem_total memoryLog n"
  by (simp add: mem_total_def memorySha3_def memoryCallDataCopy_def memoryCodeCopy_def memoryReturnDataCopy_def
      memoryExtCodeCopy_def memoryMLoad_def memoryMStore_def memoryMStore8_def memoryCreate_def memoryCall_def
      memoryDelegateCall_def memoryStaticCall_def memoryReturn_def memoryRevert_def memoryLog_def Back_def calcMemSize_def
      BigMax_max max_def)+

lemma makeDupStackFunc_eq: "makeDupStackFunc n = makeStackFunc n (n + 1)" "makeSwapStackFunc n = makeStackFunc n n"
  by (simp_all add: makeDupStackFunc_def makeSwapStackFunc_def)

lemmas oper_simps = mkop_def mem_totals oper_pre_def may_write_def call_value_ok_def params

text \<open>The instructions that call nobody.\<close>

lemmas plain_gas = gas_ok_table gas_ok_words gas_ok_memory gas_ok_exp gas_ok_SStore gas_ok_Suicide gas_ok_const

lemmas plain_exec = exec_binary exec_compare exec_unary exec_ternary exec_nullary exec_gasprice exec_signextend
  exec_callvalue exec_pop exec_nop exec_mload exec_mstore exec_mstore8 exec_copy exec_extcodecopy exec_returndatacopy
  exec_calldataload exec_return exec_reads exec_blockhash exec_sload exec_sstore exec_suicide exec_sha3 exec_jump

definition table_ok :: "'t run_fn \<Rightarrow> nat \<Rightarrow> (byte \<times> 't operation) list \<Rightarrow> bool" where
  "table_ok rn fuel = list_all (\<lambda>(op, oper). oper_ok rn fuel op oper)"

lemma table_ok_simps:
  "table_ok rn fuel []" "oper_ok rn fuel op oper \<Longrightarrow> table_ok rn fuel xs \<Longrightarrow> table_ok rn fuel ((op, oper) # xs)"
  by (simp_all add: table_ok_def)

lemma table_ok_lookup:
  assumes "table_ok rn fuel xs"
  shows "oper_ok rn fuel op (case map_of xs op of Some operation \<Rightarrow> operation | None \<Rightarrow> no_operation)"
proof (cases "map_of xs op")
  case None
  then show ?thesis by (simp add: oper_ok_def no_operation_def mkop_def)
next
  case (Some oper)
  with map_of_SomeD [OF this] assms show ?thesis by (fastforce simp: table_ok_def list_all_iff)
qed

lemma frontier_plain_ok: "table_ok rn fuel (frontier_arith @ frontier_env @ frontier_flow)"
  unfolding frontier_arith_def frontier_env_def frontier_flow_def append.simps
  supply One_nat_def [simp del]
  by (intro table_ok_simps;
      (rule oper_okI, simp add: oper_simps, simp add: oper_simps, simp add: oper_simps, simp add: oper_simps,
      simp add: oper_simps, rule plain_gas, (simp add: oper_simps; fail)?, rule plain_exec, (assumption | simp add: oper_simps)+))

lemma push_ok:
  "op \<noteq> STOP \<and> op \<noteq> CALL \<and> n \<le> 32 \<Longrightarrow>
   oper_ok rn fuel op ((mkop (makePush k n) gasPush (makeStackFunc 0 1))\<lparr>valid := True\<rparr>)"
  supply One_nat_def [simp del]
  by (rule oper_okI, simp add: oper_simps, simp add: oper_simps, simp add: oper_simps, simp add: oper_simps,
      simp add: oper_simps, rule plain_gas, rule exec_push, simp_all add: oper_simps)

lemma dup_ok: "0 < n \<and> op \<noteq> CALL \<Longrightarrow> oper_ok rn fuel op ((mkop (makeDup n) gasDup (makeDupStackFunc n))\<lparr>valid := True\<rparr>)"
  supply One_nat_def [simp del]
  by (rule oper_okI, simp add: oper_simps, simp add: oper_simps, simp add: oper_simps makeDupStackFunc_eq(1),
      simp add: oper_simps, simp add: oper_simps, rule plain_gas, rule exec_dup, simp, (assumption | simp add: oper_simps)+)

lemma swap_ok: "m = n + 1 \<and> op \<noteq> CALL \<Longrightarrow> oper_ok rn fuel op ((mkop (makeSwap n) gasSwap (makeSwapStackFunc m))\<lparr>valid := True\<rparr>)"
  supply One_nat_def [simp del]
  by (elim conjE, hypsubst, rule oper_okI, simp add: oper_simps, simp add: oper_simps, simp add: oper_simps makeDupStackFunc_eq(2),
      simp add: oper_simps, simp add: oper_simps, rule plain_gas, rule exec_swap, (assumption | simp add: oper_simps)+)

lemma log_ok: "m = n + 2 \<and> op \<noteq> CALL \<Longrightarrow> oper_ok rn fuel op ((mkop (makeLog n) (makeGasLog k) (makeStackFunc m 0))
    \<lparr>memorySize := Some memoryLog, writes := True, valid := True\<rparr>)"
  supply One_nat_def [simp del] add_2_eq_Suc' [simp del]
  by (elim conjE, hypsubst, rule oper_okI, simp add: oper_simps, simp add: oper_simps, simp add: oper_simps,
      simp add: oper_simps, simp add: oper_simps, rule gas_ok_weaken [OF gas_ok_log], simp, assumption, rule exec_log,
      simp_all add: oper_simps)

lemma frontier_stack_ok: "table_ok rn fuel (frontier_push_lo @ frontier_push_hi @ frontier_dup @ frontier_swap)"
  unfolding frontier_push_lo_def frontier_push_hi_def frontier_dup_def frontier_swap_def append.simps
  by (intro table_ok_simps; rule push_ok dup_ok swap_ok, simp)

subsection \<open>One round of the loop\<close>

lemma memory_size_ok:
  assumes "pred_option (\<lambda>ms. mem_total ms n) (memorySize oper)" "n \<le> length st" "\<forall>x \<in> set st. 0 \<le> x"
  shows "\<exists>r. memory_size oper st = Some r \<and> (\<forall>sz. r = Inr sz \<longrightarrow> (memorySize oper = None \<longrightarrow> sz = 0)
    \<and> (\<forall>ms x. memorySize oper = Some ms \<longrightarrow> ms st = Some x \<longrightarrow> x \<le> int (unat sz)))"
proof (cases "memorySize oper")
  case None
  then show ?thesis by (simp add: memory_size_def)
next
  case (Some ms)
  obtain x where x: "ms st = Some x" "0 \<le> x" using assms Some by (auto simp: mem_total_def)
  obtain sz o' where m: "SafeMul (toWordSize (Uint64 x)) 32 = (sz, o')" by force
  have "x \<le> int (unat sz)" if "\<not> BitLen x > 64" "\<not> o'"
  proof -
    have "unat sz = unat (toWordSize (Uint64 x)) * 32"
      using SafeMul_spec(2) [of "toWordSize (Uint64 x)" 32] m that(2) by simp
    moreover have "unat (Uint64 x) = nat x"
      using that(1) x(2) by (intro Uint64_unat) (simp_all add: BitLen_gt_iff)
    ultimately have "nat x \<le> unat sz" by (simp add: toWordSize_ceil)
    then show ?thesis using x(2) by linarith
  qed
  with m x Some show ?thesis by (simp add: memory_size_def bigUint64_def)
qed

lemma Resize_ok:
  assumes "unat sz \<le> mem_max" "length (store m) < 2 ^ 40"
  obtains m' where "Resize sz m = Some m'" "length (store m') < 2 ^ 40" "unat sz \<le> length (store m')"
proof -
  have "mem_max < 2 ^ 40" "(2 :: nat) ^ 40 \<le> 2 ^ 48" "(2 :: nat) ^ 40 \<le> 2 ^ 64" by (simp_all add: mem_max_def)
  then have "Resize sz m = Some (m\<lparr>store := store m @ replicate (unat sz - length (store m)) 0\<rparr>)" "unat sz < 2 ^ 40"
    using assms Resize_Some [of m sz] by auto
  then show ?thesis using that assms(2) by simp
qed

lemma contract_gas: "contract_ok kec c \<Longrightarrow> unat (c_Gas c) < 2 ^ 45"
  by (simp add: contract_ok_def)

lemma charge_ok:
  assumes f: "frame_ok f" "pops \<le> length (f_stack f)" and g: "gas_ok (gasCost oper) pops ext lo mb" and sz: "\<not> mb \<Longrightarrow> sz = 0"
  shows "\<exists>paid f'. charge oper sz f = Some (paid, f') \<and> frame_ok f' \<and> evm_to (f_evm f) (f_evm f') \<and> f_pc f' = f_pc f
    \<and> f_stack f' = f_stack f \<and> c_Code (f_contract f') = c_Code (f_contract f) \<and> f_gas f' \<le> f_gas f
    \<and> (paid \<longrightarrow> f_gas f' + ext (callGasTemp (f_evm f')) (f_stack f) + lo \<le> f_gas f \<and> unat sz \<le> length (store (f_mem f')))"
proof -
  obtain r f1 where r: "gasCost oper (gasTable (f_evm f)) sz f = Some (r, f1)" and to: "gas_to f f1"
    and c: "\<And>c. r = Inr c \<Longrightarrow> ext (callGasTemp (f_evm f1)) (f_stack f) + lo \<le> unat c \<and> (mb \<longrightarrow> unat sz \<le> mem_max)"
    using g f unfolding gas_ok_def gwp_def by blast
  note D = gas_toD [OF to] and ok = gas_to_ok [OF f(1) to]
  show ?thesis
  proof (cases r)
    case (Inl e)
    then show ?thesis using r D ok by - (rule exI [of _ False], rule exI [of _ f1], simp add: charge_def)
  next
    case (Inr cost)
    show ?thesis
    proof (cases "c_Gas (f_contract f1) < cost")
      case True
      then show ?thesis using r D ok Inr by - (rule exI [of _ False], rule exI [of _ f1], simp add: charge_def UseGas_def)
    next
      case False
      let ?c = "(f_contract f1)\<lparr>c_Gas := c_Gas (f_contract f1) - cost\<rparr>"
      have gas: "unat (c_Gas (f_contract f1) - cost) = f_gas f - unat cost" "unat cost \<le> f_gas f"
        using False D(2) by (simp_all add: unat_sub not_less word_le_nat_alt)
      have szm: "unat sz \<le> mem_max" using c [OF Inr] sz by (cases mb) auto
      obtain m where m: "(if sz > 0 then Resize sz (f_mem f1) else Some (f_mem f1)) = Some m"
        and mem: "length (store m) < 2 ^ 40" "unat sz \<le> length (store m)"
      proof (cases "sz > 0")
        case True
        then show ?thesis using that by (metis Resize_ok [OF szm frame_okD(3) [OF ok]])
      next
        case False
        then show ?thesis using that [of "f_mem f1"] frame_okD(3) [OF ok] by (simp add: word_gt_0)
      qed
      have "contract_ok (evm_keccak (f_evm f1)) ?c"
        using contract_ok_gas [OF frame_okD(2) [OF ok]] contract_gas [OF frame_okD(2) [OF f(1)]] gas(1) by simp
      then have "frame_ok (f1\<lparr>f_contract := ?c, f_mem := m\<rparr>)"
        by (intro frame_ok_mem frame_ok_contract ok mem(1))
      moreover have "charge oper sz f = Some (True, f1\<lparr>f_contract := ?c, f_mem := m\<rparr>)"
        using r Inr False m by (simp add: charge_def UseGas_def)
      moreover have "f_gas f - unat cost + ext (callGasTemp (f_evm f1)) (f_stack f) + lo \<le> f_gas f"
        using gas(2) c [OF Inr] by linarith
      ultimately show ?thesis
        using D(1,2,3,5) mem(2) gas(1) by - (rule exI [of _ True], rule exI [of _ "f1\<lparr>f_contract := ?c, f_mem := m\<rparr>"], simp)
    qed
  qed
qed

text \<open>A round ends with a good frame and less gas, or with the results of the run.\<close>

definition step_to :: "'t frame \<Rightarrow> 't outcome \<Rightarrow> bool" where
  "step_to f out \<longleftrightarrow> (case out of
     Next f' \<Rightarrow> frame_ok f' \<and> evm_to (f_evm f) (f_evm f') \<and> f_gas f' < f_gas f
   | Done r f' \<Rightarrow> exec_to f (f_gas f) (r, f'))"

lemma makeStackFunc_None:
  "makeStackFunc pops pushes st = None \<longleftrightarrow> pops \<le> length st \<and> length st + pushes \<le> StackLimit + pops"
  by (auto simp: makeStackFunc_def require_def)

lemma enforce_ok:
  assumes "op = CALL \<longrightarrow> 3 \<le> length st"
  shows "\<exists>r. enforceRestrictions evm op oper st = Some r
    \<and> (r = None \<longrightarrow> static evm \<longrightarrow> \<not> writes oper \<and> (op = CALL \<longrightarrow> st ! 2 = 0))"
  using assms by (auto simp: enforceRestrictions_def static_def Back_def)

lemma GetOp_in_code:
  assumes "frame_ok f" "GetOp (f_contract f) (f_pc f) \<noteq> STOP"
  shows "pc_in_code f"
proof -
  have "length (c_Code (f_contract f)) < 2 ^ 62" using frame_okD(2) [OF assms(1)] by (simp add: contract_ok_def)
  then have "unat (of_nat (length (c_Code (f_contract f))) :: u64) = length (c_Code (f_contract f))"
    by (intro unat_of_nat_u64) simp
  with assms(2) show ?thesis
    by (simp add: GetOp_def GetByte_def pc_in_code_def word_less_nat_alt split: if_splits)
qed

lemma evm_to_returnData:
  assumes "evm_ok evm" "length (sl ret) < 2 ^ 62"
  shows "evm_to evm (evm\<lparr>returnData := ret\<rparr>)"
  using assms by (simp add: evm_to_def same_env_def evm_ok_def env_ok_def evm_keccak_def blockNum_def)

lemma dispatch_ok:
  assumes r: "execute oper rn f1 = Some r" "exec_to f1 g r" and f: "evm_to (f_evm f) (f_evm f1)"
    and g: "g \<le> f_gas f" "\<not> (halts oper \<or> reverts oper) \<Longrightarrow> g < f_gas f"
  shows "\<exists>out. dispatch rn oper f1 = Some out \<and> step_to f out"
proof -
  obtain res err f2 where r2: "r = ((res, err), f2)" by (metis prod.exhaust)
  note x = r(2) [unfolded exec_to_def r2, simplified]
  define f3 where "f3 = (if returns oper then f2\<lparr>f_evm := (f_evm f2)\<lparr>returnData := res\<rparr>\<rparr> else f2)"
  have e: "evm_to (f_evm f2) (f_evm f3)" "f_gas f3 = f_gas f2"
    using x evm_to_returnData [of "f_evm f2" res] by (auto simp: f3_def frame_okD(1))
  have "frame_ok f3" using x frame_ok_evm [OF _ e(1)] by (auto simp: f3_def)
  moreover have "evm_to (f_evm f) (f_evm f3)" using evm_to_trans [OF f] x e(1) evm_to_trans by blast
  ultimately have to: "exec_to f (f_gas f) ((res, err'), f3)" "exec_to f (f_gas f) ((None, err'), f3)" for err'
    using x e(2) g(1) by (simp_all add: exec_to_def)
  have "step_to f (Next f3)" if "\<not> halts oper" "\<not> reverts oper"
    using that to(1) g(2) x e(2) by (simp add: step_to_def exec_to_def)
  then show ?thesis using to r(1)
    by (cases err) (simp_all add: dispatch_def r2 f3_def [symmetric] Let_def step_to_def)
qed

context interp
begin

lemma frontier_system_ok: "table_ok rn fuel frontier_system"
  unfolding frontier_system_def
  supply One_nat_def [simp del]
  by (intro table_ok_simps;
      ((rule log_ok, simp) | (rule oper_okI, simp add: oper_simps, simp add: oper_simps, simp add: oper_simps, simp add: oper_simps,
      simp add: oper_simps, rule plain_gas gas_ok_CallCode gas_ok_Call, (simp add: oper_simps; fail)?,
      rule plain_exec exec_create exec_call exec_callcode, (assumption | simp add: oper_simps)+)))

lemma frontier_ok: "oper_ok rn fuel op (newFrontierInstructionSet op)"
proof -
  have "table_ok rn fuel (frontier_arith @ frontier_env @ frontier_flow @ frontier_push_lo @ frontier_push_hi
      @ frontier_dup @ frontier_swap @ frontier_system)"
    using frontier_plain_ok [of rn fuel] frontier_stack_ok [of rn fuel] frontier_system_ok by (simp add: table_ok_def)
  then show ?thesis
    unfolding newFrontierInstructionSet_def by (rule table_ok_lookup)
qed

lemma homestead_ok: "oper_ok rn fuel op (newHomesteadInstructionSet op)"
proof -
  have "oper_ok rn fuel DELEGATECALL ((mkop opDelegateCall gasDelegateCall (makeStackFunc 6 1))
      \<lparr>memorySize := Some memoryDelegateCall, valid := True, returns := True\<rparr>)"
    supply One_nat_def [simp del]
    by (rule oper_okI, simp add: oper_simps, simp add: oper_simps, simp add: oper_simps, simp add: oper_simps,
        simp add: oper_simps, rule gas_ok_calls, rule exec_delegatecall, simp_all add: oper_simps)
  then show ?thesis using frontier_ok by (simp add: newHomesteadInstructionSet_def)
qed

lemma byzantium_ok: "oper_ok rn fuel op (newByzantiumInstructionSet op)"
proof -
  have "oper_ok rn fuel STATICCALL ((mkop opStaticCall gasStaticCall (makeStackFunc 6 1))
      \<lparr>memorySize := Some memoryStaticCall, valid := True, returns := True\<rparr>)"
    supply One_nat_def [simp del]
    by (rule oper_okI, simp add: oper_simps, simp add: oper_simps, simp add: oper_simps, simp add: oper_simps,
        simp add: oper_simps, rule gas_ok_calls, rule exec_staticcall, simp_all add: oper_simps)
  moreover have "table_ok rn fuel [
      (RETURNDATASIZE, (mkop opReturnDataSize (constGasFunc GasQuickStep) (makeStackFunc 0 1))\<lparr>valid := True\<rparr>),
      (RETURNDATACOPY, (mkop opReturnDataCopy gasReturnDataCopy (makeStackFunc 3 0))\<lparr>memorySize := Some memoryReturnDataCopy, valid := True\<rparr>),
      (REVERT, (mkop opRevert gasRevert (makeStackFunc 2 0))\<lparr>memorySize := Some memoryRevert, valid := True, reverts := True, returns := True\<rparr>)]"
    supply One_nat_def [simp del]
    by (intro table_ok_simps;
      (rule oper_okI, simp add: oper_simps, simp add: oper_simps, simp add: oper_simps, simp add: oper_simps,
      simp add: oper_simps, rule plain_gas, (simp add: oper_simps; fail)?, rule plain_exec, (assumption | simp add: oper_simps)+))
  ultimately show ?thesis using homestead_ok by (simp add: newByzantiumInstructionSet_def table_ok_def)
qed

lemma instruction_set_ok: "env_ok evm \<Longrightarrow> oper_ok rn fuel op (instruction_set evm op)"
  by (simp add: instruction_set_def env_ok_def byzantium_ok homestead_ok frontier_ok)

lemma execute_ok:
  assumes f: "frame_ok f" and g: "2 * f_gas f \<le> fuel"
    and ex: "exec_ok (execute oper) rn (if halts oper \<or> reverts oper then fuel + 2 else fuel) P pops pushes ext"
    and len: "pops \<le> length (f_stack f)" "length (f_stack f) + pushes \<le> StackLimit + pops"
    and c: "frame_ok f1" "evm_to (f_evm f) (f_evm f1)" "f_stack f1 = f_stack f" "P f1"
    and p: "f_gas f1 + ext (callGasTemp (f_evm f1)) (f_stack f) + (if halts oper \<or> reverts oper then 0 else 1) \<le> f_gas f"
  shows "\<exists>out. dispatch rn oper f1 = Some out \<and> step_to f out"
proof -
  let ?g = "f_gas f1 + ext (callGasTemp (f_evm f1)) (f_stack f1)"
  have g1: "?g \<le> f_gas f" "\<not> (halts oper \<or> reverts oper) \<Longrightarrow> ?g < f_gas f" using p c(3) by auto
  have "?g < 2 ^ 45" using g1(1) contract_gas [OF frame_okD(2) [OF f]] by linarith
  moreover have "2 * ?g + 2 \<le> (if halts oper \<or> reverts oper then fuel + 2 else fuel)" using g1 g by auto
  ultimately obtain x where x: "execute oper rn f1 = Some x" "exec_to f1 ?g x"
    using ex [unfolded exec_ok_def, rule_format, of f1] c(1,3,4) len by auto
  show ?thesis by (rule dispatch_ok [OF x c(2) g1])
qed

lemma step_ok:
  assumes f: "frame_ok f" and g: "2 * f_gas f \<le> fuel"
  shows "\<exists>out. step rn f = Some out \<and> step_to f out"
proof -
  define op where "op = GetOp (f_contract f) (f_pc f)"
  define oper where "oper = instruction_set (f_evm f) op"
  note step = step_def [of rn f, unfolded Let_def, folded op_def, folded oper_def]
  have stop: "step_to f (Done (None, Some err) f)" for err using f by (simp add: step_to_def exec_to_def frame_okD(1))
  show ?thesis
  proof (cases "valid oper \<and> validateStack oper (f_stack f) = None")
    case False
    then show ?thesis unfolding step using stop by (auto split: option.split)
  next
    case True
    have oper: "oper_ok rn fuel op oper" unfolding oper_def by (rule instruction_set_ok [OF frame_okD(7) [OF f]])
    then obtain pops pushes ext where st: "validateStack oper = makeStackFunc pops pushes" "op = CALL \<longrightarrow> 3 \<le> pops"
      and ga: "gas_ok (gasCost oper) pops ext (if halts oper \<or> reverts oper then 0 else 1) (memorySize oper \<noteq> None)"
      and ex: "exec_ok (execute oper) rn (if halts oper \<or> reverts oper then fuel + 2 else fuel) (oper_pre op oper) pops pushes ext"
      and mt: "\<forall>ms. memorySize oper = Some ms \<longrightarrow> mem_total ms pops"
      using True unfolding oper_ok_def by blast
    have ms: "pred_option (\<lambda>ms. mem_total ms pops) (memorySize oper)" using mt by (cases "memorySize oper") simp_all
    have len: "pops \<le> length (f_stack f)" "length (f_stack f) + pushes \<le> StackLimit + pops"
      using True by (simp_all add: st(1) makeStackFunc_None)
    obtain res where res: "enforceRestrictions (f_evm f) op oper (f_stack f) = Some res"
      and ro: "res = None \<longrightarrow> static (f_evm f) \<longrightarrow> \<not> writes oper \<and> (op = CALL \<longrightarrow> f_stack f ! 2 = 0)"
      using enforce_ok [of op "f_stack f" "f_evm f" oper] order_trans [OF _ len(1)] st(2) by blast
    obtain r where r: "memory_size oper (f_stack f) = Some r"
      and sz: "\<And>sz. r = Inr sz \<Longrightarrow> (memorySize oper = None \<longrightarrow> sz = 0)
        \<and> (\<forall>ms x. memorySize oper = Some ms \<longrightarrow> ms (f_stack f) = Some x \<longrightarrow> x \<le> int (unat sz))"
      using memory_size_ok [OF ms len(1) frame_okD(4) [OF f]] by blast
    note early = step [simplified True res r, simplified]
    show ?thesis
    proof (cases res; cases r)
      fix z
      assume n: "res = None" and z: "r = Inr z"
      obtain paid f1 where c: "charge oper z f = Some (paid, f1)" "frame_ok f1" "evm_to (f_evm f) (f_evm f1)" "f_pc f1 = f_pc f"
          "f_stack f1 = f_stack f" "c_Code (f_contract f1) = c_Code (f_contract f)" "f_gas f1 \<le> f_gas f"
        and p: "paid \<longrightarrow> f_gas f1 + ext (callGasTemp (f_evm f1)) (f_stack f) + (if halts oper \<or> reverts oper then 0 else 1) \<le> f_gas f
            \<and> unat z \<le> length (store (f_mem f1))"
        using charge_ok [OF f len(1) ga, of z] sz [OF z] by blast
      show ?thesis
      proof (cases paid)
        case False
        then have "step rn f = Some (Done (None, Some ErrOutOfGas) f1)" using early n z c(1) by simp
        then show ?thesis using c by (simp add: step_to_def exec_to_def)
      next
        case paid: True
        have "fits ms f1" if "memorySize oper = Some ms" for ms
          unfolding fits_def c(5)
        proof (intro allI impI)
          fix x
          assume "ms (f_stack f) = Some x"
          then have "x \<le> int (unat z)" using sz [OF z] that by blast
          also have "\<dots> \<le> int (length (store (f_mem f1)))" using p paid by (simp only: of_nat_le_iff)
          finally show "x \<le> int (length (store (f_mem f1)))" .
        qed
        moreover have "pc_in_code f1" if "op \<noteq> STOP"
          using GetOp_in_code [OF f] that c(4,6) by (simp add: pc_in_code_def op_def)
        ultimately have "oper_pre op oper f1"
          using ro n c(5) evm_toD(1) [OF c(3)] by (simp add: oper_pre_def static_def same_env_def)
        then have "\<exists>out. dispatch rn oper f1 = Some out \<and> step_to f out"
          using p paid by (intro execute_ok [OF f g ex len c(2,3,5)]) simp_all
        then show ?thesis using early n z c(1) paid by simp
      qed
    qed (use early stop in simp_all)
  qed
qed

end

subsection \<open>The loop\<close>

lemma enter_ok:
  assumes "evm_ok evm"
  shows "evm_ok (enter ro evm)" "static (enter ro evm) = read_only ro evm" "evm_StateDB (enter ro evm) = evm_StateDB evm"
    "evm_keccak (enter ro evm) = evm_keccak evm"
  using assms by (simp_all add: enter_def evm_ok_def env_ok_def evm_keccak_def blockNum_def static_def read_only_def)

lemma leave_ok:
  assumes "evm_to (enter ro evm) evm'" "setRO = (ro \<and> \<not> readOnly evm)"
  shows "evm_to evm (leave setRO evm')" "evm_StateDB (leave setRO evm') = evm_StateDB evm'"
proof -
  show db: "evm_StateDB (leave setRO evm') = evm_StateDB evm'" by (simp add: leave_def)
  have "static (enter ro evm)" if "static evm" using that by (simp add: static_def enter_def)
  moreover have "evm_ok (leave setRO evm')"
    using evm_toD(2) [OF assms(1)] by (simp add: leave_def evm_ok_def env_ok_def evm_keccak_def blockNum_def)
  moreover have "same_env evm (leave setRO evm')"
    using evm_toD(1) [OF assms(1)] assms(2) by (auto simp: same_env_def leave_def enter_def)
  ultimately show "evm_to evm (leave setRO evm')"
    using evm_toD(3,4) [OF assms(1)] by (simp add: evm_to_def db) (simp add: enter_def)
qed

lemma start_frame_ok:
  assumes "evm_ok evm" "contract_ok (evm_keccak evm) c" "length (sl input) < 2 ^ 62"
  shows "frame_ok (start_frame c input evm)"
  using assms by (simp add: frame_ok_def start_frame_def contract_ok_def NewMemory_def newstack_def)

lemma Run_Suc_ok:
  assumes loop: "\<And>f :: 't frame. frame_ok f \<Longrightarrow> 2 * f_gas f + 1 \<le> n \<Longrightarrow> \<exists>r. Run_loop n f = Some r \<and> exec_to f (f_gas f) r"
  shows "interp (Run (Suc n) :: 't run_fn) (Suc n)"
proof (unfold_locales)
  fix evm :: "'t EVM" and c input ro
  assume e: "evm_ok evm" "contract_ok (evm_keccak evm) c" "length (sl input) < 2 ^ 62" "2 * unat (c_Gas c) + 2 \<le> Suc n"
  let ?s = "ro \<and> \<not> readOnly evm" and ?f = "start_frame c input (enter ro evm)"
  note en = enter_ok [OF e(1), of ro]
  have to: "run_to ro evm c ((ret, err), c', leave ?s evm')"
    if "evm_to (enter ro evm) evm'" "c_Gas c' \<le> c_Gas c" "length (sl ret) < 2 ^ 62" for ret err c' evm'
    using leave_ok [OF that(1) refl] that(2,3) evm_toD(4) [OF that(1)] en(2,3) by (simp add: run_to_def)
  show "\<exists>r. Run (Suc n) c input ro evm = Some r \<and> run_to ro evm c r"
  proof (cases "length (c_Code c) = 0")
    case True
    then show ?thesis using to [of "enter ro evm" c None None] en(1) by (simp add: Let_def)
  next
    case False
    have "frame_ok ?f" using en e by (intro start_frame_ok) simp_all
    moreover have "2 * f_gas ?f + 1 \<le> n" using e(4) by (simp add: start_frame_def)
    ultimately obtain ret err f where r: "Run_loop n ?f = Some ((ret, err), f)" "exec_to ?f (f_gas ?f) ((ret, err), f)"
      using loop [of ?f] by (metis prod.exhaust)
    then have "evm_to (enter ro evm) (f_evm f)" "c_Gas (f_contract f) \<le> c_Gas c" "length (sl ret) < 2 ^ 62"
      by (simp_all add: exec_to_def start_frame_def word_le_nat_alt)
    from to [OF this, of err] r(1) False show ?thesis by (simp add: Let_def)
  qed
qed

lemma Run_loop_Suc_ok:
  assumes rn: "interp (Run n :: 't run_fn) n" and f: "frame_ok (f :: 't frame)" "2 * f_gas f + 1 \<le> Suc n"
    and loop: "\<And>f' :: 't frame. frame_ok f' \<Longrightarrow> 2 * f_gas f' + 1 \<le> n \<Longrightarrow> \<exists>r. Run_loop n f' = Some r \<and> exec_to f' (f_gas f') r"
  shows "\<exists>r. Run_loop (Suc n) f = Some r \<and> exec_to f (f_gas f) r"
proof (cases "abort (f_evm f)")
  case True
  then show ?thesis using f(1) by (simp add: exec_to_def frame_okD(1))
next
  case False
  have "2 * f_gas f \<le> n" using f(2) by simp
  then obtain out where out: "step (Run n) f = Some out" "step_to f out" using interp.step_ok [OF rn f(1)] by blast
  show ?thesis
  proof (cases out)
    case (Done r f')
    then show ?thesis using False out by (simp add: step_to_def)
  next
    case (Next f')
    then have f': "frame_ok f'" "evm_to (f_evm f) (f_evm f')" "f_gas f' < f_gas f" using out(2) by (simp_all add: step_to_def)
    then obtain r where r: "Run_loop n f' = Some r" "exec_to f' (f_gas f') r" using loop [of f'] f(2) by auto
    have "exec_to f (f_gas f) r"
      using r(2) f'(2,3) evm_to_trans [OF f'(2)] by (auto simp: exec_to_def split: prod.splits)
    then show ?thesis using False out(1) Next r(1) by simp
  qed
qed

lemma Run_and_loop:
  "interp (Run n :: 't run_fn) n \<and> (\<forall>f :: 't frame. frame_ok f \<longrightarrow> 2 * f_gas f + 1 \<le> n \<longrightarrow>
     (\<exists>r. Run_loop n f = Some r \<and> exec_to f (f_gas f) r))"
proof (induction n)
  case 0
  show ?case by (simp add: interp_def)
next
  case (Suc n)
  then show ?case using Run_Suc_ok [of n] Run_loop_Suc_ok [of n] by blast
qed

text \<open>The interpreter meets the contract the calls rely on.\<close>

interpretation Run: interp "Run n :: 't run_fn" n for n
  using Run_and_loop by blast

lemma Run_loop_ok:
  "frame_ok f \<Longrightarrow> 2 * f_gas f + 1 \<le> n \<Longrightarrow> \<exists>r. Run_loop n f = Some r \<and> exec_to f (f_gas f) r"
  using Run_and_loop by blast

end
