(* ===== verification/Transition_Props.thy ===== *)
theory Transition_Props
  imports Machine_Total
begin

text \<open>
  Applying a message: it always returns, no money appears, and what the block's gas pool loses is the gas the
  message used.
\<close>

declare option.case_cong [cong] sum.case_cong [cong]

subsection \<open>Buying gas\<close>

lemma st_db_sel [simp]:
  "st_gp (st_db s st) = st_gp st" "st_msg (st_db s st) = st_msg st" "st_gas (st_db s st) = st_gas st"
  "st_gasPrice (st_db s st) = st_gasPrice st" "st_initialGas (st_db s st) = st_initialGas st"
  "st_value (st_db s st) = st_value st" "st_data (st_db s st) = st_data st" "st_state (st_db s st) = s"
  "st_db s (st_db s' st) = st_db s st"
  by (simp_all add: st_db_def)

lemma evm_to_st_db:
  "evm_ok (st_evm st) \<Longrightarrow> \<not> static (st_evm st) \<Longrightarrow> db_to (st_state st) s \<Longrightarrow> evm_to (st_evm st) (st_evm (st_db s st))"
  unfolding st_db_def by (simp, rule evm_to_db) simp_all

definition bought :: "'t StateTransition \<Rightarrow> 't StateTransition" where
  "bought st = (let l = msg_gasLimit (st_msg st)
     in st\<lparr>st_gp := st_gp st - l, st_gas := st_gas st + l, st_initialGas := l\<rparr>)"

definition gas_value :: "'t StateTransition \<Rightarrow> int" where
  "gas_value st = uint (msg_gasLimit (st_msg st)) * st_gasPrice st"

definition pays :: "'t StateTransition \<Rightarrow> tx_error option \<times> 't StateTransition \<Rightarrow> bool" where
  "pays st r \<longleftrightarrow> (case r of (err, st') \<Rightarrow> \<exists>s. db_to (st_state st) s \<and> (case err of
     Some e \<Rightarrow> st' = st_db s st
   | None \<Rightarrow> st' = st_db s (bought st) \<and> msg_gasLimit (st_msg st) \<le> st_gp st
       \<and> total_balance s + gas_value st \<le> total_balance (st_state st)))"

lemma buyGas_ok:
  assumes "db_ok (st_state st)" "0 \<le> st_gasPrice st"
  shows "pays st (buyGas st)"
proof -
  define a where "a = msg_from (st_msg st)"
  define s where "s = snd (GetBalance a (st_state st))"
  have s: "db_to (st_state st) s" unfolding s_def by (rule db_to_gets [OF assms(1)])
  have b: "fst (GetBalance a s) = fst (GetBalance a (st_state st))"
    using GetBalance_world [OF assms(1) s world_of_gets(2) [OF assms(1), of a, folded s_def]] by simp
  have v: "0 \<le> gas_value st" using assms(2) by (simp add: gas_value_def)
  show ?thesis
  proof (cases "fst (GetBalance a (st_state st)) < gas_value st \<or> st_gp st < msg_gasLimit (st_msg st)")
    case True
    then show ?thesis using s
      by (auto simp: pays_def buyGas_def SubGas_def Let_def case_prod_beta a_def [symmetric] s_def [symmetric] gas_value_def)
  next
    case False
    have "db_to s (SubBalance a (gas_value st) s)" "total_balance (SubBalance a (gas_value st) s) = total_balance s - gas_value st"
      using False v b by (intro db_to_SubBalance [OF db_toD(2) [OF s]]; simp)+
    then show ?thesis using s False db_toD(4) [OF s]
      by (auto simp: pays_def buyGas_def SubGas_def Let_def case_prod_beta a_def [symmetric] s_def [symmetric] gas_value_def
          bought_def st_db_def intro!: exI [of _ "SubBalance a (gas_value st) s"] elim: db_to_trans)
  qed
qed

lemma pays_after:
  assumes "pays (st_db s st) r" "db_to (st_state st) s"
  shows "pays st r"
proof -
  have "bought (st_db s st) = st_db s (bought st)" "gas_value (st_db s st) = gas_value st"
    by (simp_all add: bought_def st_db_def gas_value_def Let_def)
  with assms db_to_trans [OF assms(2)] db_toD(4) [OF assms(2)] show ?thesis
    by (fastforce simp: pays_def split: prod.splits option.splits)
qed

lemma preCheck_ok:
  assumes "db_ok (st_state st)" "0 \<le> st_gasPrice st"
  shows "pays st (preCheck st)"
proof (cases "msg_checkNonce (st_msg st)")
  case False
  then show ?thesis using buyGas_ok [OF assms] by (simp add: preCheck_def)
next
  case True
  define s where "s = snd (GetNonce (msg_from (st_msg st)) (st_state st))"
  have s: "db_to (st_state st) s" unfolding s_def by (rule db_to_gets [OF assms(1)])
  have "pays st (buyGas (st_db s st))"
    by (rule pays_after [OF buyGas_ok s]) (simp_all add: assms(2) db_toD(2) [OF s])
  then show ?thesis using True s by (auto simp: preCheck_def case_prod_beta s_def [symmetric] Let_def pays_def [of st "(Some _, _)"])
qed

text \<open>An error of \<open>preCheck\<close> is never one of the virtual machine.\<close>

lemma preCheck_error: "preCheck st = (Some e, st') \<Longrightarrow> e \<noteq> VmError x"
  by (auto simp: preCheck_def buyGas_def SubGas_def Let_def split: if_splits prod.splits)

subsection \<open>Running the message\<close>

lemma run_message_ok:
  assumes e: "evm_ok (st_evm st)" "\<not> static (st_evm st)" and i: "length (st_data st) < 2 ^ 62" "0 \<le> st_value st"
    and g: "unat (st_gas st) < 2 ^ 45" "2 * unat (st_gas st) + 2 \<le> fuel"
  obtains ret err gas evm where "run_message (Run fuel) st = Some (ret, err, st\<lparr>st_gas := gas, st_evm := evm\<rparr>)"
    "evm_to (st_evm st) evm" "gas \<le> st_gas st"
proof (cases "msg_to (st_msg st)")
  case None
  obtain ret addr gas err evm where r: "Create (Run fuel) (AccountRef (msg_from (st_msg st))) (st_data st) (st_gas st)
      (st_value st) (st_evm st) = Some ((ret, addr, gas, err), evm)" and to: "create_to (st_evm st) (st_gas st) ((ret, addr, gas, err), evm)"
    using Run.Create_ok [OF e i g] by (metis prod.exhaust)
  show ?thesis
    using that [of ret err evm gas] r to None by (simp add: run_message_def Let_def create_to_def)
next
  case (Some dst)
  define a where "a = msg_from (st_msg st)"
  define s where "s = snd (GetNonce a (st_state st))"
  define s1 where "s1 = SetNonce a (fst (GetNonce a (st_state st)) + 1) s"
  have s1: "db_to (st_state st) s1"
    using db_to_gets(4) [OF evm_okD(1) [OF e(1)], of a] db_to_SetNonce db_to_trans db_toD(2)
    unfolding s1_def s_def by blast
  have e1: "evm_to (st_evm st) (st_evm (st_db s1 st))" by (rule evm_to_st_db [OF e s1])
  have "\<not> static (st_evm (st_db s1 st))" using e(2) same_env_static [OF evm_toD(1) [OF e1]] by simp
  then obtain ret gas err evm where r: "Call (Run fuel) (AccountRef a) dst (Some (st_data st)) (st_gas st)
      (st_value st) (st_evm (st_db s1 st)) = Some ((ret, gas, err), evm)"
      and to: "call_to False (st_evm (st_db s1 st)) (st_gas st) ((ret, gas, err), evm)"
    using Run.Call_ok [OF evm_toD(2) [OF e1], where v = "st_value st" and input = "Some (st_data st)", of "st_gas st" fuel "AccountRef a" dst]
      i g by (simp add: sl_def) (metis prod.exhaust)
  have "evm_to (st_evm st) evm" using evm_to_trans [OF e1] to by (simp add: call_to_def)
  then show ?thesis
    using that [of ret err evm gas] r to Some
    by (simp add: run_message_def Let_def case_prod_beta a_def [symmetric] s_def [symmetric] s1_def [symmetric] st_to_def
        call_to_def st_db_def)
qed

lemma refundGas_ok:
  assumes "evm_ok (st_evm st)" "\<not> static (st_evm st)" "0 \<le> st_gasPrice st"
    and g: "st_gas st \<le> st_initialGas st" "unat (st_gp st) + unat (st_initialGas st) < 2 ^ 64"
  obtains gas s where "refundGas st = Some (st_db s (st\<lparr>st_gas := gas, st_gp := st_gp st + gas\<rparr>))"
    "db_ext (st_state st) s" "gas \<le> st_initialGas st" "st_gas st \<le> gas"
    "total_balance s = total_balance (st_state st) + uint gas * st_gasPrice st"
proof -
  define half where "half = gasUsed st div 2"
  define ref where "ref = (if half > GetRefund (st_state st) then GetRefund (st_state st) else half)"
  define gas where "gas = st_gas st + ref"
  have used: "unat (gasUsed st) = unat (st_initialGas st) - unat (st_gas st)" using g(1) by (simp add: gasUsed_def unat_sub)
  have "ref \<le> half" by (auto simp: ref_def)
  then have r: "unat ref \<le> unat (gasUsed st) div 2" by (simp add: half_def word_le_nat_alt unat_div)
  have gas: "unat gas = unat (st_gas st) + unat ref" "unat gas \<le> unat (st_initialGas st)"
    using r used g by (simp_all add: gas_def unat_add_no_wrap word_le_nat_alt)
  have "AddGas (st_gp st) gas = Some (st_gp st + gas)"
    using gas(2) g(2) by (simp add: AddGas_def word_less_nat_alt unat_sub unat_MaxUint64 word_le_nat_alt)
  then have "refundGas st = Some (st_db (AddBalance (msg_from (st_msg st)) (uint gas * st_gasPrice st) (st_state st))
      (st\<lparr>st_gas := gas, st_gp := st_gp st + gas\<rparr>))"
    by (simp add: refundGas_def Let_def half_def [symmetric] ref_def [symmetric] gas_def [symmetric])
  moreover note db_ext_AddBalance [OF evm_okD(1) [OF assms(1)], of "uint gas * st_gasPrice st" "msg_from (st_msg st)"]
  ultimately show ?thesis using that gas assms(3) by (simp add: word_le_nat_alt)
qed

text \<open>Refund and fee together are what the gas cost, so a message leaves no more money than it found.\<close>

definition charged :: "'t StateTransition \<Rightarrow> tx_error + gobytes \<times> u64 \<times> bool \<Rightarrow> 't StateTransition \<Rightarrow> bool" where
  "charged st res st' \<longleftrightarrow> evm_ok (st_evm st')
     \<and> total_balance (st_state st') \<le> total_balance (st_state st) + uint (st_initialGas st) * st_gasPrice st
     \<and> (case res of Inl e \<Rightarrow> (\<exists>x. e = VmError x) \<and> st_gp st' = st_gp st
        | Inr (ret, used, failed) \<Rightarrow> used \<le> st_initialGas st \<and> st_gp st' = st_gp st + (st_initialGas st - used))"

lemma settle_message_ok:
  assumes e: "evm_ok (st_evm st)" "\<not> static (st_evm st)" "0 \<le> st_gasPrice st"
    and g: "st_gas st \<le> st_initialGas st" "unat (st_gp st) + unat (st_initialGas st) < 2 ^ 64"
  shows "\<exists>res st'. settle_message ret vmerr st = Some (res, st') \<and> charged st res st'"
proof (cases "vmerr = Some ErrInsufficientBalance")
  case True
  then show ?thesis using e by (simp add: settle_message_def charged_def)
next
  case False
  obtain gas s where r: "refundGas st = Some (st_db s (st\<lparr>st_gas := gas, st_gp := st_gp st + gas\<rparr>))"
    "db_ext (st_state st) s" "gas \<le> st_initialGas st" "total_balance s = total_balance (st_state st) + uint gas * st_gasPrice st"
    by (rule refundGas_ok [OF assms])
  let ?st = "st_db s (st\<lparr>st_gas := gas, st_gp := st_gp st + gas\<rparr>)" and ?u = "st_initialGas st - gas"
  let ?a = "Coinbase (evm_Context (st_evm st))"
  have u: "gasUsed ?st = ?u" "?u \<le> st_initialGas st"
    using r(3) by (simp_all add: gasUsed_def st_db_def word_le_nat_alt unat_sub)
  have ub: "uint ?u = uint (st_initialGas st) - uint gas" using r(3) by (simp add: uint_minus_simple_alt)
  note ab = db_ext_AddBalance [OF db_extD(2) [OF r(2)], of "uint ?u * st_gasPrice st" ?a]
  have "uint gas * st_gasPrice st + uint ?u * st_gasPrice st = uint (st_initialGas st) * st_gasPrice st"
    unfolding ub by (simp add: algebra_simps)
  then have "total_balance (AddBalance ?a (uint ?u * st_gasPrice st) s)
      = total_balance (st_state st) + uint (st_initialGas st) * st_gasPrice st"
    using ab(2) r(4) e(3) by simp
  moreover have "evm_ok (st_evm (st_db (AddBalance ?a (uint ?u * st_gasPrice st) s) ?st))"
    using evm_ok_db [OF e(1) db_extD(2,3) [OF db_ext_trans [OF r(2) ab(1)]]] e(3) by (simp add: st_db_def)
  ultimately show ?thesis
    using False r(1) u by (simp add: settle_message_def charged_def st_db_def gasUsed_def)
qed

text \<open>What follows the purchase of the gas.\<close>

lemma paid_ok:
  assumes e: "evm_ok (st_evm st)" "\<not> static (st_evm st)" "0 \<le> st_gasPrice st" "length (st_data st) < 2 ^ 62" "0 \<le> st_value st"
    and g: "st_gas st = st_initialGas st" "unat (st_gp st) + unat (st_initialGas st) < 2 ^ 64" "unat (st_initialGas st) < 2 ^ 45"
      "2 * unat (st_initialGas st) + 2 \<le> fuel"
    and u: "useGas ig st = Inr st2"
  shows "\<exists>ret vmerr st3 res st'. run_message (Run fuel) st2 = Some (ret, vmerr, st3) \<and> settle_message ret vmerr st3 = Some (res, st')
    \<and> charged st res st'"
proof -
  have st2: "st2 = st\<lparr>st_gas := st_gas st - ig\<rparr>" "\<not> st_gas st < ig" using u by (simp_all add: useGas_def split: if_splits)
  have gas2: "st_gas st2 \<le> st_initialGas st" using st2 g(1) by (simp add: word_le_nat_alt unat_sub not_less)
  then have g2: "unat (st_gas st2) < 2 ^ 45" "2 * unat (st_gas st2) + 2 \<le> fuel" using g(3,4) by (simp_all add: word_le_nat_alt)
  have e2: "evm_ok (st_evm st2)" "\<not> static (st_evm st2)" "length (st_data st2) < 2 ^ 62" "0 \<le> st_value st2"
    using e st2 by simp_all
  obtain ret vmerr gas evm3 where run: "run_message (Run fuel) st2 = Some (ret, vmerr, st2\<lparr>st_gas := gas, st_evm := evm3\<rparr>)"
    and e3: "evm_to (st_evm st2) evm3" and gas: "gas \<le> st_gas st2"
    by (rule run_message_ok [OF e2 g2])
  define st3 where "st3 = st2\<lparr>st_gas := gas, st_evm := evm3\<rparr>"
  have st3: "evm_ok (st_evm st3)" "\<not> static (st_evm st3)" "0 \<le> st_gasPrice st3" "st_gas st3 \<le> st_initialGas st3"
    "unat (st_gp st3) + unat (st_initialGas st3) < 2 ^ 64"
    using evm_toD(2) [OF e3] same_env_static [OF evm_toD(1) [OF e3]] e2(2) gas gas2 e(3) g(2) by (simp_all add: st3_def st2(1))
  obtain res st' where s: "settle_message ret vmerr st3 = Some (res, st')" "charged st3 res st'"
    using settle_message_ok [OF st3] by blast
  have "charged st res st'"
    using s(2) db_toD(4) [OF evm_toD(3) [OF e3]] by (auto simp: charged_def st3_def st2(1) split: sum.splits)
  then show ?thesis using run s(1) by (auto simp: st3_def)
qed

lemma TransitionDb_ok:
  assumes e: "evm_ok evm" "\<not> static evm"
    and m: "0 \<le> msg_amount msg" "0 \<le> msg_gasPrice msg" "length (msg_data msg) < 2 ^ 62" "unat (msg_gasLimit msg) < 2 ^ 45"
    and fuel: "2 * unat (msg_gasLimit msg) + 2 \<le> fuel"
  obtains res st where "TransitionDb (Run fuel) (NewStateTransition evm msg gp) = Some (res, st)" "evm_ok (st_evm st)"
    "total_balance (st_state st) \<le> total_balance (evm_StateDB evm)"
    "\<And>ret used failed. res = Inr (ret, used, failed) \<Longrightarrow>
       used \<le> msg_gasLimit msg \<and> msg_gasLimit msg \<le> gp \<and> st_gp st = gp - used"
    "\<And>e. res = Inl e \<Longrightarrow> (if \<exists>x. e = VmError x then msg_gasLimit msg \<le> gp \<and> st_gp st = gp - msg_gasLimit msg else st_gp st = gp)"
proof -
  define st0 where "st0 = NewStateTransition evm msg gp"
  define l where "l = msg_gasLimit msg"
  have st0: "st_evm st0 = evm" "st_msg st0 = msg" "st_gas st0 = 0" "st_gp st0 = gp" "st_gasPrice st0 = msg_gasPrice msg"
    "st_data st0 = msg_data msg" "st_value st0 = msg_amount msg"
    by (simp_all add: st0_def NewStateTransition_def)
  obtain err st1 where pre: "preCheck st0 = (err, st1)" by force
  have "pays st0 (err, st1)" using preCheck_ok [of st0] pre st0 evm_okD(1) [OF e(1)] m(2) by simp
  then obtain s where s: "db_to (evm_StateDB evm) s" "case err of
     Some e \<Rightarrow> st1 = st_db s st0
   | None \<Rightarrow> st1 = st_db s (bought st0) \<and> l \<le> gp \<and> total_balance s + gas_value st0 \<le> total_balance (evm_StateDB evm)"
    by (auto simp: pays_def st0 l_def)
  have e1: "evm_to evm (st_evm st1)"
    using s e evm_to_st_db [of st0 s] evm_to_st_db [of "bought st0" s] st0 by (auto simp: bought_def Let_def split: option.splits)
  have tot1: "st_state st1 = s" using s(2) by (auto split: option.splits)
  note result = that
  have stop: thesis if "TransitionDb (Run fuel) st0 = Some (Inl x, st1)"
      "if \<exists>y. x = VmError y then l \<le> gp \<and> st_gp st1 = gp - l else st_gp st1 = gp" for x
    using result [of "Inl x" st1] that [unfolded l_def] evm_toD(2) [OF e1] db_toD(4) [OF s(1)] tot1 by (simp add: st0_def)
  show ?thesis
  proof (cases err)
    case (Some x)
    then have "st_gp st1 = gp" using s(2) st0 by simp
    then show ?thesis using stop [of x] pre preCheck_error [of st0 x st1] Some by (simp add: TransitionDb_def)
  next
    case None
    note s = s(1) s(2) [unfolded None, simplified]
    have st1: "st_gas st1 = l" "st_gp st1 = gp - l" "st_initialGas st1 = l" "st_gasPrice st1 = msg_gasPrice msg"
        "st_data st1 = msg_data msg" "st_value st1 = msg_amount msg"
      using s st0 by (simp_all add: bought_def Let_def l_def)
    have le: "l \<le> gp" "total_balance s + uint l * msg_gasPrice msg \<le> total_balance (evm_StateDB evm)"
      using s(2) by (simp_all add: gas_value_def st0 l_def)
    define ig where "ig = IntrinsicGas (st_data st1) (msg_to (st_msg st1) = None) (IsHomestead (chainConfig (st_evm st1)) (blockNum (st_evm st1)))"
    note tdb = TransitionDb_def [of "Run fuel" st0, unfolded pre Let_def prod.case None option.case, folded ig_def]
    show ?thesis
    proof (cases ig; cases "case ig of Inl _ \<Rightarrow> Inl undefined | Inr g \<Rightarrow> useGas g st1")
      fix g st2
      assume ig: "ig = Inr g" and "(case ig of Inl _ \<Rightarrow> Inl undefined | Inr g \<Rightarrow> useGas g st1) = Inr st2"
      then have use: "useGas g st1 = Inr st2" by simp
      have "unat (st_gp st1) + unat (st_initialGas st1) < 2 ^ 64"
        using le(1) unat_u64_lt [of gp] unfolding st1 by (simp add: word_le_nat_alt unat_sub)
      moreover have "\<not> static (st_evm st1)" using e(2) same_env_static [OF evm_toD(1) [OF e1]] by simp
      ultimately obtain ret vmerr st3 res st' where r: "run_message (Run fuel) st2 = Some (ret, vmerr, st3)"
          "settle_message ret vmerr st3 = Some (res, st')" "charged st1 res st'"
        using paid_ok [OF evm_toD(2) [OF e1] _ _ _ _ _ _ _ _ use, of fuel] m fuel by (auto simp: st1 l_def)
      have "TransitionDb (Run fuel) st0 = Some (res, st')" using tdb ig use r(1,2) by simp
      moreover have "total_balance (st_state st') \<le> total_balance (evm_StateDB evm)"
        using r(3) [unfolded charged_def st1 tot1] le(2) by simp
      ultimately show ?thesis
        using result [of res st'] r(3) [unfolded charged_def st1 tot1] le(1) by (cases res) (auto simp: st0_def [symmetric] l_def)
    qed (use stop [OF _ _] tdb st1(2) le(1) in \<open>auto simp: useGas_def split: if_splits sum.splits\<close>)
  qed
qed

end
