(* ===== verification/EVM_Theorems.thy ===== *)
theory EVM_Theorems
  imports Transition_Props
begin

text \<open>
  What the machine promises: the interpreter, the calls and a whole transaction return, within the gas they
  were given, and keep the invariants of the database.
\<close>

subsection \<open>A machine to start from\<close>

text \<open>The machine that \<open>NewEVM\<close> builds for a block before Constantinople is a good one.\<close>

lemma NewEVM_ok:
  assumes "NewEVM ctx db config vmcfg cr = Some evm" "db_ok db" "hash_ok (keccak256 (sdb_db db))" "crypto_ok cr"
    "\<not> IsConstantinople config (Some (BlockNumber ctx))" "CanTransfer ctx = kernel_CanTransfer" "Transfer ctx = kernel_Transfer"
    "0 \<le> GasPrice ctx"
  shows "evm_ok evm" "\<not> static evm"
  using assms
  by (auto simp: NewEVM_def evm_ok_def env_ok_def evm_keccak_def blockNum_def static_def jumps_ok_def split: if_splits)

definition demo_crypto :: crypto where
  "demo_crypto =
     \<lparr>Ecrecover = (\<lambda>h sig. Inr (4 # take 64 sig)), sha256_Sum = (\<lambda>x. replicate 32 (of_nat (length x))),
      ripemd160_Sum = (\<lambda>x. replicate 20 (of_nat (length x))), G1_Unmarshal = (\<lambda>x. Inr (take 64 x)), G1_Add = (\<lambda>x y. x),
      G1_ScalarMult = (\<lambda>x k. x), G1_Marshal = (\<lambda>x. take 64 x), G2_Unmarshal = (\<lambda>x. Inr (take 128 x)),
      PairingCheck = (\<lambda>xs ys. xs = ys)\<rparr>"

definition demo_config :: ChainConfig where
  "demo_config = \<lparr>ChainID = Some 1, HomesteadBlock = Some 0, DAOForkBlock = None, DAOForkSupport = False,
     EIP150Block = Some 0, EIP155Block = Some 0, EIP158Block = Some 0, ByzantiumBlock = Some 0,
     ConstantinopleBlock = None, EWASMBlock = None\<rparr>"

definition demo_context :: "(bytes \<Rightarrow> bytes) Context" where
  "demo_context = \<lparr>CanTransfer = kernel_CanTransfer, Transfer = kernel_Transfer, GetHash = (\<lambda>n. 0), Origin = 1, GasPrice = 1,
     Coinbase = 9, GasLimit = 10000000, BlockNumber = 5, ctx_Time = 100, Difficulty = 17\<rparr>"

definition demo_db :: "(bytes \<Rightarrow> bytes) StateDB" where
  "demo_db = SetCode 2 (Some [0x60, 1, 0x60, 2, 0x55, 0]) (AddBalance 1 1000000 demo_state)"

definition demo_evm :: "(bytes \<Rightarrow> bytes) EVM" where
  "demo_evm = the (NewEVM demo_context demo_db demo_config \<lparr>NoRecursion = False, EnablePreimageRecording = False\<rparr> demo_crypto)"

lemma demo_db_ok: "db_ok demo_db" "sdb_db demo_db = demo_host"
proof -
  have "accounts (world_of demo_state) a = None" for a
    by (simp add: find_obj_def load_obj_def demo_state_eq demo_host_def)
  then have db: "db_ok demo_state" by (simp add: db_ok_def demo_state_ok world_ok_def del: world_of_sel)
  have s: "db_ext demo_state (AddBalance 1 1000000 demo_state)" by (rule db_ext_AddBalance [OF db]) simp
  have "db_to (AddBalance 1 1000000 demo_state) demo_db"
    unfolding demo_db_def by (rule db_to_SetCode [OF db_extD(2) [OF s]]) (simp add: sl_def)
  from db_toD(2,3) [OF this] db_extD(3) [OF s] show "db_ok demo_db" "sdb_db demo_db = demo_host"
    by (simp_all add: demo_state_eq)
qed

lemma demo_evm_ok: "evm_ok demo_evm" "\<not> static demo_evm"
proof -
  have "hash_ok (keccak256 demo_host)"
    by (auto simp: hash_ok_def demo_host_def dest!: arg_cong [where f = unat] simp: unsigned_of_nat take_bit_nat_eq_self)
  then have h: "hash_ok (keccak256 (sdb_db demo_db))" by (simp add: demo_db_ok)
  have c: "crypto_ok demo_crypto" by (simp add: crypto_ok_def demo_crypto_def min_def)
  have "NewEVM demo_context demo_db demo_config \<lparr>NoRecursion = False, EnablePreimageRecording = False\<rparr> demo_crypto = Some demo_evm"
    by (simp add: demo_evm_def NewEVM_def demo_config_def IsEWASM_def isForked_def)
  from NewEVM_ok [OF this demo_db_ok(1) h c] show "evm_ok demo_evm" "\<not> static demo_evm"
    by (simp_all add: demo_config_def demo_context_def IsConstantinople_def isForked_def)
qed

subsection \<open>Frames of a run\<close>

text \<open>\<open>steps rn n f f'\<close>: \<open>n\<close> rounds of the loop lead from \<open>f\<close> to \<open>f'\<close>.\<close>

inductive steps :: "'t run_fn \<Rightarrow> nat \<Rightarrow> 't frame \<Rightarrow> 't frame \<Rightarrow> bool" for rn where
  steps_0: "steps rn 0 f f"
| steps_Suc: "steps rn n f f1 \<Longrightarrow> step rn f1 = Some (Next f2) \<Longrightarrow> steps rn (Suc n) f f2"

lemma steps_ok:
  assumes "steps (Run fuel) n f f'" "frame_ok f" "2 * f_gas f \<le> fuel"
  shows "frame_ok f' \<and> evm_to (f_evm f) (f_evm f') \<and> f_gas f' + n \<le> f_gas f"
  using assms
proof (induction rule: steps.induct)
  case (steps_0 f)
  then show ?case by (simp add: frame_okD(1))
next
  case (steps_Suc n f f1 f2)
  then have f1: "frame_ok f1" "evm_to (f_evm f) (f_evm f1)" "f_gas f1 + n \<le> f_gas f" by simp_all
  have "step_to f1 (Next f2)" using Run.step_ok [OF f1(1), of fuel] f1(3) steps_Suc by auto
  then show ?case using f1 evm_to_trans [OF f1(2)] by (auto simp: step_to_def)
qed

subsection \<open>Properties\<close>













end
