(* ===== verification/Trie_Encoding.thy ===== *)
theory Trie_Encoding
  imports Prelude
begin

text \<open>
  \<open>src/lib/trie/encoding.go\<close>: the three forms of a trie key. A key is a string of bytes; in the trie it is a
  string of nibbles with the terminator 16; in the database it is the compact form, where a flag nibble tells
  whether the number of nibbles is odd and whether there was a terminator.
\<close>

unbundle bit_operations_syntax

definition hasTerm :: "bytes \<Rightarrow> bool" where
  "hasTerm s = (length s > 0 \<and> s ! (length s - 1) = 16)"

text \<open>Writes into the buffer that it is given; an odd number of nibbles and a short buffer panic.\<close>

fun decodeNibbles :: "bytes \<Rightarrow> bytes \<Rightarrow> bytes option" where
  "decodeNibbles [] buf = Some buf"
| "decodeNibbles [_] buf = None"
| "decodeNibbles (x # y # nibbles) [] = None"
| "decodeNibbles (x # y # nibbles) (_ # buf) =
     map_option ((#) (push_bit 4 x OR y)) (decodeNibbles nibbles buf)"

definition hexToCompact :: "bytes \<Rightarrow> bytes option" where
  "hexToCompact hex =
     (let terminator = (if hasTerm hex then 1 else 0);
          hex = (if hasTerm hex then take (length hex - 1) hex else hex);
          buf = replicate (length hex div 2) 0;
          b0 = push_bit 5 terminator;
          (b0, hex) = (if odd (length hex) then (b0 OR push_bit 4 1 OR hex ! 0, drop 1 hex) else (b0, hex))
      in map_option ((#) b0) (decodeNibbles hex buf))"

definition keybytesToHex :: "bytes \<Rightarrow> bytes" where
  "keybytesToHex str = concat (map (\<lambda>b. [b div 16, b mod 16]) str) @ [16]"

text \<open>The result is \<open>None\<close> when the final slice is out of range, which is the case for the empty string.\<close>

definition compactToHex :: "bytes \<Rightarrow> bytes option" where
  "compactToHex compact =
     (let base = keybytesToHex compact;
          base = (if base ! 0 < 2 then take (length base - 1) base else base);
          chop = unat (2 - (base ! 0 AND 1))
      in if chop > length base then None else Some (drop chop base))"

definition hexToKeybytes :: "bytes \<Rightarrow> bytes option" where
  "hexToKeybytes hex =
     (let hex = (if hasTerm hex then take (length hex - 1) hex else hex)
      in if odd (length hex) then None else decodeNibbles hex (replicate (length hex div 2) 0))"

fun prefixLen :: "bytes \<Rightarrow> bytes \<Rightarrow> nat" where
  "prefixLen (x # a) (y # b) = (if x = y then Suc (prefixLen a b) else 0)"
| "prefixLen _ _ = 0"

subsection \<open>Nibbles\<close>

definition nibs :: "bytes \<Rightarrow> bool" where
  "nibs k \<longleftrightarrow> (\<forall>x \<in> set k. x < 16)"

fun pack :: "bytes \<Rightarrow> bytes" where
  "pack (x # y # ns) = (push_bit 4 x OR y) # pack ns"
| "pack _ = []"

lemma nibs_simps [simp]: "nibs []" "nibs (x # k) \<longleftrightarrow> x < 16 \<and> nibs k" "nibs (a @ b) \<longleftrightarrow> nibs a \<and> nibs b"
  by (auto simp: nibs_def)

lemma nibble_bits: "x < 16 \<Longrightarrow> take_bit 4 x = (x :: byte)"
  by (simp add: take_bit_eq_mod word_unat_eq_iff unat_mod word_less_nat_alt)

lemma nibble_parts:
  assumes "x < 16" "y < 16"
  shows "(push_bit 4 x OR y :: byte) div 16 = x" "(push_bit 4 x OR y) mod 16 = y"
proof -
  have "drop_bit 4 (push_bit 4 (take_bit 4 x) OR take_bit 4 y) = take_bit 4 x"
    by (rule bit_word_eqI) (auto simp: bit_simps)
  moreover have "take_bit 4 (push_bit 4 x OR take_bit 4 y) = take_bit 4 y"
    by (rule bit_word_eqI) (auto simp: bit_simps)
  ultimately show "(push_bit 4 x OR y) div 16 = x" "(push_bit 4 x OR y) mod 16 = y"
    using nibble_bits [OF assms(1)] nibble_bits [OF assms(2)] by (simp_all add: drop_bit_eq_div take_bit_eq_mod)
qed

lemma byte_parts: "push_bit 4 (b div 16) OR (b mod 16) = (b :: byte)" "b div 16 < 16" "b mod 16 < (16 :: byte)"
proof -
  have "push_bit 4 (drop_bit 4 b) OR take_bit 4 b = b" by (rule bit_word_eqI) (auto simp: bit_simps)
  then show "push_bit 4 (b div 16) OR (b mod 16) = b" by (simp add: drop_bit_eq_div take_bit_eq_mod)
  show "b div 16 < 16" "b mod 16 < 16" using unat_byte_lt [of b] by (auto simp: word_less_nat_alt unat_div unat_mod)
qed

lemma decodeNibbles_eq: "even (length ns) \<Longrightarrow> decodeNibbles ns (replicate (length ns div 2) z) = Some (pack ns)"
  by (induction ns rule: pack.induct) auto

lemma unpack_pack: "even (length ns) \<Longrightarrow> nibs ns \<Longrightarrow> concat (map (\<lambda>b. [b div 16, b mod 16]) (pack ns)) = ns"
  by (induction ns rule: pack.induct) (auto simp: nibble_parts)

lemma pack_unpack: "pack (concat (map (\<lambda>b. [b div 16, b mod 16]) str)) = str"
  by (induction str) (simp_all add: byte_parts)

lemma unpack_nibs: "nibs (concat (map (\<lambda>b. [b div 16, b mod 16]) str))" "even (length (concat (map (\<lambda>b. [b div 16, b mod 16]) str)))"
  by (induction str) (simp_all add: byte_parts)

text \<open>A key in the trie: nibbles, with the terminator behind them or not.\<close>

definition term_of :: "bool \<Rightarrow> bytes" where
  "term_of t = (if t then [16] else [])"

lemma hasTerm_term: "nibs ns \<Longrightarrow> hasTerm (ns @ term_of t) = t"
  by (cases ns rule: rev_cases) (auto simp: hasTerm_def term_of_def nth_append)

lemma hexToCompact_eq:
  assumes "nibs ns"
  shows "hexToCompact (ns @ term_of t) = Some ((push_bit 5 (of_bool t) OR (if odd (length ns) then push_bit 4 1 OR ns ! 0 else 0))
    # pack (if odd (length ns) then tl ns else ns))"
proof -
  have h: "(if hasTerm (ns @ term_of t) then take (length (ns @ term_of t) - 1) (ns @ term_of t) else ns @ term_of t) = ns"
    by (simp add: hasTerm_term [OF assms]) (simp add: term_of_def)
  have d: "length ns div 2 = length (tl ns) div 2" "even (length (tl ns))" if "odd (length ns)" using that by (cases ns; simp)+
  show ?thesis
    unfolding hexToCompact_def Let_def h
    using d decodeNibbles_eq [of ns 0] decodeNibbles_eq [of "tl ns" 0]
    by (simp add: hasTerm_term [OF assms] drop_Suc)
qed

lemma compactToHex_eq:
  assumes "b0 = push_bit 4 x OR y" "x = of_bool o' + 2 * of_bool t" "y < 16" "even (length ns)" "nibs ns"
  shows "compactToHex (b0 # pack ns) = Some ((if o' then [y] else []) @ ns @ term_of t)"
proof -
  have x: "x < 16" using assms(2) by (cases o'; cases t) simp_all
  have b: "keybytesToHex (b0 # pack ns) = x # y # ns @ [16]"
    using nibble_parts [OF x assms(3)] unpack_pack [OF assms(4,5)] by (simp add: keybytesToHex_def assms(1))
  show ?thesis
    unfolding compactToHex_def Let_def b using assms(2) by (cases o'; cases t) (simp_all add: term_of_def)
qed

lemma compact_roundtrip:
  assumes "nibs ns"
  shows "\<exists>c. hexToCompact (ns @ term_of t) = Some c \<and> compactToHex c = Some (ns @ term_of t)"
proof (cases "odd (length ns)")
  case True
  then obtain n ms where ns: "ns = n # ms" by (cases ns) auto
  have f: "push_bit 5 (of_bool t) OR (push_bit 4 1 OR n) = push_bit 4 (of_bool True + 2 * of_bool t) OR (n :: byte)"
    by (cases t) (simp_all flip: or.assoc)
  show ?thesis
    using compactToHex_eq [OF f refl, of ms] hexToCompact_eq [OF assms, of t] True assms by (simp add: ns)
next
  case False
  have f: "push_bit 5 (of_bool t) = push_bit 4 (of_bool False + 2 * of_bool t) OR (0 :: byte)" by (cases t) simp_all
  show ?thesis
    using compactToHex_eq [OF f refl, of ns] hexToCompact_eq [OF assms, of t] False assms by simp
qed

lemma keybytesToHex_split: "\<exists>ns. keybytesToHex str = ns @ [16] \<and> nibs ns \<and> length ns = 2 * length str"
proof -
  have "length (concat (map (\<lambda>b. [b div 16, b mod 16]) str)) = 2 * length str" by (induction str) simp_all
  then show ?thesis unfolding keybytesToHex_def using unpack_nibs(1) [of str] by blast
qed

lemma keybytes_roundtrip: "hexToKeybytes (keybytesToHex str) = Some str"
proof -
  have "hasTerm (keybytesToHex str)" by (simp add: hasTerm_def keybytesToHex_def nth_append)
  then show ?thesis
    using decodeNibbles_eq [of "concat (map (\<lambda>b. [b div 16, b mod 16]) str)" 0] unpack_nibs(2) [of str]
    by (simp add: hexToKeybytes_def Let_def) (simp add: keybytesToHex_def pack_unpack)
qed

lemma keybytesToHex_inject: "keybytesToHex a = keybytesToHex b \<longleftrightarrow> a = b"
  using keybytes_roundtrip by (metis option.inject)

text \<open>The longest common prefix.\<close>

lemma prefixLen_take: "take (prefixLen a b) a = take (prefixLen a b) b"
  by (induction a b rule: prefixLen.induct) auto

lemma prefixLen_le: "prefixLen a b \<le> length a" "prefixLen a b \<le> length b"
  by (induction a b rule: prefixLen.induct) auto

lemma prefixLen_diff: "prefixLen a b < length a \<Longrightarrow> prefixLen a b < length b \<Longrightarrow> a ! prefixLen a b \<noteq> b ! prefixLen a b"
  by (induction a b rule: prefixLen.induct) (auto split: if_splits)

end
