(* ===== verification/Trie.thy ===== *)
theory Trie
  imports Trie_Encoding BigMath
begin

text \<open>
  \<open>src/lib/trie/trie.go\<close> and the nodes of \<open>node.go\<close>: the Merkle Patricia trie. \<open>resolver\<close> is what the trie calls
  of its database, \<open>Database.node\<close>: the node with a hash, or nil. The recursive functions take fuel, since
  nodes that point at each other by hash could send them in circles; a trie that is complete to depth \<open>d\<close>
  needs no more than \<open>d + 1\<close>.
\<close>

subsection \<open>node.go\<close>

record nodeFlag =
  nf_hash :: "bytes option"
  nf_gen :: "16 word"
  nf_dirty :: bool

datatype node =
    nilNode
  | fullNode "node list" nodeFlag
  | shortNode bytes node nodeFlag
  | hashNode bytes
  | valueNode bytes

datatype trie_error = MissingNodeError hash bytes

type_synonym resolver = "hash \<Rightarrow> 16 word \<Rightarrow> node option option"

subsection \<open>trie.go\<close>

record Trie =
  t_db :: resolver
  t_root :: node
  cachegen :: "16 word"
  cachelimit :: "16 word"

definition newFlag :: "16 word \<Rightarrow> nodeFlag" where
  "newFlag gen = \<lparr>nf_hash = None, nf_gen = gen, nf_dirty = True\<rparr>"

definition resolveHash :: "resolver \<Rightarrow> 16 word \<Rightarrow> bytes \<Rightarrow> bytes \<Rightarrow> (trie_error + node) option" where
  "resolveHash db gen n pfx = do {
     r \<leftarrow> db (BytesToHash n) gen;
     Some (case r of Some nd \<Rightarrow> Inr nd | None \<Rightarrow> Inl (MissingNodeError (BytesToHash n) pfx)) }"

definition resolve :: "resolver \<Rightarrow> 16 word \<Rightarrow> node \<Rightarrow> bytes \<Rightarrow> (trie_error + node) option" where
  "resolve db gen n pfx = (case n of hashNode h \<Rightarrow> resolveHash db gen h pfx | _ \<Rightarrow> Some (Inr n))"

definition map_res :: "('a \<Rightarrow> 'b) \<Rightarrow> ('e + 'a) option \<Rightarrow> ('e + 'b) option" where
  "map_res f = map_option (map_sum id f)"

definition bind_res :: "('e + 'a) option \<Rightarrow> ('a \<Rightarrow> ('e + 'b) option) \<Rightarrow> ('e + 'b) option" where
  "bind_res m f = do { r \<leftarrow> m; case r of Inl e \<Rightarrow> Some (Inl e) | Inr x \<Rightarrow> f x }"

text \<open>The value, the node with the children that were loaded, and whether any was.\<close>

fun tryGet :: "resolver \<Rightarrow> 16 word \<Rightarrow> nat \<Rightarrow> node \<Rightarrow> bytes \<Rightarrow> nat \<Rightarrow>
    (trie_error + bytes option \<times> node \<times> bool) option" where
  "tryGet db gen 0 n key pos = None"
| "tryGet db gen (Suc k) n key pos =
     (case n of
        nilNode \<Rightarrow> Some (Inr (None, nilNode, False))
      | valueNode v \<Rightarrow> Some (Inr (Some v, n, False))
      | shortNode nk val fl \<Rightarrow>
          if length key < pos + length nk \<or> nk \<noteq> take (length nk) (drop pos key)
          then Some (Inr (None, n, False))
          else map_res (\<lambda>(v, nn, didResolve).
                 (v, if didResolve then shortNode nk nn (fl\<lparr>nf_gen := gen\<rparr>) else n, didResolve))
               (tryGet db gen k val key (pos + length nk))
      | fullNode ch fl \<Rightarrow>
          if pos \<ge> length key \<or> unat (key ! pos) \<ge> length ch then None
          else let i = unat (key ! pos)
               in map_res (\<lambda>(v, nn, didResolve).
                    (v, if didResolve then fullNode (ch[i := nn]) (fl\<lparr>nf_gen := gen\<rparr>) else n, didResolve))
                  (tryGet db gen k (ch ! i) key (pos + 1))
      | hashNode h \<Rightarrow>
          bind_res (resolveHash db gen h (take pos key)) (\<lambda>child.
            map_res (\<lambda>(v, nn, _). (v, nn, True)) (tryGet db gen k child key pos)))"

text \<open>Whether anything changed, and the node; \<open>value\<close> is a value node, or the old child when a short node splits.\<close>

fun t_insert :: "resolver \<Rightarrow> 16 word \<Rightarrow> nat \<Rightarrow> node \<Rightarrow> bytes \<Rightarrow> bytes \<Rightarrow> node \<Rightarrow>
    (trie_error + bool \<times> node) option" where
  "t_insert db gen 0 n pfx key v = None"
| "t_insert db gen (Suc k) n pfx key v =
     (if key = [] then
        (case n of
           valueNode old \<Rightarrow> (case v of valueNode new \<Rightarrow> Some (Inr (old \<noteq> new, v)) | _ \<Rightarrow> None)
         | _ \<Rightarrow> Some (Inr (True, v)))
      else case n of
        shortNode nk val fl \<Rightarrow>
          let matchlen = prefixLen key nk
          in if matchlen = length nk then
               map_res (\<lambda>(dirty, nn). if \<not> dirty then (False, n) else (True, shortNode nk nn (newFlag gen)))
                 (t_insert db gen k val (pfx @ take matchlen key) (drop matchlen key) v)
             else
               bind_res (t_insert db gen k nilNode (pfx @ take (matchlen + 1) nk) (drop (matchlen + 1) nk) val) (\<lambda>(_, c1).
               if matchlen \<ge> length key \<or> unat (nk ! matchlen) \<ge> 17 \<or> unat (key ! matchlen) \<ge> 17 then None
               else map_res (\<lambda>(_, c2).
                      let branch = fullNode ((replicate 17 nilNode)[unat (nk ! matchlen) := c1, unat (key ! matchlen) := c2]) (newFlag gen)
                      in (True, if matchlen = 0 then branch else shortNode (take matchlen key) branch (newFlag gen)))
                    (t_insert db gen k nilNode (pfx @ take (matchlen + 1) key) (drop (matchlen + 1) key) v))
      | fullNode ch fl \<Rightarrow>
          let i = unat (key ! 0)
          in if i \<ge> length ch then None
             else map_res (\<lambda>(dirty, nn). if \<not> dirty then (False, n) else (True, fullNode (ch[i := nn]) (newFlag gen)))
                    (t_insert db gen k (ch ! i) (pfx @ [key ! 0]) (drop 1 key) v)
      | nilNode \<Rightarrow> Some (Inr (True, shortNode key v (newFlag gen)))
      | hashNode h \<Rightarrow>
          bind_res (resolveHash db gen h pfx) (\<lambda>rn.
            map_res (\<lambda>(dirty, nn). if \<not> dirty then (False, rn) else (True, nn)) (t_insert db gen k rn pfx key v))
      | valueNode _ \<Rightarrow> None)"

text \<open>The position of the only child that is not nil, \<open>-1\<close> when there is none and \<open>-2\<close> when there are more.\<close>

fun only_child :: "nat \<Rightarrow> int \<Rightarrow> node list \<Rightarrow> int" where
  "only_child i pos [] = pos"
| "only_child i pos (cld # ch) =
     (if cld \<noteq> nilNode then (if pos = -1 then only_child (i + 1) (int i) ch else -2) else only_child (i + 1) pos ch)"

fun t_delete :: "resolver \<Rightarrow> 16 word \<Rightarrow> nat \<Rightarrow> node \<Rightarrow> bytes \<Rightarrow> bytes \<Rightarrow>
    (trie_error + bool \<times> node) option" where
  "t_delete db gen 0 n pfx key = None"
| "t_delete db gen (Suc k) n pfx key =
     (case n of
        shortNode nk val fl \<Rightarrow>
          let matchlen = prefixLen key nk
          in if matchlen < length nk then Some (Inr (False, n))
             else if matchlen = length key then Some (Inr (True, nilNode))
             else map_res (\<lambda>(dirty, child).
                    if \<not> dirty then (False, n)
                    else (True, case child of
                       shortNode ck cval _ \<Rightarrow> shortNode (nk @ ck) cval (newFlag gen)
                     | _ \<Rightarrow> shortNode nk child (newFlag gen)))
                  (t_delete db gen k val (pfx @ take (length nk) key) (drop (length nk) key))
      | fullNode ch fl \<Rightarrow>
          if key = [] \<or> unat (key ! 0) \<ge> length ch then None
          else let i = unat (key ! 0)
               in bind_res (t_delete db gen k (ch ! i) (pfx @ [key ! 0]) (drop 1 key)) (\<lambda>(dirty, nn).
                  if \<not> dirty then Some (Inr (False, n))
                  else
                    let ch' = ch[i := nn]; pos = only_child 0 (-1) ch'
                    in if pos < 0 then Some (Inr (True, fullNode ch' (newFlag gen)))
                       else if pos = 16 then Some (Inr (True, shortNode [of_int pos] (ch' ! nat pos) (newFlag gen)))
                       else map_res (\<lambda>cnode. (True, case cnode of
                                shortNode ck cval _ \<Rightarrow> shortNode (of_int pos # ck) cval (newFlag gen)
                              | _ \<Rightarrow> shortNode [of_int pos] (ch' ! nat pos) (newFlag gen)))
                            (resolve db gen (ch' ! nat pos) pfx))
      | valueNode _ \<Rightarrow> Some (Inr (True, nilNode))
      | nilNode \<Rightarrow> Some (Inr (False, nilNode))
      | hashNode h \<Rightarrow>
          bind_res (resolveHash db gen h pfx) (\<lambda>rn.
            map_res (\<lambda>(dirty, nn). if \<not> dirty then (False, rn) else (True, nn)) (t_delete db gen k rn pfx key)))"

text \<open>The result is the value and the error of the Go function, and the trie as it is left.\<close>

definition trie_TryGet :: "nat \<Rightarrow> bytes \<Rightarrow> Trie \<Rightarrow> ((trie_error + bytes option) \<times> Trie) option" where
  "trie_TryGet fuel key t = do {
     r \<leftarrow> tryGet (t_db t) (cachegen t) fuel (t_root t) (keybytesToHex key) 0;
     Some (case r of
         Inl e \<Rightarrow> (Inl e, t)
       | Inr (v, newroot, didResolve) \<Rightarrow> (Inr v, if didResolve then t\<lparr>t_root := newroot\<rparr> else t)) }"

definition set_root :: "(trie_error + bool \<times> node) option \<Rightarrow> Trie \<Rightarrow> (trie_error option \<times> Trie) option" where
  "set_root m t = do {
     r \<leftarrow> m;
     Some (case r of Inl e \<Rightarrow> (Some e, t) | Inr (_, n) \<Rightarrow> (None, t\<lparr>t_root := n\<rparr>)) }"

definition trie_TryDelete :: "nat \<Rightarrow> bytes \<Rightarrow> Trie \<Rightarrow> (trie_error option \<times> Trie) option" where
  "trie_TryDelete fuel key t = set_root (t_delete (t_db t) (cachegen t) fuel (t_root t) [] (keybytesToHex key)) t"

definition trie_TryUpdate :: "nat \<Rightarrow> bytes \<Rightarrow> bytes \<Rightarrow> Trie \<Rightarrow> (trie_error option \<times> Trie) option" where
  "trie_TryUpdate fuel key v t =
     (if length v \<noteq> 0
      then set_root (t_insert (t_db t) (cachegen t) fuel (t_root t) [] (keybytesToHex key) (valueNode v)) t
      else set_root (t_delete (t_db t) (cachegen t) fuel (t_root t) [] (keybytesToHex key)) t)"

end
